(* ===== verification/Cloud_Core.thy ===== *)
theory Cloud_Core
  imports VF_Prelude
begin

text \<open>
  The values and pure functions of \<open>crates/cloud-core\<close>: the playtime, schema, commit and
  snapshot values that the journal and the backends exchange (\<open>sync.rs\<close>), the file metadata of the
  save stores (\<open>files.rs\<close>), the process-wide device descriptor (\<open>device.rs\<close>) and the
  domain-separated scope digests (\<open>lib.rs\<close>).  SHA-256 is not part of the repository: it is the
  parameter \<open>sha256\<close> of the functions that hash.  The mutex around the descriptor is never
  poisoned in the model, so the descriptor is a plain optional value.
\<close>

section \<open>Values\<close>

record playtime_entry =
  pe_owner_scope :: string
  pe_owner_steam_id64 :: string
  pe_app_id :: u32
  pe_playtime_minutes :: u32
  pe_playtime_2weeks_minutes :: u32
  pe_last_played_at :: "int option"
  pe_observed_at :: int

record achievement_schema =
  as_owner_scope :: string
  as_app_id :: u32
  as_language :: string
  as_schema_version :: "string option"
  as_content :: bytes

record stats_commit =
  sc_owner_scope :: string
  sc_owner_steam_id64 :: string
  sc_commit_id :: string
  sc_app_id :: u32
  sc_base_crc_stats :: "u32 option"
  sc_dirty_stat_ids :: "u32 list"
  sc_observed_at :: int

record official_achievement_state =
  oa_key :: string
  oa_unlocked :: bool
  oa_unlocked_at :: "int option"

record official_stat_state =
  os_key :: string
  os_value_type :: string
  os_value :: string

record steam_app_snapshot =
  ss_owner_scope :: string
  ss_owner_steam_id64 :: string
  ss_commit_id :: string
  ss_app_id :: u32
  ss_base_crc_stats :: "u32 option"
  ss_dirty_stat_ids :: "u32 list"
  ss_achievements :: "official_achievement_state list"
  ss_stats :: "official_stat_state list"
  ss_observed_at :: int

record achievement_sync_state =
  ay_app_id :: u32
  ay_achievement_key :: string
  ay_unlocked :: bool
  ay_progress_current :: "u32 option"
  ay_progress_max :: "u32 option"
  ay_observed_at :: int
  ay_unlocked_at :: "int option"

record stat_sync_state =
  sy_app_id :: u32
  sy_stat_key :: string
  sy_value_type :: string
  sy_value :: string
  sy_observed_at :: int

datatype app_stats_result =
    Uninitialized
  | SchemaMismatch "string option"
  | Unchanged string u32
  | Modified string "u32 option" "achievement_sync_state list" "stat_sync_state list"

record file_metadata =
  fm_sha1 :: string
  fm_raw_size :: u64
  fm_mtime :: int
  fm_platforms_to_sync :: u32

record file_entry =
  fe_path :: string
  fe_metadata :: file_metadata
  fe_change_number :: u64

record change_list =
  cl_current_change_number :: u64
  cl_files :: "file_entry list"
  cl_deleted_paths :: "string list"
  cl_is_delta :: bool

record quota =
  qt_used_bytes :: u64
  qt_total_bytes :: u64
  qt_used_files :: u32
  qt_total_files :: u32

record http_target =
  ht_host :: string
  ht_path :: string
  ht_https :: bool
  ht_headers :: "(string \<times> string) list"

record backend_error =
  be_message :: string
  be_retryable :: bool

section \<open>The device descriptor\<close>

record device_descriptor =
  dd_client_id :: u64
  dd_machine_name :: string
  dd_os_type :: "int option"
  dd_device_type :: "int option"

definition replace_device_descriptor ::
  "device_descriptor option \<Rightarrow> device_descriptor \<Rightarrow> bool \<times> device_descriptor option" where
  "replace_device_descriptor current descriptor =
     (if current = Some descriptor then (False, current) else (True, Some descriptor))"

definition record_device_descriptor ::
  "device_descriptor \<Rightarrow> device_descriptor option \<Rightarrow> bool \<times> device_descriptor option" where
  "record_device_descriptor descriptor current =
     (if dd_client_id descriptor = 0 then (False, current)
      else replace_device_descriptor current descriptor)"

definition restore_device_descriptor ::
  "device_descriptor \<Rightarrow> device_descriptor option \<Rightarrow> device_descriptor option" where
  "restore_device_descriptor descriptor current =
     (case current of None \<Rightarrow> Some descriptor | Some _ \<Rightarrow> current)"

definition record_local_client_id ::
  "u64 \<Rightarrow> device_descriptor option \<Rightarrow> bool \<times> device_descriptor option" where
  "record_local_client_id client_id current =
     record_device_descriptor
       \<lparr>dd_client_id = client_id, dd_machine_name = '''', dd_os_type = None, dd_device_type = None\<rparr>
       current"

section \<open>Scope digests\<close>

definition SCOPE_DOMAIN :: bytes where
  "SCOPE_DOMAIN = as_bytes ''vapor-forge/scope/v1''"

text \<open>The hasher's state is the input it has absorbed.\<close>

definition update_field :: "bytes \<Rightarrow> bytes \<Rightarrow> bytes" where
  "update_field hasher field = hasher @ u64_to_be_bytes (of_nat (length field)) @ field"

definition scope_material :: "bytes \<Rightarrow> bytes list \<Rightarrow> bytes" where
  "scope_material kind parts =
     foldl update_field (update_field (update_field [] SCOPE_DOMAIN) kind) parts"

definition scope_digest :: "(bytes \<Rightarrow> bytes) \<Rightarrow> bytes \<Rightarrow> bytes list \<Rightarrow> string" where
  "scope_digest sha256 kind parts = hex_bytes (sha256 (scope_material kind parts))"

definition normalized_server_url :: "string \<Rightarrow> string" where
  "normalized_server_url server_url = trim_end_matches CHR ''/'' (trim server_url)"

definition endpoint_scope :: "(bytes \<Rightarrow> bytes) \<Rightarrow> string \<Rightarrow> string" where
  "endpoint_scope sha256 server_url =
     scope_digest sha256 (as_bytes ''endpoint'') [as_bytes (normalized_server_url server_url)]"

definition credential_fingerprint :: "(bytes \<Rightarrow> bytes) \<Rightarrow> string \<Rightarrow> string \<Rightarrow> string" where
  "credential_fingerprint sha256 server_url token =
     scope_digest sha256 (as_bytes ''credential'')
       [as_bytes (normalized_server_url server_url), as_bytes (trim token)]"

definition principal_scope :: "(bytes \<Rightarrow> bytes) \<Rightarrow> string \<Rightarrow> string \<Rightarrow> string" where
  "principal_scope sha256 server_url principal_id =
     scope_digest sha256 (as_bytes ''principal'')
       [as_bytes (normalized_server_url server_url), as_bytes (trim principal_id)]"

definition stats_commit_id :: "(bytes \<Rightarrow> bytes) \<Rightarrow> string \<Rightarrow> u32 \<Rightarrow> bytes \<Rightarrow> string" where
  "stats_commit_id sha256 steam_id64 app_id request =
     scope_digest sha256 (as_bytes ''stats-commit'')
       [as_bytes steam_id64, u32_to_be_bytes app_id, sha256 request]"

section \<open>Lemmas\<close>

lemma update_field_append: "update_field h f = h @ update_field [] f"
  by (simp add: update_field_def)

lemma foldl_update_field: "foldl update_field h fs = h @ concat (map (update_field []) fs)"
proof (induction fs arbitrary: h)
  case (Cons f fs)
  then show ?case by (simp add: update_field_append [of h])
qed simp

lemma u64_be_length_inj:
  assumes "u64_to_be_bytes (of_nat a) = u64_to_be_bytes (of_nat b)" "a < 2 ^ 64" "b < 2 ^ 64"
  shows "a = b"
proof -
  from assms(1) have "le_bytes 8 (unat (of_nat a :: u64)) = le_bytes 8 (unat (of_nat b :: u64))"
    by (simp add: u64_to_be_bytes_def)
  then have "le_nat (le_bytes 8 a) = le_nat (le_bytes 8 b)"
    using assms(2,3) by (simp add: unat_of_nat)
  with assms(2,3) show ?thesis by (simp add: le_nat_le_bytes)
qed

lemma length_u64_to_be_bytes [simp, bytes_simps]: "length (u64_to_be_bytes v) = 8"
  by (simp add: u64_to_be_bytes_def)

lemma u64_to_be_bytes_not_Nil [simp]: "u64_to_be_bytes v \<noteq> []"
  using length_u64_to_be_bytes [of v] by (metis length_0_conv zero_neq_numeral)

text \<open>One length-prefixed field can be read back off the front of the hasher's input.\<close>

lemma update_field_inj:
  assumes "update_field [] a @ x = update_field [] b @ y"
    and "length a < 2 ^ 64" "length b < 2 ^ 64"
  shows "a = b \<and> x = y"
proof -
  from assms(1) have eq: "u64_to_be_bytes (of_nat (length a)) = u64_to_be_bytes (of_nat (length b))"
    and rest: "a @ x = b @ y"
    by (simp_all add: update_field_def append_eq_append_conv)
  from eq assms(2,3) have "length a = length b" by (rule u64_be_length_inj)
  with rest show ?thesis by simp
qed

lemma concat_fields_inj:
  assumes "concat (map (update_field []) fs) = concat (map (update_field []) gs)"
    and "\<forall>f \<in> set fs. length f < 2 ^ 64" "\<forall>g \<in> set gs. length g < 2 ^ 64"
  shows "fs = gs"
  using assms
proof (induction fs arbitrary: gs)
  case Nil
  then show ?case by (cases gs) (auto simp: update_field_def)
next
  case (Cons f fs)
  then obtain g gs' where gs: "gs = g # gs'"
    by (cases gs) (auto simp: update_field_def)
  from Cons.prems gs update_field_inj [of f "concat (map (update_field []) fs)" g]
  have "f = g \<and> concat (map (update_field []) fs) = concat (map (update_field []) gs')" by simp
  with Cons gs show ?case by auto
qed

lemma scope_material_eq:
  "scope_material kind parts = concat (map (update_field []) (SCOPE_DOMAIN # kind # parts))"
  by (simp add: scope_material_def foldl_update_field update_field_append [of "update_field [] SCOPE_DOMAIN"])

lemma scope_material_inj:
  assumes "scope_material k fs = scope_material k' fs'"
    and "length k < 2 ^ 64" "length k' < 2 ^ 64"
    and "\<forall>f \<in> set fs. length f < 2 ^ 64" "\<forall>f \<in> set fs'. length f < 2 ^ 64"
  shows "k = k' \<and> fs = fs'"
proof -
  have d: "length SCOPE_DOMAIN < 2 ^ 64" by (simp add: SCOPE_DOMAIN_def as_bytes_def)
  have "SCOPE_DOMAIN # k # fs = SCOPE_DOMAIN # k' # fs'"
    by (rule concat_fields_inj) (use assms d in \<open>auto simp: scope_material_eq simp del: concat.simps list.map\<close>)
  then show ?thesis by simp
qed

end
