(* ===== verification/Journal_Record.thy ===== *)
theory Journal_Record
  imports Cloud_Core
begin

text \<open>
  The stored records of \<open>crates/sync-journal\<close> (\<open>record.rs\<close>, \<open>retry.rs\<close> and the event value and
  identifier of \<open>model.rs\<close>): one HOL record per \<open>Persistent\<close> struct, the conversions to and from
  the public values, the playtime merge, the completion and reopening of a stats commit and the
  retry delay.  The lemmas show that the conversions round-trip, that a merge is a join of the
  observations which changes the revision exactly when a stored value moves, and that the delay
  is a power of two between 1 and 256.
\<close>

section \<open>Values of the journal\<close>

record conflict_resolution_event =
  ce_owner_scope :: string
  ce_event_id :: string
  ce_app_id :: u32
  ce_base_change_number :: u64
  ce_remote_change_number :: u64
  ce_resolution :: string
  ce_machine_name :: "string option"

datatype sync_journal_error = Io string | Storage string

text \<open>The identifier is the hexadecimal form of the first 16 bytes of a digest with the version
  and the variant bits set; slicing a shorter digest panics, which is \<open>None\<close> here.\<close>

definition uuid_bytes :: "bytes \<Rightarrow> u8 \<Rightarrow> bytes option" where
  "uuid_bytes digest version =
     (if length digest < 16 then None
      else let b = take 16 digest;
               b = b[6 := (b ! 6 AND 0x0F) OR push_bit 4 version];
               b = b[8 := (b ! 8 AND 0x3F) OR 0x80]
           in Some b)"

fun uuid_text :: "nat \<Rightarrow> bytes \<Rightarrow> string" where
  "uuid_text i [] = []"
| "uuid_text i (b # bs) =
     (if i = 4 \<or> i = 6 \<or> i = 8 \<or> i = 10 then CHR ''-'' # hex_byte b else hex_byte b)
     @ uuid_text (Suc i) bs"

definition uuid_from_digest :: "bytes \<Rightarrow> u8 \<Rightarrow> string option" where
  "uuid_from_digest digest version = map_option (uuid_text 0) (uuid_bytes digest version)"

definition new_event_id ::
  "(bytes \<Rightarrow> bytes) \<Rightarrow> nat \<Rightarrow> u32 \<Rightarrow> u64 \<Rightarrow> string option \<times> u64" where
  "new_event_id sha256 nanos pid sequence =
     (let material = nat_to_string nanos @ '':'' @ nat_to_string (unat pid) @ '':''
                       @ nat_to_string (unat sequence)
      in (uuid_from_digest (sha256 (as_bytes material)) 4, sequence + 1))"

section \<open>Retry\<close>

definition retry_delay :: "int \<Rightarrow> int" where
  "retry_delay attempts = 2 ^ nat (max 0 (min 8 attempts))"

section \<open>Records\<close>

definition KEPT_CLOUD :: string where
  "KEPT_CLOUD = ''kept_cloud''"

record playtime_record =
  pr_owner_scope :: string
  pr_owner_steam_id64 :: string
  pr_app_id :: u32
  pr_playtime_minutes :: u32
  pr_playtime_2weeks_minutes :: u32
  pr_last_played_at :: "int option"
  pr_observed_at :: int
  pr_revision :: u64
  pr_attempts :: int
  pr_next_attempt_at :: int
  pr_created_at :: int

record schema_record =
  cr_owner_scope :: string
  cr_app_id :: u32
  cr_language :: string
  cr_schema_version :: "string option"
  cr_content :: bytes
  cr_revision :: u64
  cr_attempts :: int
  cr_next_attempt_at :: int
  cr_created_at :: int

record achievement_state_record =
  ar_key :: string
  ar_unlocked :: bool
  ar_unlocked_at :: "int option"

record stat_state_record =
  tr_key :: string
  tr_value_type :: string
  tr_value :: string

record stats_record =
  sr_owner_scope :: string
  sr_owner_steam_id64 :: string
  sr_app_id :: u32
  sr_commit_id :: string
  sr_base_crc_stats :: "u32 option"
  sr_dirty_stat_ids :: "u32 list"
  sr_observed_at :: int
  sr_snapshot_observed_at :: "int option"
  sr_snapshot_achievements :: "achievement_state_record list"
  sr_snapshot_stats :: "stat_state_record list"
  sr_revision :: u64
  sr_attempts :: int
  sr_next_attempt_at :: int
  sr_created_at :: int

record conflict_record =
  fr_owner_scope :: string
  fr_event_id :: string
  fr_app_id :: u32
  fr_base_change_number :: u64
  fr_remote_change_number :: u64
  fr_resolution :: string
  fr_machine_name :: "string option"
  fr_revision :: u64
  fr_attempts :: int
  fr_next_attempt_at :: int
  fr_created_at :: int

record device_record =
  dr_client_id :: u64
  dr_machine_name :: string
  dr_os_type :: "int option"
  dr_device_type :: "int option"
  dr_observed_at :: int

record backend_principal_record =
  br_credential_fingerprint :: string
  br_principal_scope :: string
  br_observed_at :: int

section \<open>Conversions and updates\<close>

fun max_option :: "int option \<Rightarrow> int option \<Rightarrow> int option" where
  "max_option (Some left) (Some right) = Some (max left right)"
| "max_option (Some v) None = Some v"
| "max_option None (Some v) = Some v"
| "max_option None None = None"

definition playtime_record_new :: "playtime_entry \<Rightarrow> playtime_record" where
  "playtime_record_new entry =
     \<lparr>pr_owner_scope = pe_owner_scope entry, pr_owner_steam_id64 = pe_owner_steam_id64 entry,
      pr_app_id = pe_app_id entry, pr_playtime_minutes = pe_playtime_minutes entry,
      pr_playtime_2weeks_minutes = pe_playtime_2weeks_minutes entry,
      pr_last_played_at = pe_last_played_at entry, pr_observed_at = pe_observed_at entry,
      pr_revision = 0, pr_attempts = 0, pr_next_attempt_at = 0,
      pr_created_at = pe_observed_at entry\<rparr>"

definition playtime_value :: "playtime_record \<Rightarrow> playtime_entry" where
  "playtime_value r =
     \<lparr>pe_owner_scope = pr_owner_scope r, pe_owner_steam_id64 = pr_owner_steam_id64 r,
      pe_app_id = pr_app_id r, pe_playtime_minutes = pr_playtime_minutes r,
      pe_playtime_2weeks_minutes = pr_playtime_2weeks_minutes r,
      pe_last_played_at = pr_last_played_at r, pe_observed_at = pr_observed_at r\<rparr>"

definition playtime_merge :: "playtime_record \<Rightarrow> playtime_entry \<Rightarrow> bool \<times> playtime_record" where
  "playtime_merge r incoming =
     (let minutes = max (pr_playtime_minutes r) (pe_playtime_minutes incoming);
          last_played = max_option (pr_last_played_at r) (pe_last_played_at incoming);
          two_weeks = (if pr_observed_at r \<le> pe_observed_at incoming
                       then pe_playtime_2weeks_minutes incoming
                       else pr_playtime_2weeks_minutes r)
      in if minutes = pr_playtime_minutes r \<and> last_played = pr_last_played_at r
            \<and> two_weeks = pr_playtime_2weeks_minutes r
         then (False, r)
         else (True, r\<lparr>pr_playtime_minutes := minutes, pr_last_played_at := last_played,
                       pr_playtime_2weeks_minutes := two_weeks,
                       pr_observed_at := max (pr_observed_at r) (pe_observed_at incoming),
                       pr_revision := pr_revision r + 1, pr_attempts := 0,
                       pr_next_attempt_at := 0\<rparr>))"

text \<open>A sequence of observations folded into one record, in the order they arrive.\<close>

definition merge_all :: "playtime_entry list \<Rightarrow> playtime_record \<Rightarrow> playtime_record" where
  "merge_all = fold (\<lambda>e r. snd (playtime_merge r e))"

definition schema_record_new :: "achievement_schema \<Rightarrow> int \<Rightarrow> schema_record" where
  "schema_record_new schema now =
     \<lparr>cr_owner_scope = as_owner_scope schema, cr_app_id = as_app_id schema,
      cr_language = as_language schema, cr_schema_version = as_schema_version schema,
      cr_content = as_content schema, cr_revision = 0, cr_attempts = 0,
      cr_next_attempt_at = 0, cr_created_at = now\<rparr>"

definition schema_value :: "schema_record \<Rightarrow> achievement_schema" where
  "schema_value r =
     \<lparr>as_owner_scope = cr_owner_scope r, as_app_id = cr_app_id r, as_language = cr_language r,
      as_schema_version = cr_schema_version r, as_content = cr_content r\<rparr>"

definition stats_record_new :: "stats_commit \<Rightarrow> stats_record" where
  "stats_record_new c =
     \<lparr>sr_owner_scope = sc_owner_scope c, sr_owner_steam_id64 = sc_owner_steam_id64 c,
      sr_app_id = sc_app_id c, sr_commit_id = sc_commit_id c,
      sr_base_crc_stats = sc_base_crc_stats c, sr_dirty_stat_ids = sc_dirty_stat_ids c,
      sr_observed_at = sc_observed_at c, sr_snapshot_observed_at = None,
      sr_snapshot_achievements = [], sr_snapshot_stats = [], sr_revision = 0,
      sr_attempts = 0, sr_next_attempt_at = 0, sr_created_at = sc_observed_at c\<rparr>"

definition stats_commit_of :: "stats_record \<Rightarrow> stats_commit" where
  "stats_commit_of r =
     \<lparr>sc_owner_scope = sr_owner_scope r, sc_owner_steam_id64 = sr_owner_steam_id64 r,
      sc_commit_id = sr_commit_id r, sc_app_id = sr_app_id r,
      sc_base_crc_stats = sr_base_crc_stats r, sc_dirty_stat_ids = sr_dirty_stat_ids r,
      sc_observed_at = sr_observed_at r\<rparr>"

definition has_snapshot :: "stats_record \<Rightarrow> bool" where
  "has_snapshot r \<longleftrightarrow> sr_snapshot_observed_at r \<noteq> None"

definition stats_complete :: "stats_record \<Rightarrow> steam_app_snapshot \<Rightarrow> stats_record" where
  "stats_complete r s =
     r\<lparr>sr_snapshot_observed_at := Some (ss_observed_at s),
       sr_snapshot_achievements :=
         map (\<lambda>a. \<lparr>ar_key = oa_key a, ar_unlocked = oa_unlocked a, ar_unlocked_at = oa_unlocked_at a\<rparr>)
           (ss_achievements s),
       sr_snapshot_stats :=
         map (\<lambda>t. \<lparr>tr_key = os_key t, tr_value_type = os_value_type t, tr_value = os_value t\<rparr>)
           (ss_stats s),
       sr_revision := sr_revision r + 1, sr_attempts := 0, sr_next_attempt_at := 0\<rparr>"

definition stats_reopen :: "stats_record \<Rightarrow> u32 option \<Rightarrow> int \<Rightarrow> stats_record" where
  "stats_reopen r base_crc_stats now =
     r\<lparr>sr_base_crc_stats := base_crc_stats, sr_snapshot_observed_at := None,
       sr_snapshot_achievements := [], sr_snapshot_stats := [], sr_observed_at := now,
       sr_revision := sr_revision r + 1, sr_attempts := 0, sr_next_attempt_at := 0\<rparr>"

definition stats_snapshot :: "stats_record \<Rightarrow> steam_app_snapshot option" where
  "stats_snapshot r =
     opt_bind (sr_snapshot_observed_at r) (\<lambda>observed_at. Some
       \<lparr>ss_owner_scope = sr_owner_scope r, ss_owner_steam_id64 = sr_owner_steam_id64 r,
        ss_commit_id = sr_commit_id r, ss_app_id = sr_app_id r,
        ss_base_crc_stats = sr_base_crc_stats r, ss_dirty_stat_ids = sr_dirty_stat_ids r,
        ss_achievements =
          map (\<lambda>a. \<lparr>oa_key = ar_key a, oa_unlocked = ar_unlocked a, oa_unlocked_at = ar_unlocked_at a\<rparr>)
            (sr_snapshot_achievements r),
        ss_stats =
          map (\<lambda>t. \<lparr>os_key = tr_key t, os_value_type = tr_value_type t, os_value = tr_value t\<rparr>)
            (sr_snapshot_stats r),
        ss_observed_at = observed_at\<rparr>)"

definition conflict_record_new :: "conflict_resolution_event \<Rightarrow> int \<Rightarrow> conflict_record" where
  "conflict_record_new e now =
     \<lparr>fr_owner_scope = ce_owner_scope e, fr_event_id = ce_event_id e, fr_app_id = ce_app_id e,
      fr_base_change_number = ce_base_change_number e,
      fr_remote_change_number = ce_remote_change_number e, fr_resolution = ce_resolution e,
      fr_machine_name = ce_machine_name e, fr_revision = 0, fr_attempts = 0,
      fr_next_attempt_at = 0, fr_created_at = now\<rparr>"

definition conflict_value :: "conflict_record \<Rightarrow> conflict_resolution_event" where
  "conflict_value r =
     \<lparr>ce_owner_scope = fr_owner_scope r, ce_event_id = fr_event_id r, ce_app_id = fr_app_id r,
      ce_base_change_number = fr_base_change_number r,
      ce_remote_change_number = fr_remote_change_number r, ce_resolution = fr_resolution r,
      ce_machine_name = fr_machine_name r\<rparr>"

definition kept_cloud :: "conflict_record \<Rightarrow> bool" where
  "kept_cloud r \<longleftrightarrow> fr_resolution r = KEPT_CLOUD"

definition device_value :: "device_record \<Rightarrow> device_descriptor" where
  "device_value r =
     \<lparr>dd_client_id = dr_client_id r, dd_machine_name = dr_machine_name r,
      dd_os_type = dr_os_type r, dd_device_type = dr_device_type r\<rparr>"

section \<open>Lemmas\<close>

lemma playtime_value_new [simp]: "playtime_value (playtime_record_new e) = e"
  by (simp add: playtime_value_def playtime_record_new_def)

lemma schema_value_new [simp]: "schema_value (schema_record_new s now) = s"
  by (simp add: schema_value_def schema_record_new_def)

lemma stats_commit_of_new [simp]: "stats_commit_of (stats_record_new c) = c"
  by (simp add: stats_commit_of_def stats_record_new_def)

lemma conflict_value_new [simp]: "conflict_value (conflict_record_new e now) = e"
  by (simp add: conflict_value_def conflict_record_new_def)

lemma word_succ_neq [simp]: "(w :: 'a :: len word) + 1 \<noteq> w"
  by simp

lemma max_option_assoc: "max_option (max_option a b) c = max_option a (max_option b c)"
  by (cases a; cases b; cases c) (simp_all add: max.assoc)

lemma max_option_commute: "max_option a b = max_option b a"
  by (cases a; cases b) (simp_all add: max.commute)

lemma max_option_left_commute: "max_option a (max_option b c) = max_option b (max_option a c)"
  by (metis max_option_assoc max_option_commute)

lemma max_option_idem [simp]: "max_option (max_option a b) b = max_option a b"
  by (cases a; cases b) (simp_all add: max_def)

lemma playtime_merge_fields:
  "pr_playtime_minutes (snd (playtime_merge r e)) = max (pr_playtime_minutes r) (pe_playtime_minutes e)"
  "pr_last_played_at (snd (playtime_merge r e)) = max_option (pr_last_played_at r) (pe_last_played_at e)"
  "pr_owner_scope (snd (playtime_merge r e)) = pr_owner_scope r"
  "pr_owner_steam_id64 (snd (playtime_merge r e)) = pr_owner_steam_id64 r"
  "pr_app_id (snd (playtime_merge r e)) = pr_app_id r"
  by (simp_all add: playtime_merge_def Let_def)

lemma playtime_merge_revision:
  "pr_revision (snd (playtime_merge r e)) = (if fst (playtime_merge r e) then pr_revision r + 1 else pr_revision r)"
  by (simp add: playtime_merge_def Let_def)

lemma playtime_merge_unchanged: "\<not> fst (playtime_merge r e) \<Longrightarrow> snd (playtime_merge r e) = r"
  by (auto simp: playtime_merge_def Let_def split: if_splits)

lemma retry_delay_range: "1 \<le> retry_delay a" "retry_delay a \<le> 256"
proof -
  show "1 \<le> retry_delay a" by (simp add: retry_delay_def)
  have "(2 :: int) ^ nat (max 0 (min 8 a)) \<le> 2 ^ 8"
    by (rule power_increasing) auto
  then show "retry_delay a \<le> 256" by (simp add: retry_delay_def)
qed

lemma sixteen_bytes:
  assumes "length (b :: 'a list) = 16"
  obtains b0 b1 b2 b3 b4 b5 b6 b7 b8 b9 b10 b11 b12 b13 b14 b15
  where "b = [b0, b1, b2, b3, b4, b5, b6, b7, b8, b9, b10, b11, b12, b13, b14, b15]"
  using assms by (auto simp: numeral_eq_Suc length_Suc_conv)

lemma merge_all_minutes:
  "pr_playtime_minutes (merge_all es r)
     = fold (\<lambda>e m. max m (pe_playtime_minutes e)) es (pr_playtime_minutes r)"
  by (induction es arbitrary: r) (simp_all add: merge_all_def playtime_merge_fields)

lemma merge_all_last:
  "pr_last_played_at (merge_all es r)
     = fold (\<lambda>e m. max_option m (pe_last_played_at e)) es (pr_last_played_at r)"
  by (induction es arbitrary: r) (simp_all add: merge_all_def playtime_merge_fields)

lemma merge_all_grows: "pr_playtime_minutes r \<le> pr_playtime_minutes (merge_all es r)"
proof (induction es arbitrary: r)
  case (Cons e es)
  have "pr_playtime_minutes r \<le> pr_playtime_minutes (snd (playtime_merge r e))"
    by (simp add: playtime_merge_fields)
  also have "\<dots> \<le> pr_playtime_minutes (merge_all es (snd (playtime_merge r e)))" by (rule Cons.IH)
  finally show ?case by (simp add: merge_all_def)
qed (simp add: merge_all_def)

lemma hex_byte_digits: "hex_byte b = [digit_char (unat b div 16), digit_char (unat b mod 16)]"
proof -
  have "unat b div 16 < 16" using unat_bound [of b] by simp
  then show ?thesis by (simp add: hex_byte_def numeral_2_eq_2)
qed

lemma digit_char_samples:
  "digit_char 4 = CHR ''4''" "digit_char 8 = CHR ''8''" "digit_char 9 = CHR ''9''"
  "digit_char 10 = CHR ''a''" "digit_char 11 = CHR ''b''"
  by code_simp+

lemma version_nibble:
  assumes "v < (16 :: u8)"
  shows "unat ((b AND 0x0F) OR push_bit 4 v) div 16 = unat v"
proof -
  have m: "(15 :: u8) = mask 4" by (simp add: mask_eq_exp_minus_1)
  have "unat v < 16" using assms by (simp add: word_less_nat_alt)
  then have v: "unat (take_bit 4 v) = unat v" by (simp add: unsigned_take_bit_eq take_bit_nat_eq_self)
  have "drop_bit 4 ((b AND 15) OR push_bit 4 v) = take_bit 4 v"
    unfolding m by (rule bit_eqI) (auto simp: bit_simps)
  then have "unat (drop_bit 4 ((b AND 15) OR push_bit 4 v)) = unat v"
    using v by simp
  then show ?thesis by (simp add: drop_bit_eq_div unat_div_distrib)
qed

lemma variant_nibble:
  "unat (((b :: u8) AND 0x3F) OR 0x80) div 16 \<in> {8, 9, 10, 11}"
proof -
  have "(b AND 0x3F) AND 0x80 = 0" by (simp add: and.assoc)
  then have "(b AND 0x3F) OR 0x80 = (b AND 0x3F) + 0x80"
    by (rule disjunctive_add_eq_or [symmetric])
  moreover have "unat (b AND 0x3F) \<le> 0x3F"
    using word_and_le1 [of b "0x3F"] by (simp add: word_le_nat_alt)
  ultimately have "unat ((b AND 0x3F) OR 0x80) = unat (b AND 0x3F) + 128"
    by (simp add: unat_word_ariths)
  with \<open>unat (b AND 0x3F) \<le> 0x3F\<close> show ?thesis by auto
qed

section \<open>Properties\<close>

text \<open>Folding an observation into a playtime record is a join: the minutes and the last-played
  time become the maximum of both sides, the identity of the record is kept, and the revision
  moves exactly when the merge reports a change.  Folding the same observation in again changes
  nothing and reports no change, so a redundant sample never invalidates an acknowledgement in
  flight.\<close>

theorem playtime_merge_join:
  "let (changed, r') = playtime_merge r e in
     pr_playtime_minutes r' = max (pr_playtime_minutes r) (pe_playtime_minutes e)
     \<and> pr_last_played_at r' = max_option (pr_last_played_at r) (pe_last_played_at e)
     \<and> (pr_owner_scope r', pr_owner_steam_id64 r', pr_app_id r', pr_created_at r')
         = (pr_owner_scope r, pr_owner_steam_id64 r, pr_app_id r, pr_created_at r)
     \<and> (changed \<longleftrightarrow> pr_revision r' \<noteq> pr_revision r)
     \<and> (changed \<longleftrightarrow> r' \<noteq> r)
     \<and> playtime_merge r' e = (False, r')"
proof -
  obtain changed r' where m: "playtime_merge r e = (changed, r')" by fastforce
  have "r' \<noteq> r" if "changed"
    using that m playtime_merge_revision [of r e] by auto
  moreover have "playtime_merge r' e = (False, r')"
    using m by (auto simp: playtime_merge_def Let_def max_def split: if_splits)
  moreover have "pr_created_at r' = pr_created_at r"
    using m by (auto simp: playtime_merge_def Let_def split: if_splits)
  ultimately show ?thesis
    using m playtime_merge_fields [of r e] playtime_merge_revision [of r e]
      playtime_merge_unchanged [of r e] by auto
qed

text \<open>C21: The playtime total and the last-played time of a record do not depend on the order in
  which observations arrive, and no sequence of observations makes the total smaller.\<close>

theorem playtime_merge_order:
  assumes "mset es = mset es'"
  shows "pr_playtime_minutes (merge_all es r) = pr_playtime_minutes (merge_all es' r)
    \<and> pr_last_played_at (merge_all es r) = pr_last_played_at (merge_all es' r)
    \<and> pr_playtime_minutes r \<le> pr_playtime_minutes (merge_all es r)"
proof -
  have "fold (\<lambda>e m. max m (pe_playtime_minutes e)) es = fold (\<lambda>e m. max m (pe_playtime_minutes e)) es'"
    by (rule fold_multiset_equiv [OF _ assms]) (simp add: fun_eq_iff max.commute max.left_commute max.assoc)
  moreover have "fold (\<lambda>e m. max_option m (pe_last_played_at e)) es
      = fold (\<lambda>e m. max_option m (pe_last_played_at e)) es'"
    by (rule fold_multiset_equiv [OF _ assms])
       (auto simp: fun_eq_iff max_option_assoc max_option_commute max_option_left_commute)
  ultimately show ?thesis
    using merge_all_grows by (simp add: merge_all_minutes merge_all_last)
qed

theorem playtime_merge_order_witness:
  "let a = \<lparr>pe_owner_scope = ''s'', pe_owner_steam_id64 = ''7'', pe_app_id = 480,
            pe_playtime_minutes = 90, pe_playtime_2weeks_minutes = 5,
            pe_last_played_at = Some 10, pe_observed_at = 11\<rparr>;
       b = a\<lparr>pe_playtime_minutes := 60, pe_last_played_at := None\<rparr>
   in pr_playtime_minutes (merge_all [a, b] (playtime_record_new b))
        = pr_playtime_minutes (merge_all [b, a] (playtime_record_new b))"
proof -
  define a :: playtime_entry where "a = \<lparr>pe_owner_scope = ''s'', pe_owner_steam_id64 = ''7'', pe_app_id = 480,
            pe_playtime_minutes = 90, pe_playtime_2weeks_minutes = 5,
            pe_last_played_at = Some 10, pe_observed_at = 11\<rparr>"
  define b where "b = a\<lparr>pe_playtime_minutes := 60, pe_last_played_at := None\<rparr>"
  have "mset [a, b] = mset [b, a]" by simp
  from playtime_merge_order [OF this, of "playtime_record_new b"] show ?thesis
    by (simp only: a_def b_def Let_def)
qed

text \<open>C22: A sample that repeats the stored values does not advance the stored observation time, so a
  sample that is older than it but newer than the stored time still replaces the two-week figure:
  the two-week figure of the record is then not the one observed last.\<close>

theorem playtime_merge_stale_two_weeks:
  assumes "pe_playtime_minutes newest = pr_playtime_minutes r"
    and "pe_last_played_at newest = pr_last_played_at r"
    and "pe_playtime_2weeks_minutes newest = pr_playtime_2weeks_minutes r"
    and "pr_observed_at r \<le> pe_observed_at late"
    and "pe_observed_at late < pe_observed_at newest"
    and "pe_playtime_2weeks_minutes late \<noteq> pe_playtime_2weeks_minutes newest"
  shows "playtime_merge r newest = (False, r)
    \<and> pr_playtime_2weeks_minutes (merge_all [newest, late] r) = pe_playtime_2weeks_minutes late
    \<and> pr_observed_at (merge_all [newest, late] r) < pe_observed_at newest"
proof -
  have [simp]: "max_option a a = a" for a by (cases a) simp_all
  have 1: "playtime_merge r newest = (False, r)"
    using assms by (simp add: playtime_merge_def Let_def)
  then have "merge_all [newest, late] r = snd (playtime_merge r late)"
    by (simp add: merge_all_def)
  with 1 show ?thesis
    using assms by (simp add: playtime_merge_def Let_def max_def)
qed

theorem playtime_merge_stale_two_weeks_witness:
  "let first = \<lparr>pe_owner_scope = ''s'', pe_owner_steam_id64 = ''7'', pe_app_id = 480,
            pe_playtime_minutes = 90, pe_playtime_2weeks_minutes = 5,
            pe_last_played_at = Some 10, pe_observed_at = 11\<rparr>
   in pr_playtime_2weeks_minutes
        (merge_all [first\<lparr>pe_observed_at := 100\<rparr>,
                    first\<lparr>pe_observed_at := 50, pe_playtime_2weeks_minutes := 30\<rparr>]
          (playtime_record_new first)) = 30"
proof -
  define first :: playtime_entry where "first = \<lparr>pe_owner_scope = ''s'', pe_owner_steam_id64 = ''7'', pe_app_id = 480,
            pe_playtime_minutes = 90, pe_playtime_2weeks_minutes = 5,
            pe_last_played_at = Some 10, pe_observed_at = 11\<rparr>"
  show ?thesis
    using playtime_merge_stale_two_weeks [of "first\<lparr>pe_observed_at := 100\<rparr>" "playtime_record_new first"
        "first\<lparr>pe_observed_at := 50, pe_playtime_2weeks_minutes := 30\<rparr>"]
    by (simp add: first_def playtime_record_new_def)
qed


text \<open>C24: The identifier built from a digest of at least sixteen bytes is a UUID text: 36 characters
  with dashes at positions 8, 13, 18 and 23, the version digit at position 14 and a variant digit
  8, 9, a or b at position 19.\<close>

theorem uuid_from_digest_shape:
  assumes "16 \<le> length digest" and "version < 16"
  shows "\<exists>s. uuid_from_digest digest version = Some s \<and> length s = 36
    \<and> (s ! 8, s ! 13, s ! 18, s ! 23) = (CHR ''-'', CHR ''-'', CHR ''-'', CHR ''-'')
    \<and> s ! 14 = digit_char (unat version)
    \<and> s ! 19 \<in> {CHR ''8'', CHR ''9'', CHR ''a'', CHR ''b''}"
proof -
  have "length (take 16 digest) = 16" using assms by simp
  then obtain b0 b1 b2 b3 b4 b5 b6 b7 b8 b9 b10 b11 b12 b13 b14 b15
    where b: "take 16 digest = [b0, b1, b2, b3, b4, b5, b6, b7, b8, b9, b10, b11, b12, b13, b14, b15]"
    by (rule sixteen_bytes)
  have "digit_char n \<in> {CHR ''8'', CHR ''9'', CHR ''a'', CHR ''b''}" if "n \<in> {8, 9, 10, 11}" for n
    using that digit_char_samples by auto
  then have "digit_char (unat ((b8 AND 0x3F) OR 0x80) div 16) \<in> {CHR ''8'', CHR ''9'', CHR ''a'', CHR ''b''}"
    using variant_nibble by blast
  then show ?thesis
    using assms(1) version_nibble [OF assms(2), of b6]
    by (simp add: uuid_from_digest_def uuid_bytes_def Let_def b hex_byte_digits)
qed

theorem uuid_from_digest_shape_witness:
  "\<exists>s. uuid_from_digest (replicate 32 0xFF) 4 = Some s \<and> length s = 36 \<and> s ! 14 = CHR ''4''"
  using uuid_from_digest_shape [of "replicate 32 0xFF" 4] digit_char_samples by auto

end
