(* ===== verification/Sync_Journal.thy ===== *)
theory Sync_Journal
  imports Journal_Record
begin

text \<open>
  The durable outbox of \<open>crates/sync-journal\<close> (\<open>store.rs\<close>).  The storage engine structsy is a
  third-party crate: each of the journal's tables is a value of an abstract type \<open>'t\<close> and the
  engine is the record \<open>structsy\<close> of the operations that the code calls on it, any of which may
  fail with a storage error.  What the code relies on is the locale \<open>structsy_engine\<close> of the theory
  Journal_Contract, which also has the properties of the operations defined here.  Every operation of \<open>SyncJournal\<close> works on one table, so each
  is a function of the table; the writer mutex makes the operations atomic, and \<open>journal_write\<close> rolls
  a failed transaction back.
\<close>

section \<open>The storage engine\<close>

record ('t, 'i, 'r) structsy =
  st_begin :: "'t \<Rightarrow> string + 't"
  st_commit :: "'t \<Rightarrow> string + 't"
  st_read :: "'t \<Rightarrow> 'i \<Rightarrow> string + 'r option"
  st_insert :: "'t \<Rightarrow> 'r \<Rightarrow> string + ('i \<times> 't)"
  st_update :: "'t \<Rightarrow> 'i \<Rightarrow> 'r \<Rightarrow> string + 't"
  st_delete :: "'t \<Rightarrow> 'i \<Rightarrow> string + 't"
  st_fetch :: "('r \<Rightarrow> bool) \<Rightarrow> 't \<Rightarrow> ('i \<times> 'r) list"
  st_scan :: "'t \<Rightarrow> string + ('i \<times> 'r) list"
  st_ref_text :: "'i \<Rightarrow> string"
  st_parse_ref :: "string \<Rightarrow> 'i option"

definition table :: "('t, 'i, 'r) structsy \<Rightarrow> 't \<Rightarrow> 'i \<rightharpoonup> 'r" where
  "table db t = map_of (st_fetch db (\<lambda>_. True) t)"

section \<open>Transactions and queued items\<close>

definition storage :: "string + 'a \<Rightarrow> sync_journal_error + 'a" where
  "storage m = (case m of Inl e \<Rightarrow> Inl (Storage e) | Inr x \<Rightarrow> Inr x)"

definition journal_write ::
  "('t, 'i, 'r) structsy \<Rightarrow> ('t \<Rightarrow> sync_journal_error + ('a \<times> 't)) \<Rightarrow> 't
     \<Rightarrow> (sync_journal_error + 'a) \<times> 't" where
  "journal_write db action t =
     (case rbind (storage (st_begin db t)) (\<lambda>tx.
            rbind (action tx) (\<lambda>(output, tx').
            rbind (storage (st_commit db tx')) (\<lambda>t'. Inr (output, t')))) of
        Inl e \<Rightarrow> (Inl e, t)
      | Inr (output, t') \<Rightarrow> (Inr output, t'))"

record 'v queued =
  q_value :: 'v
  q_id :: string
  q_revision :: u64

definition queued_new :: "('t, 'i, 'r) structsy \<Rightarrow> 'i \<Rightarrow> u64 \<Rightarrow> 'v \<Rightarrow> 'v queued" where
  "queued_new db i revision v = \<lparr>q_value = v, q_id = st_ref_text db i, q_revision = revision\<rparr>"

definition queued_reference :: "('t, 'i, 'r) structsy \<Rightarrow> 'v queued \<Rightarrow> sync_journal_error + 'i" where
  "queued_reference db q = ok_or (Storage (''unusable record id: '' @ q_id q)) (st_parse_ref db (q_id q))"

definition queued_values :: "'v queued list \<Rightarrow> 'v list" where
  "queued_values items = map q_value items"

text \<open>What the \<open>journaled!\<close> macro needs of a record type: its revision, its attempt counter and
  the update of the two retry fields.\<close>

record 'r journaled =
  jn_revision :: "'r \<Rightarrow> u64"
  jn_attempts :: "'r \<Rightarrow> int"
  jn_schedule :: "int \<Rightarrow> int \<Rightarrow> 'r \<Rightarrow> 'r"

definition journaled_playtime :: "playtime_record journaled" where
  "journaled_playtime = \<lparr>jn_revision = pr_revision, jn_attempts = pr_attempts,
     jn_schedule = (\<lambda>next_at attempts r. r\<lparr>pr_next_attempt_at := next_at, pr_attempts := attempts\<rparr>)\<rparr>"

definition journaled_schema :: "schema_record journaled" where
  "journaled_schema = \<lparr>jn_revision = cr_revision, jn_attempts = cr_attempts,
     jn_schedule = (\<lambda>next_at attempts r. r\<lparr>cr_next_attempt_at := next_at, cr_attempts := attempts\<rparr>)\<rparr>"

definition journaled_stats :: "stats_record journaled" where
  "journaled_stats = \<lparr>jn_revision = sr_revision, jn_attempts = sr_attempts,
     jn_schedule = (\<lambda>next_at attempts r. r\<lparr>sr_next_attempt_at := next_at, sr_attempts := attempts\<rparr>)\<rparr>"

definition journaled_conflict :: "conflict_record journaled" where
  "journaled_conflict = \<lparr>jn_revision = fr_revision, jn_attempts = fr_attempts,
     jn_schedule = (\<lambda>next_at attempts r. r\<lparr>fr_next_attempt_at := next_at, fr_attempts := attempts\<rparr>)\<rparr>"

definition settle_item ::
  "('t, 'i, 'r) structsy \<Rightarrow> 'r journaled \<Rightarrow> 'v queued \<Rightarrow> 't \<Rightarrow> sync_journal_error + 't" where
  "settle_item db jn item tx =
     rbind (queued_reference db item) (\<lambda>i.
     rbind (storage (st_read db tx i)) (\<lambda>row.
       case row of
         None \<Rightarrow> Inr tx
       | Some stored \<Rightarrow>
           if jn_revision jn stored = q_revision item then storage (st_delete db tx i)
           else Inr tx))"

definition settle ::
  "('t, 'i, 'r) structsy \<Rightarrow> 'r journaled \<Rightarrow> 'v queued list \<Rightarrow> 't
     \<Rightarrow> (sync_journal_error + unit) \<times> 't" where
  "settle db jn items =
     journal_write db (\<lambda>tx. rbind (rfold (settle_item db jn) items tx) (\<lambda>tx'. Inr ((), tx')))"

definition postpone_item ::
  "('t, 'i, 'r) structsy \<Rightarrow> 'r journaled \<Rightarrow> int \<Rightarrow> 'v queued \<Rightarrow> 't \<Rightarrow> sync_journal_error + 't" where
  "postpone_item db jn now item tx =
     rbind (queued_reference db item) (\<lambda>i.
     rbind (storage (st_read db tx i)) (\<lambda>row.
       case row of
         None \<Rightarrow> Inr tx
       | Some stored \<Rightarrow>
           if jn_revision jn stored \<noteq> q_revision item then Inr tx
           else storage (st_update db tx i
                  (jn_schedule jn (i64_saturating_add now (retry_delay (jn_attempts jn stored)))
                     (i64_saturating_add (jn_attempts jn stored) 1) stored))))"

definition postpone ::
  "('t, 'i, 'r) structsy \<Rightarrow> 'r journaled \<Rightarrow> 'v queued list \<Rightarrow> int \<Rightarrow> 't
     \<Rightarrow> (sync_journal_error + unit) \<times> 't" where
  "postpone db jn items now =
     journal_write db (\<lambda>tx. rbind (rfold (postpone_item db jn now) items tx) (\<lambda>tx'. Inr ((), tx')))"

definition acknowledge where
  "acknowledge db jn item = settle db jn [item]"

definition acknowledge_all where
  "acknowledge_all db jn items = settle db jn items"

definition defer_retry where
  "defer_retry db jn item now = postpone db jn [item] now"

definition defer_all where
  "defer_all db jn items now = postpone db jn items now"

section \<open>Playtime totals\<close>

text \<open>The first row that an iterator yields (\<open>next\<close>).\<close>

fun first_row :: "'a list \<Rightarrow> 'a option" where
  "first_row [] = None"
| "first_row (x # _) = Some x"

definition PLAYTIME_BATCH_LIMIT :: nat where "PLAYTIME_BATCH_LIMIT = 500"
definition SCHEMA_BATCH_LIMIT :: nat where "SCHEMA_BATCH_LIMIT = 10"
definition STATS_BATCH_LIMIT :: nat where "STATS_BATCH_LIMIT = 100"
definition CONFLICT_BATCH_LIMIT :: nat where "CONFLICT_BATCH_LIMIT = 100"

definition enqueue_playtime_entry ::
  "('t, 'i, playtime_record) structsy \<Rightarrow> playtime_entry \<Rightarrow> 't \<Rightarrow> sync_journal_error + 't" where
  "enqueue_playtime_entry db incoming tx =
     (case first_row (st_fetch db (\<lambda>r. pr_owner_scope r = pe_owner_scope incoming
                                     \<and> pr_owner_steam_id64 r = pe_owner_steam_id64 incoming
                                     \<and> pr_app_id r = pe_app_id incoming) tx) of
        Some (i, stored) \<Rightarrow>
          (case playtime_merge stored incoming of
             (changed, merged) \<Rightarrow> if changed then storage (st_update db tx i merged) else Inr tx)
      | None \<Rightarrow> rbind (storage (st_insert db tx (playtime_record_new incoming))) (\<lambda>(_, tx'). Inr tx'))"

definition enqueue_playtime ::
  "('t, 'i, playtime_record) structsy \<Rightarrow> playtime_entry list \<Rightarrow> 't
     \<Rightarrow> (sync_journal_error + nat) \<times> 't" where
  "enqueue_playtime db entries =
     journal_write db (\<lambda>tx. rbind (rfold (enqueue_playtime_entry db) entries tx)
                              (\<lambda>tx'. Inr (length entries, tx')))"

fun min_list_option :: "int list \<Rightarrow> int option" where
  "min_list_option [] = None"
| "min_list_option (x # xs) = Some (fold min xs x)"

definition ready_playtime_accounts ::
  "('t, 'i, playtime_record) structsy \<Rightarrow> string \<Rightarrow> int \<Rightarrow> 't \<Rightarrow> string list" where
  "ready_playtime_accounts db owner_scope now t =
     bts_of_list (map (\<lambda>(_, r). pr_owner_steam_id64 r)
       (st_fetch db (\<lambda>r. pr_owner_scope r = owner_scope \<and> pr_next_attempt_at r \<le> now) t))"

definition next_playtime_attempt_at ::
  "('t, 'i, playtime_record) structsy \<Rightarrow> string \<Rightarrow> 't \<Rightarrow> int option" where
  "next_playtime_attempt_at db owner_scope t =
     min_list_option (map (\<lambda>(_, r). pr_next_attempt_at r)
       (st_fetch db (\<lambda>r. pr_owner_scope r = owner_scope) t))"

definition pending_playtime ::
  "('t, 'i, playtime_record) structsy \<Rightarrow> string \<Rightarrow> string \<Rightarrow> int \<Rightarrow> 't \<Rightarrow> playtime_entry queued list" where
  "pending_playtime db owner_scope owner_steam_id64 now t =
     map snd (take PLAYTIME_BATCH_LIMIT (sort_key fst
       (map (\<lambda>(i, r). (pr_app_id r, queued_new db i (pr_revision r) (playtime_value r)))
         (st_fetch db (\<lambda>r. pr_owner_scope r = owner_scope
                         \<and> pr_owner_steam_id64 r = owner_steam_id64
                         \<and> pr_next_attempt_at r \<le> now) t))))"

definition playtime_len :: "('t, 'i, playtime_record) structsy \<Rightarrow> 't \<Rightarrow> sync_journal_error + nat" where
  "playtime_len db t = rbind (storage (st_scan db t)) (\<lambda>rows. Inr (length rows))"

definition playtime_empty :: "('t, 'i, playtime_record) structsy \<Rightarrow> 't \<Rightarrow> sync_journal_error + bool" where
  "playtime_empty db t = rbind (playtime_len db t) (\<lambda>n. Inr (n = 0))"

section \<open>Achievement schemas\<close>

definition enqueue_schema ::
  "('t, 'i, schema_record) structsy \<Rightarrow> achievement_schema \<Rightarrow> int \<Rightarrow> 't
     \<Rightarrow> (sync_journal_error + unit) \<times> 't" where
  "enqueue_schema db schema now =
     journal_write db (\<lambda>tx.
       let existing = first_row (st_fetch db (\<lambda>r. cr_owner_scope r = as_owner_scope schema
                                     \<and> cr_app_id r = as_app_id schema
                                     \<and> cr_language r = as_language schema) tx);
           fresh = schema_record_new schema now
       in case existing of
            Some (i, stored) \<Rightarrow>
              rbind (storage (st_update db tx i
                       (fresh\<lparr>cr_revision := cr_revision stored + 1,
                              cr_created_at := cr_created_at stored\<rparr>)))
                (\<lambda>tx'. Inr ((), tx'))
          | None \<Rightarrow> rbind (storage (st_insert db tx fresh)) (\<lambda>(_, tx'). Inr ((), tx')))"

definition attribute_schema_row ::
  "('t, 'i, schema_record) structsy \<Rightarrow> string \<Rightarrow> 'i \<times> schema_record \<Rightarrow> 't \<Rightarrow> sync_journal_error + 't" where
  "attribute_schema_row db owner_scope = (\<lambda>(i, r) tx.
     storage (st_update db tx i (r\<lparr>cr_owner_scope := owner_scope, cr_revision := cr_revision r + 1\<rparr>)))"

definition attribute_pending_schemas ::
  "('t, 'i, schema_record) structsy \<Rightarrow> string \<Rightarrow> 't \<Rightarrow> (sync_journal_error + unit) \<times> 't" where
  "attribute_pending_schemas db owner_scope t =
     (if owner_scope = [] then (Inr (), t)
      else journal_write db (\<lambda>tx.
        rbind (rfold (attribute_schema_row db owner_scope)
                 (st_fetch db (\<lambda>r. cr_owner_scope r = []) tx) tx) (\<lambda>tx'. Inr ((), tx'))) t)"

definition pending_schemas ::
  "('t, 'i, schema_record) structsy \<Rightarrow> int \<Rightarrow> string \<Rightarrow> 't \<Rightarrow> achievement_schema queued list" where
  "pending_schemas db now owner_scope t =
     map snd (take SCHEMA_BATCH_LIMIT (sort_key fst
       (map (\<lambda>(i, r). ((cr_created_at r, cr_app_id r), queued_new db i (cr_revision r) (schema_value r)))
         (st_fetch db (\<lambda>r. cr_owner_scope r = owner_scope \<and> cr_next_attempt_at r \<le> now) t))))"

definition next_schema_attempt_at ::
  "('t, 'i, schema_record) structsy \<Rightarrow> string \<Rightarrow> 't \<Rightarrow> int option" where
  "next_schema_attempt_at db owner_scope t =
     min_list_option (map (\<lambda>(_, r). cr_next_attempt_at r)
       (st_fetch db (\<lambda>r. cr_owner_scope r = owner_scope) t))"

section \<open>Stats commits and snapshots\<close>

definition stats_identified :: "string \<Rightarrow> string \<Rightarrow> u32 \<Rightarrow> stats_record \<Rightarrow> bool" where
  "stats_identified owner_scope owner_steam_id64 app_id r \<longleftrightarrow>
     sr_owner_scope r = owner_scope \<and> sr_owner_steam_id64 r = owner_steam_id64 \<and> sr_app_id r = app_id"

definition stats_owned_by :: "string \<Rightarrow> string \<Rightarrow> stats_record \<Rightarrow> bool" where
  "stats_owned_by owner_scope owner_steam_id64 r \<longleftrightarrow>
     sr_owner_scope r = owner_scope \<and> sr_owner_steam_id64 r = owner_steam_id64"

definition stats_for ::
  "('t, 'i, stats_record) structsy \<Rightarrow> 't \<Rightarrow> string \<Rightarrow> string \<Rightarrow> u32 \<Rightarrow> ('i \<times> stats_record) option" where
  "stats_for db tx owner_scope owner_steam_id64 app_id =
     first_row (st_fetch db (stats_identified owner_scope owner_steam_id64 app_id) tx)"

definition enqueue_stats_commit ::
  "('t, 'i, stats_record) structsy \<Rightarrow> stats_commit \<Rightarrow> 't \<Rightarrow> (sync_journal_error + unit) \<times> 't" where
  "enqueue_stats_commit db c =
     journal_write db (\<lambda>tx.
       let fresh = stats_record_new c
       in case stats_for db tx (sc_owner_scope c) (sc_owner_steam_id64 c) (sc_app_id c) of
            Some (i, stored) \<Rightarrow>
              rbind (storage (st_update db tx i (fresh\<lparr>sr_revision := sr_revision stored + 1\<rparr>)))
                (\<lambda>tx'. Inr ((), tx'))
          | None \<Rightarrow> rbind (storage (st_insert db tx fresh)) (\<lambda>(_, tx'). Inr ((), tx')))"

definition pending_stats_commit ::
  "('t, 'i, stats_record) structsy \<Rightarrow> string \<Rightarrow> string \<Rightarrow> u32 \<Rightarrow> 't \<Rightarrow> stats_commit option" where
  "pending_stats_commit db owner_scope owner_steam_id64 app_id t =
     map_option (\<lambda>(_, r). stats_commit_of r)
       (opt_filter (\<lambda>(_, r). \<not> has_snapshot r) (stats_for db t owner_scope owner_steam_id64 app_id))"

definition stats_sync_pending ::
  "('t, 'i, stats_record) structsy \<Rightarrow> string \<Rightarrow> string \<Rightarrow> u32 \<Rightarrow> 't \<Rightarrow> bool" where
  "stats_sync_pending db owner_scope owner_steam_id64 app_id t \<longleftrightarrow>
     stats_for db t owner_scope owner_steam_id64 app_id \<noteq> None"

definition complete_stats_snapshot ::
  "('t, 'i, stats_record) structsy \<Rightarrow> steam_app_snapshot \<Rightarrow> 't \<Rightarrow> (sync_journal_error + bool) \<times> 't" where
  "complete_stats_snapshot db s =
     journal_write db (\<lambda>tx.
       case stats_for db tx (ss_owner_scope s) (ss_owner_steam_id64 s) (ss_app_id s) of
         None \<Rightarrow> Inr (False, tx)
       | Some (i, r) \<Rightarrow>
           if has_snapshot r \<or> sr_commit_id r \<noteq> ss_commit_id s then Inr (False, tx)
           else rbind (storage (st_update db tx i (stats_complete r s))) (\<lambda>tx'. Inr (True, tx')))"

definition pending_stats_snapshots ::
  "('t, 'i, stats_record) structsy \<Rightarrow> string \<Rightarrow> string \<Rightarrow> int \<Rightarrow> 't \<Rightarrow> steam_app_snapshot queued list" where
  "pending_stats_snapshots db owner_scope owner_steam_id64 now t =
     map snd (take STATS_BATCH_LIMIT (sort_key fst
       (List.map_filter (\<lambda>(i, r).
           opt_bind (stats_snapshot r) (\<lambda>snapshot.
             Some ((sr_created_at r, sr_app_id r), queued_new db i (sr_revision r) snapshot)))
         (st_fetch db (\<lambda>r. stats_owned_by owner_scope owner_steam_id64 r
                         \<and> sr_next_attempt_at r \<le> now) t))))"

definition next_stats_snapshot_attempt_at ::
  "('t, 'i, stats_record) structsy \<Rightarrow> string \<Rightarrow> string \<Rightarrow> 't \<Rightarrow> int option" where
  "next_stats_snapshot_attempt_at db owner_scope owner_steam_id64 t =
     min_list_option (map (\<lambda>(_, r). sr_next_attempt_at r)
       (filter (\<lambda>(_, r). has_snapshot r)
         (st_fetch db (stats_owned_by owner_scope owner_steam_id64) t)))"

definition stats_awaiting_snapshot ::
  "('t, 'i, stats_record) structsy \<Rightarrow> string \<Rightarrow> string \<Rightarrow> 't \<Rightarrow> u32 list" where
  "stats_awaiting_snapshot db owner_scope owner_steam_id64 t =
     map (\<lambda>(_, r). sr_app_id r)
       (filter (\<lambda>(_, r). \<not> has_snapshot r)
         (st_fetch db (stats_owned_by owner_scope owner_steam_id64) t))"

definition reopen_stats_commit ::
  "('t, 'i, stats_record) structsy \<Rightarrow> steam_app_snapshot queued \<Rightarrow> u32 option \<Rightarrow> int \<Rightarrow> 't
     \<Rightarrow> (sync_journal_error + bool) \<times> 't" where
  "reopen_stats_commit db item base_crc_stats now =
     journal_write db (\<lambda>tx.
       rbind (queued_reference db item) (\<lambda>i.
       rbind (storage (st_read db tx i)) (\<lambda>row.
         case row of
           None \<Rightarrow> Inr (False, tx)
         | Some stored \<Rightarrow>
             if sr_revision stored \<noteq> q_revision item then Inr (False, tx)
             else rbind (storage (st_update db tx i (stats_reopen stored base_crc_stats now)))
                    (\<lambda>tx'. Inr (True, tx')))))"

section \<open>Conflict resolutions\<close>

definition delete_rows ::
  "('t, 'i, 'r) structsy \<Rightarrow> 'i list \<Rightarrow> 't \<Rightarrow> sync_journal_error + 't" where
  "delete_rows db = rfold (\<lambda>i tx. storage (st_delete db tx i))"

definition conflict_for_app :: "string \<Rightarrow> u32 \<Rightarrow> conflict_record \<Rightarrow> bool" where
  "conflict_for_app owner_scope app_id r \<longleftrightarrow> fr_owner_scope r = owner_scope \<and> fr_app_id r = app_id"

definition conflict_identified :: "string \<Rightarrow> string \<Rightarrow> conflict_record \<Rightarrow> bool" where
  "conflict_identified owner_scope event_id r \<longleftrightarrow>
     fr_owner_scope r = owner_scope \<and> fr_event_id r = event_id"

definition enqueue_conflict ::
  "('t, 'i, conflict_record) structsy \<Rightarrow> conflict_resolution_event \<Rightarrow> int \<Rightarrow> 't
     \<Rightarrow> (sync_journal_error + unit) \<times> 't" where
  "enqueue_conflict db resolution now =
     journal_write db (\<lambda>tx.
       let superseded = map fst (filter (\<lambda>(_, r). fr_event_id r \<noteq> ce_event_id resolution)
             (st_fetch db (conflict_for_app (ce_owner_scope resolution) (ce_app_id resolution)) tx))
       in rbind (delete_rows db superseded tx) (\<lambda>tx.
         let fresh = conflict_record_new resolution now
         in case first_row (st_fetch db
                   (conflict_identified (ce_owner_scope resolution) (ce_event_id resolution)) tx) of
              Some (i, stored) \<Rightarrow>
                rbind (storage (st_update db tx i
                         (fresh\<lparr>fr_revision := fr_revision stored + 1,
                                fr_created_at := fr_created_at stored\<rparr>)))
                  (\<lambda>tx'. Inr ((), tx'))
            | None \<Rightarrow> rbind (storage (st_insert db tx fresh)) (\<lambda>(_, tx'). Inr ((), tx'))))"

definition attribute_conflict_row ::
  "('t, 'i, conflict_record) structsy \<Rightarrow> string \<Rightarrow> 'i \<times> conflict_record \<Rightarrow> 't
     \<Rightarrow> sync_journal_error + 't" where
  "attribute_conflict_row db p_scope = (\<lambda>(i, r) tx.
     rbind (delete_rows db
              (map fst (st_fetch db (conflict_for_app p_scope (fr_app_id r)) tx)) tx) (\<lambda>tx.
     storage (st_update db tx i
       (r\<lparr>fr_owner_scope := p_scope, fr_revision := fr_revision r + 1\<rparr>))))"

definition attribute_pending_conflicts ::
  "('t, 'i, conflict_record) structsy \<Rightarrow> string \<Rightarrow> string \<Rightarrow> 't
     \<Rightarrow> (sync_journal_error + unit) \<times> 't" where
  "attribute_pending_conflicts db c_scope p_scope t =
     (if c_scope = [] \<or> p_scope = [] \<or> c_scope = p_scope
      then (Inr (), t)
      else journal_write db (\<lambda>tx.
        rbind (rfold (attribute_conflict_row db p_scope)
                 (st_fetch db (\<lambda>r. fr_owner_scope r = c_scope) tx) tx)
          (\<lambda>tx'. Inr ((), tx'))) t)"

definition pending_cloud_conflicts ::
  "('t, 'i, conflict_record) structsy \<Rightarrow> int \<Rightarrow> string \<Rightarrow> 't \<Rightarrow> conflict_resolution_event queued list" where
  "pending_cloud_conflicts db now owner_scope t =
     map snd (take CONFLICT_BATCH_LIMIT (sort_key fst
       (map (\<lambda>(i, r). ((fr_created_at r, fr_event_id r), queued_new db i (fr_revision r) (conflict_value r)))
         (filter (\<lambda>(_, r). kept_cloud r)
           (st_fetch db (\<lambda>r. fr_owner_scope r = owner_scope \<and> fr_next_attempt_at r \<le> now) t)))))"

fun max_by_key :: "('a \<Rightarrow> int) \<Rightarrow> 'a list \<Rightarrow> 'a option" where
  "max_by_key f [] = None"
| "max_by_key f (x # xs) =
     Some (fold (\<lambda>y best. if f best \<le> f y then y else best) xs x)"

definition pending_local_conflict ::
  "('t, 'i, conflict_record) structsy \<Rightarrow> string \<Rightarrow> u32 \<Rightarrow> u64 \<Rightarrow> 't
     \<Rightarrow> conflict_resolution_event queued option" where
  "pending_local_conflict db owner_scope app_id remote_change_number t =
     map_option (\<lambda>(i, r). queued_new db i (fr_revision r) (conflict_value r))
       (max_by_key (\<lambda>(_, r). fr_created_at r)
         (filter (\<lambda>(_, r). fr_remote_change_number r = remote_change_number \<and> \<not> kept_cloud r)
           (st_fetch db (conflict_for_app owner_scope app_id) t)))"

definition conflict_len :: "('t, 'i, conflict_record) structsy \<Rightarrow> 't \<Rightarrow> sync_journal_error + nat" where
  "conflict_len db t = rbind (storage (st_scan db t)) (\<lambda>rows. Inr (length rows))"

definition stats_len :: "('t, 'i, stats_record) structsy \<Rightarrow> 't \<Rightarrow> sync_journal_error + nat" where
  "stats_len db t = rbind (storage (st_scan db t)) (\<lambda>rows. Inr (length rows))"

section \<open>Device identity and backend principal\<close>

definition load_device_descriptor ::
  "('t, 'i, device_record) structsy \<Rightarrow> 't \<Rightarrow> sync_journal_error + device_descriptor option" where
  "load_device_descriptor db t =
     rbind (storage (st_scan db t)) (\<lambda>rows. Inr (map_option (\<lambda>(_, r). device_value r) (first_row rows)))"

definition store_device_descriptor ::
  "('t, 'i, device_record) structsy \<Rightarrow> device_descriptor \<Rightarrow> int \<Rightarrow> 't
     \<Rightarrow> (sync_journal_error + bool) \<times> 't" where
  "store_device_descriptor db d now t =
     (case storage (st_scan db t) of
        Inl e \<Rightarrow> (Inl e, t)
      | Inr rows \<Rightarrow>
          (let existing = first_row rows in
           if is_some_and existing (\<lambda>(_, r). device_value r = d) then (Inr False, t)
           else
             let fresh = \<lparr>dr_client_id = dd_client_id d, dr_machine_name = dd_machine_name d,
                          dr_os_type = dd_os_type d, dr_device_type = dd_device_type d,
                          dr_observed_at = now\<rparr>
             in journal_write db (\<lambda>tx.
                  case existing of
                    Some (i, _) \<Rightarrow> rbind (storage (st_update db tx i fresh)) (\<lambda>tx'. Inr (True, tx'))
                  | None \<Rightarrow> rbind (storage (st_insert db tx fresh)) (\<lambda>(_, tx'). Inr (True, tx'))) t))"

definition load_backend_principal_scope ::
  "('t, 'i, backend_principal_record) structsy \<Rightarrow> string \<Rightarrow> 't \<Rightarrow> string option" where
  "load_backend_principal_scope db fingerprint t =
     (if fingerprint = [] then None
      else map_option (\<lambda>(_, r). br_principal_scope r)
             (first_row (st_fetch db (\<lambda>r. br_credential_fingerprint r = fingerprint) t)))"

definition store_backend_principal_scope ::
  "('t, 'i, backend_principal_record) structsy \<Rightarrow> string \<Rightarrow> string \<Rightarrow> int \<Rightarrow> 't
     \<Rightarrow> (sync_journal_error + unit) \<times> 't" where
  "store_backend_principal_scope db fingerprint scope now t =
     (if fingerprint = [] \<or> scope = [] then (Inr (), t)
      else journal_write db (\<lambda>tx.
        let fresh = \<lparr>br_credential_fingerprint = fingerprint, br_principal_scope = scope,
                     br_observed_at = now\<rparr>
        in case first_row (st_fetch db (\<lambda>r. br_credential_fingerprint r = fingerprint) tx) of
             Some (i, _) \<Rightarrow> rbind (storage (st_update db tx i fresh)) (\<lambda>tx'. Inr ((), tx'))
           | None \<Rightarrow> rbind (storage (st_insert db tx fresh)) (\<lambda>(_, tx'). Inr ((), tx'))) t)"

section \<open>The reference engine\<close>

text \<open>A table as a list of slots: an identifier is the position of its slot, and a deleted row leaves
  an empty slot behind.\<close>

definition slot_rows :: "'r option list \<Rightarrow> (nat \<times> 'r) list" where
  "slot_rows t = List.map_filter (\<lambda>(i, x). map_option (Pair i) x) (List.enumerate 0 t)"

definition slot_lookup :: "'r option list \<Rightarrow> nat \<Rightarrow> 'r option" where
  "slot_lookup t i = (if i < length t then t ! i else None)"

definition slot_text :: "nat \<Rightarrow> string" where
  "slot_text i = replicate i CHR ''1''"

definition slot_db :: "('r option list, nat, 'r) structsy" where
  "slot_db =
     \<lparr>st_begin = Inr, st_commit = Inr,
      st_read = (\<lambda>t i. Inr (slot_lookup t i)),
      st_insert = (\<lambda>t r. Inr (length t, t @ [Some r])),
      st_update = (\<lambda>t i r. if slot_lookup t i = None then Inl ''missing'' else Inr (t[i := Some r])),
      st_delete = (\<lambda>t i. Inr (t[i := None])),
      st_fetch = (\<lambda>P t. filter (\<lambda>(_, r). P r) (slot_rows t)),
      st_scan = (\<lambda>t. Inr (slot_rows t)),
      st_ref_text = slot_text,
      st_parse_ref = (\<lambda>s. Some (length s))\<rparr>"

end
