(* ===== verification/Journal_Contract.thy ===== *)
theory Journal_Contract
  imports Sync_Journal
begin

text \<open>
  What the durable outbox of Sync_Journal promises.  The locale \<open>structsy_engine\<close> is the interface
  to the storage engine: a fetch returns exactly the rows that satisfy the filter, in any order;
  an insert mints an identifier that no row has; a successful update, delete or read acts on that row
  alone; an identifier survives \<open>to_string\<close> and \<open>parse\<close>.  The locale \<open>outbox\<close> adds what the
  \<open>journaled!\<close> macro needs of a record type and is interpreted on the four record types of the
  journal.  The abstract contract of a table is a finite map from the identity of a record to the record
  (\<open>represents\<close>), and the enqueue operations are proved to refine updates of that map.
\<close>

section \<open>Contracts\<close>

definition unique_key :: "('r \<Rightarrow> 'k) \<Rightarrow> ('i \<rightharpoonup> 'r) \<Rightarrow> bool" where
  "unique_key key m \<longleftrightarrow>
     (\<forall>i j r s. m i = Some r \<longrightarrow> m j = Some s \<longrightarrow> key r = key s \<longrightarrow> i = j)"

definition represents :: "('r \<Rightarrow> 'k) \<Rightarrow> ('i \<rightharpoonup> 'r) \<Rightarrow> ('k \<rightharpoonup> 'r) \<Rightarrow> bool" where
  "represents key m f \<longleftrightarrow>
     unique_key key m \<and> (\<forall>k r. f k = Some r \<longleftrightarrow> (\<exists>i. m i = Some r \<and> key r = k))"

definition playtime_key :: "playtime_record \<Rightarrow> string \<times> string \<times> u32" where
  "playtime_key r = (pr_owner_scope r, pr_owner_steam_id64 r, pr_app_id r)"

definition entry_key :: "playtime_entry \<Rightarrow> string \<times> string \<times> u32" where
  "entry_key e = (pe_owner_scope e, pe_owner_steam_id64 e, pe_app_id e)"

definition schema_key :: "schema_record \<Rightarrow> string \<times> u32 \<times> string" where
  "schema_key r = (cr_owner_scope r, cr_app_id r, cr_language r)"

definition stats_key :: "stats_record \<Rightarrow> string \<times> string \<times> u32" where
  "stats_key r = (sr_owner_scope r, sr_owner_steam_id64 r, sr_app_id r)"

definition conflict_key :: "conflict_record \<Rightarrow> string \<times> u32" where
  "conflict_key r = (fr_owner_scope r, fr_app_id r)"

definition conflict_event_key :: "conflict_record \<Rightarrow> string \<times> string" where
  "conflict_event_key r = (fr_owner_scope r, fr_event_id r)"

text \<open>The abstract effect of one playtime observation.\<close>

definition observe_playtime ::
  "playtime_entry \<Rightarrow> (string \<times> string \<times> u32 \<rightharpoonup> playtime_record)
     \<Rightarrow> (string \<times> string \<times> u32 \<rightharpoonup> playtime_record)" where
  "observe_playtime e f =
     f(entry_key e \<mapsto> (case f (entry_key e) of
                           None \<Rightarrow> playtime_record_new e
                         | Some r \<Rightarrow> snd (playtime_merge r e)))"

text \<open>The items that name a row at the revision it has, and the tables that a settlement and a
  postponement leave behind.\<close>

definition names :: "('t, 'i, 'r) structsy \<Rightarrow> 'r journaled \<Rightarrow> 'v queued \<Rightarrow> 'i \<Rightarrow> 'r \<Rightarrow> bool" where
  "names db jn item i r \<longleftrightarrow>
     st_parse_ref db (q_id item) = Some i \<and> jn_revision jn r = q_revision item"

definition settled ::
  "('t, 'i, 'r) structsy \<Rightarrow> 'r journaled \<Rightarrow> 'v queued list \<Rightarrow> ('i \<rightharpoonup> 'r) \<Rightarrow> ('i \<rightharpoonup> 'r)" where
  "settled db jn items m =
     (\<lambda>i. case m i of
        None \<Rightarrow> None
      | Some r \<Rightarrow> if list_ex (\<lambda>item. names db jn item i r) items then None else Some r)"

definition rescheduled :: "'r journaled \<Rightarrow> int \<Rightarrow> 'r \<Rightarrow> 'r" where
  "rescheduled jn now r =
     jn_schedule jn (i64_saturating_add now (retry_delay (jn_attempts jn r)))
       (i64_saturating_add (jn_attempts jn r) 1) r"

definition postponed ::
  "('t, 'i, 'r) structsy \<Rightarrow> 'r journaled \<Rightarrow> int \<Rightarrow> 'v queued list \<Rightarrow> ('i \<rightharpoonup> 'r) \<Rightarrow> ('i \<rightharpoonup> 'r)" where
  "postponed db jn now items m =
     (\<lambda>i. case m i of
        None \<Rightarrow> None
      | Some r \<Rightarrow> Some (if list_ex (\<lambda>item. names db jn item i r) items
                         then rescheduled jn now r else r))"

text \<open>A conflict that moves to another owner scope.\<close>

definition attributed :: "string \<Rightarrow> conflict_record \<Rightarrow> conflict_record" where
  "attributed p_scope r = r\<lparr>fr_owner_scope := p_scope, fr_revision := fr_revision r + 1\<rparr>"

locale structsy_engine =
  fixes db :: "('t, 'i, 'r) structsy"
  assumes fetch_distinct: "distinct (map fst (st_fetch db P t))"
    and fetch_set: "set (st_fetch db P t) = {(i, r). table db t i = Some r \<and> P r}"
    and scan_set: "st_scan db t = Inr rows \<Longrightarrow>
          distinct (map fst rows) \<and> set rows = {(i, r). table db t i = Some r}"
    and begin_table: "st_begin db t = Inr tx \<Longrightarrow> table db tx = table db t"
    and commit_table: "st_commit db tx = Inr t' \<Longrightarrow> table db t' = table db tx"
    and read_table: "st_read db t i = Inr row \<Longrightarrow> row = table db t i"
    and insert_table: "st_insert db t r = Inr (i, t') \<Longrightarrow>
          table db t i = None \<and> table db t' = (table db t)(i \<mapsto> r)"
    and update_table: "st_update db t i r = Inr t' \<Longrightarrow> table db t' = (table db t)(i \<mapsto> r)"
    and delete_table: "st_delete db t i = Inr t' \<Longrightarrow> table db t' = (table db t)(i := None)"
    and parse_text: "st_parse_ref db (st_ref_text db i) = Some i"

text \<open>An engine whose operations do not fail on the rows that exist.\<close>

locale reliable_engine = structsy_engine db for db :: "('t, 'i, 'r) structsy" +
  assumes begin_ok: "\<exists>tx. st_begin db t = Inr tx"
    and commit_ok: "\<exists>t'. st_commit db tx = Inr t'"
    and read_ok: "\<exists>row. st_read db t i = Inr row"
    and insert_ok: "\<exists>i t'. st_insert db t r = Inr (i, t')"
    and update_ok: "table db t i \<noteq> None \<Longrightarrow> \<exists>t'. st_update db t i r = Inr t'"
    and delete_ok: "\<exists>t'. st_delete db t i = Inr t'"

locale outbox =
  fixes jn :: "'r journaled" and next_at :: "'r \<Rightarrow> int" and key :: "'r \<Rightarrow> 'k"
  assumes schedule_revision: "jn_revision jn (jn_schedule jn at n r) = jn_revision jn r"
    and schedule_attempts: "jn_attempts jn (jn_schedule jn at n r) = n"
    and schedule_next: "next_at (jn_schedule jn at n r) = at"
    and schedule_key: "key (jn_schedule jn at n r) = key r"

section \<open>Lemmas\<close>

lemma storage_Inr [simp, result_simps]: "storage m = Inr x \<longleftrightarrow> m = Inr x"
  by (cases m) (simp_all add: storage_def)

lemma storage_of_Inr [simp]: "storage (Inr x) = Inr x"
  by (simp add: storage_def)

lemma first_row_Some: "first_row xs = Some x \<Longrightarrow> x \<in> set xs"
  by (cases xs) simp_all

lemma first_row_None [simp]: "first_row xs = None \<longleftrightarrow> xs = []"
  by (cases xs) simp_all

lemma journal_write_error: "journal_write db action t = (Inl e, t') \<Longrightarrow> t' = t"
  by (auto simp: journal_write_def split: sum.splits prod.splits)

lemma unique_keyD: "unique_key key m \<Longrightarrow> m i = Some r \<Longrightarrow> m j = Some s \<Longrightarrow> key r = key s \<Longrightarrow> i = j"
  by (auto simp: unique_key_def)

lemma unique_key_update:
  assumes "unique_key key m" "m i = Some r" "key r' = key r"
  shows "unique_key key (m(i \<mapsto> r'))"
  using assms unfolding unique_key_def by (auto split: if_splits)

lemma unique_key_fresh:
  assumes "unique_key key m" "\<And>j s. m j = Some s \<Longrightarrow> key s = key r \<Longrightarrow> j = i"
  shows "unique_key key (m(i \<mapsto> r))"
  using assms unfolding unique_key_def by (auto split: if_splits)

lemma unique_key_sub: "unique_key key m \<Longrightarrow> m' \<subseteq>\<^sub>m m \<Longrightarrow> unique_key key m'"
  unfolding unique_key_def map_le_def by (metis domI)

lemma representsD: "represents key m f \<Longrightarrow> m i = Some r \<Longrightarrow> f (key r) = Some r"
  by (auto simp: represents_def)

lemma representsE: "represents key m f \<Longrightarrow> f k = Some r \<Longrightarrow> \<exists>i. m i = Some r \<and> key r = k"
  by (auto simp: represents_def)

lemma represents_update:
  assumes "represents key m f" "m i = Some r" "key r' = key r"
  shows "represents key (m(i \<mapsto> r')) (f(key r \<mapsto> r'))"
proof -
  have u: "unique_key key m" and f: "\<And>k s. f k = Some s \<longleftrightarrow> (\<exists>i. m i = Some s \<and> key s = k)"
    using assms(1) by (auto simp: represents_def)
  have "(f(key r \<mapsto> r')) k = Some s \<longleftrightarrow> (\<exists>j. (m(i \<mapsto> r')) j = Some s \<and> key s = k)" for k s
  proof (cases "k = key r")
    case True
    then show ?thesis using assms(2,3) unique_keyD [OF u] by (auto split: if_splits)
  next
    case False
    then show ?thesis using assms(2,3) by (simp add: f) (metis option.inject)
  qed
  with unique_key_update [OF u assms(2,3)] show ?thesis by (simp add: represents_def)
qed

lemma represents_insert:
  assumes "represents key m f" "m i = None" "\<And>j s. m j = Some s \<Longrightarrow> key s \<noteq> key r"
  shows "represents key (m(i \<mapsto> r)) (f(key r \<mapsto> r))"
proof -
  have u: "unique_key key m" and f: "\<And>k s. f k = Some s \<longleftrightarrow> (\<exists>i. m i = Some s \<and> key s = k)"
    using assms(1) by (auto simp: represents_def)
  have "(f(key r \<mapsto> r)) k = Some s \<longleftrightarrow> (\<exists>j. (m(i \<mapsto> r)) j = Some s \<and> key s = k)" for k s
    using assms(2,3) by (simp add: f) (metis option.distinct(1) option.inject)
  moreover have "unique_key key (m(i \<mapsto> r))"
    using assms(3) by (intro unique_key_fresh [OF u]) blast
  ultimately show ?thesis by (simp add: represents_def)
qed

lemma represents_delete:
  assumes "represents key m f" "m i = Some r"
  shows "represents key (m(i := None)) (f(key r := None))"
proof -
  have u: "unique_key key m" and f: "\<And>k s. f k = Some s \<longleftrightarrow> (\<exists>i. m i = Some s \<and> key s = k)"
    using assms(1) by (auto simp: represents_def)
  have "(f(key r := None)) k = Some s \<longleftrightarrow> (\<exists>j. (m(i := None)) j = Some s \<and> key s = k)" for k s
    using assms(2) unique_keyD [OF u assms(2), of _ s] by (simp add: f) (metis option.inject)
  moreover have "unique_key key (m(i := None))"
    by (rule unique_key_sub [OF u]) (simp add: map_le_def)
  ultimately show ?thesis by (simp add: represents_def)
qed

subsection \<open>Engine\<close>

context structsy_engine
begin

lemma first_fetch_Some: "first_row (st_fetch db P t) = Some (i, r) \<Longrightarrow> table db t i = Some r \<and> P r"
  using fetch_set [of P t] by (auto dest: first_row_Some)

lemma first_fetch_None: "st_fetch db P t = [] \<Longrightarrow> table db t i = Some r \<Longrightarrow> \<not> P r"
  using fetch_set [of P t] by auto

lemma write_ok:
  assumes "journal_write db action t = (Inr out, t')"
  obtains tx tx' where "table db tx = table db t" "action tx = Inr (out, tx')"
    "table db t' = table db tx'"
  using assms
  by (auto simp: journal_write_def result_simps split: sum.splits prod.splits dest!: begin_table commit_table)

text \<open>An item that settles or postpones reads the row that it names.\<close>

lemma read_named:
  assumes "rbind (queued_reference db item) (\<lambda>i. rbind (storage (st_read db tx i)) (h i)) = Inr y"
  obtains i where "st_parse_ref db (q_id item) = Some i" "h i (table db tx i) = Inr y"
proof -
  obtain i row where "st_parse_ref db (q_id item) = Some i" "st_read db tx i = Inr row" "h i row = Inr y"
    using assms by (auto simp: queued_reference_def result_simps split: option.splits)
  with read_table [of tx i row] that show thesis by simp
qed

lemma settle_item_table:
  assumes "settle_item db jn item tx = Inr tx'"
  shows "table db tx' = settled db jn [item] (table db tx)"
  using assms unfolding settle_item_def
  by (rule read_named)
     (auto simp: settled_def names_def fun_eq_iff split: option.splits if_splits dest!: delete_table)

lemma settle_items_table:
  "rfold (settle_item db jn) items tx = Inr tx' \<Longrightarrow> table db tx' = settled db jn items (table db tx)"
proof (induction items arbitrary: tx)
  case Nil
  then show ?case by (auto simp: settled_def fun_eq_iff split: option.splits)
next
  case (Cons item items)
  then obtain tx1 where 1: "settle_item db jn item tx = Inr tx1"
    "rfold (settle_item db jn) items tx1 = Inr tx'"
    by (auto simp: result_simps)
  show ?case
    using settle_item_table [OF 1(1)] Cons.IH [OF 1(2)]
    by (auto simp: settled_def fun_eq_iff split: option.splits)
qed

lemma settle_table:
  assumes "settle db jn items t = (Inr (), t')"
  shows "table db t' = settled db jn items (table db t)"
  using assms unfolding settle_def
  by (rule write_ok) (auto simp: result_simps dest!: settle_items_table)

lemma postpone_item_table:
  assumes "postpone_item db jn now item tx = Inr tx'"
  shows "table db tx' = postponed db jn now [item] (table db tx)"
  using assms unfolding postpone_item_def
  by (rule read_named)
     (auto simp: postponed_def names_def rescheduled_def fun_eq_iff
        split: option.splits if_splits dest!: update_table)

lemma postpone_items_table:
  "rfold (postpone_item db jn now) items tx = Inr tx' \<Longrightarrow>
   distinct (map (\<lambda>item. st_parse_ref db (q_id item)) items) \<Longrightarrow>
   table db tx' = postponed db jn now items (table db tx)"
proof (induction items arbitrary: tx)
  case Nil
  then show ?case by (auto simp: postponed_def fun_eq_iff split: option.splits)
next
  case (Cons item items)
  then obtain tx1 where 1: "postpone_item db jn now item tx = Inr tx1"
    "rfold (postpone_item db jn now) items tx1 = Inr tx'"
    by (auto simp: result_simps)
  have "\<not> list_ex (\<lambda>x. names db jn x i r) items" if "names db jn item i r'" for i r r'
    using that Cons.prems(2) by (auto simp: names_def list_ex_iff image_iff)
  then show ?case
    using postpone_item_table [OF 1(1)] Cons.IH [OF 1(2)] Cons.prems(2)
    by (auto simp: postponed_def fun_eq_iff split: option.splits)
qed

lemma postpone_table:
  assumes "postpone db jn items now t = (Inr (), t')"
    and "distinct (map (\<lambda>item. st_parse_ref db (q_id item)) items)"
  shows "table db t' = postponed db jn now items (table db t)"
  using assms(1) unfolding postpone_def
  by (rule write_ok) (auto simp: result_simps dest!: postpone_items_table [OF _ assms(2)])

text \<open>The shape that the enqueue operations share: update the row with the key, or insert one.\<close>

lemma upsert_represents:
  assumes f: "represents key (table db tx) f"
    and P: "\<And>r. P r \<longleftrightarrow> key r = k" and new: "key new = k" and g: "\<And>r. key r = k \<Longrightarrow> key (g r) = k"
    and act: "(case first_row (st_fetch db P tx) of
                Some (i, stored) \<Rightarrow> rbind (storage (st_update db tx i (g stored))) (\<lambda>tx'. Inr (out, tx'))
              | None \<Rightarrow> rbind (storage (st_insert db tx new)) (\<lambda>(_, tx'). Inr (out, tx')))
              = Inr (out', tx')"
  shows "represents key (table db tx') (f(k \<mapsto> (case f k of None \<Rightarrow> new | Some r \<Rightarrow> g r)))"
proof (cases "first_row (st_fetch db P tx)")
  case None
  then have none: "\<And>j s. table db tx j = Some s \<Longrightarrow> key s \<noteq> key new"
    using first_fetch_None [of P tx] P new by auto
  then have "f k = None"
    using f new by (cases "f k") (auto simp: represents_def)
  moreover obtain i where "table db tx i = None" "table db tx' = (table db tx)(i \<mapsto> new)"
    using act None by (auto simp: result_simps split: prod.splits dest!: insert_table)
  ultimately show ?thesis
    using represents_insert [OF f _ none] new by auto
next
  case (Some x)
  obtain i r where x: "x = (i, r)" by fastforce
  with Some have r: "table db tx i = Some r" "key r = k"
    using first_fetch_Some [of P tx i r] P by auto
  have "table db tx' = (table db tx)(i \<mapsto> g r)"
    using act Some x by (auto simp: result_simps dest!: update_table)
  moreover have "f k = Some r" using representsD [OF f r(1)] r(2) by simp
  ultimately show ?thesis
    using represents_update [OF f r(1), of "g r"] g r(2) by simp
qed

lemma upsert_write:
  assumes f: "represents key (table db t) f"
    and ok: "journal_write db (\<lambda>tx. case first_row (st_fetch db P tx) of
                Some (i, stored) \<Rightarrow> rbind (storage (st_update db tx i (g stored))) (\<lambda>tx'. Inr (out, tx'))
              | None \<Rightarrow> rbind (storage (st_insert db tx new)) (\<lambda>(_, tx'). Inr (out, tx'))) t
              = (Inr out', t')"
    and P: "\<And>r. P r \<longleftrightarrow> key r = k" and new: "key new = k" and g: "\<And>r. key r = k \<Longrightarrow> key (g r) = k"
  shows "represents key (table db t') (f(k \<mapsto> (case f k of None \<Rightarrow> new | Some r \<Rightarrow> g r)))"
proof (rule write_ok [OF ok])
  fix tx tx'
  assume tx: "table db tx = table db t" "table db t' = table db tx'"
    and act: "(case first_row (st_fetch db P tx) of
                Some (i, stored) \<Rightarrow> rbind (storage (st_update db tx i (g stored))) (\<lambda>tx'. Inr (out, tx'))
              | None \<Rightarrow> rbind (storage (st_insert db tx new)) (\<lambda>(_, tx'). Inr (out, tx')))
              = Inr (out', tx')"
  from f tx(1) have "represents key (table db tx) f" by simp
  from upsert_represents [OF this P new g act] tx(2) show ?thesis by simp
qed

lemma reliable_write:
  assumes "reliable_engine db" "\<And>tx. table db tx = table db t \<Longrightarrow> \<exists>tx'. action tx = Inr (out, tx')"
  shows "\<exists>t'. journal_write db action t = (Inr out, t')"
proof -
  obtain tx where tx: "st_begin db t = Inr tx"
    using reliable_engine.begin_ok [OF assms(1)] by blast
  with begin_table obtain tx' where tx': "action tx = Inr (out, tx')" using assms(2) by blast
  obtain t' where "st_commit db tx' = Inr t'"
    using reliable_engine.commit_ok [OF assms(1)] by blast
  with tx tx' show ?thesis by (simp add: journal_write_def)
qed

end

subsection \<open>Playtime\<close>

lemma playtime_key_new [simp]: "playtime_key (playtime_record_new e) = entry_key e"
  by (simp add: playtime_key_def entry_key_def playtime_record_new_def)

lemma playtime_key_merge [simp]: "playtime_key (snd (playtime_merge r e)) = playtime_key r"
  by (simp add: playtime_key_def playtime_merge_fields)

lemma playtime_key_iff:
  "(pr_owner_scope r = pe_owner_scope e \<and> pr_owner_steam_id64 r = pe_owner_steam_id64 e
     \<and> pr_app_id r = pe_app_id e) \<longleftrightarrow> playtime_key r = entry_key e"
  by (auto simp: playtime_key_def entry_key_def)

lemma enqueue_playtime_entry_represents:
  assumes eng: "structsy_engine db" and f: "represents playtime_key (table db tx) f"
    and step: "enqueue_playtime_entry db e tx = Inr tx'"
  shows "represents playtime_key (table db tx') (observe_playtime e f)"
proof (cases "\<exists>i r. first_row (st_fetch db (\<lambda>r. playtime_key r = entry_key e) tx) = Some (i, r)
                  \<and> \<not> fst (playtime_merge r e)")
  case True
  then obtain i r where first: "first_row (st_fetch db (\<lambda>r. playtime_key r = entry_key e) tx) = Some (i, r)"
    and same: "\<not> fst (playtime_merge r e)" by blast
  have r: "table db tx i = Some r" "playtime_key r = entry_key e"
    using structsy_engine.first_fetch_Some [OF eng first] by auto
  have "tx' = tx"
    using step first same by (auto simp: enqueue_playtime_entry_def playtime_key_iff split: prod.splits)
  moreover have "observe_playtime e f = f"
    using representsD [OF f r(1)] r(2) playtime_merge_unchanged [OF same]
    by (auto simp: observe_playtime_def)
  ultimately show ?thesis using f by simp
next
  case False
  then have act: "(case first_row (st_fetch db (\<lambda>r. playtime_key r = entry_key e) tx) of
      Some (i, stored) \<Rightarrow> rbind (storage (st_update db tx i (snd (playtime_merge stored e)))) (\<lambda>tx'. Inr ((), tx'))
    | None \<Rightarrow> rbind (storage (st_insert db tx (playtime_record_new e))) (\<lambda>(_, tx'). Inr ((), tx')))
    = Inr ((), tx')"
    using step
    by (auto simp: enqueue_playtime_entry_def playtime_key_iff result_simps split: option.splits prod.splits)
  show ?thesis
    using structsy_engine.upsert_represents [OF eng f, of "\<lambda>r. playtime_key r = entry_key e" "entry_key e", OF _ _ _ act]
    by (simp add: observe_playtime_def cong: option.case_cong)
qed

lemma enqueue_playtime_entries_represents:
  assumes eng: "structsy_engine db"
  shows "represents playtime_key (table db tx) f \<Longrightarrow> rfold (enqueue_playtime_entry db) es tx = Inr tx'
    \<Longrightarrow> represents playtime_key (table db tx') (fold observe_playtime es f)"
proof (induction es arbitrary: tx f)
  case (Cons e es)
  then obtain tx1 where "enqueue_playtime_entry db e tx = Inr tx1"
    "rfold (enqueue_playtime_entry db) es tx1 = Inr tx'"
    by (auto simp: result_simps)
  with Cons.IH enqueue_playtime_entry_represents [OF eng Cons.prems(1)] show ?case by auto
qed simp

lemma enqueue_playtime_represents:
  assumes eng: "structsy_engine db" and f: "represents playtime_key (table db t) f"
    and ok: "enqueue_playtime db es t = (Inr n, t')"
  shows "represents playtime_key (table db t') (fold observe_playtime es f) \<and> n = length es"
proof -
  obtain tx tx' where tx: "table db tx = table db t" "table db t' = table db tx'"
    "rfold (enqueue_playtime_entry db) es tx = Inr tx'" "n = length es"
    by (rule structsy_engine.write_ok [OF eng ok [unfolded enqueue_playtime_def]])
       (auto simp: result_simps)
  then show ?thesis using enqueue_playtime_entries_represents [OF eng] f by metis
qed

lemma enqueue_playtime_entry_total:
  assumes rel: "reliable_engine db"
  shows "\<exists>tx'. enqueue_playtime_entry db e tx = Inr tx'"
proof (cases "first_row (st_fetch db (\<lambda>r. playtime_key r = entry_key e) tx)")
  case None
  then show ?thesis using reliable_engine.insert_ok [OF rel, of tx "playtime_record_new e"]
    by (auto simp: enqueue_playtime_entry_def playtime_key_iff)
next
  case (Some x)
  obtain i r where x: "x = (i, r)" by fastforce
  have "table db tx i = Some r"
    using structsy_engine.first_fetch_Some [OF reliable_engine.axioms(1) [OF rel]] Some x by blast
  then show ?thesis
    using Some x reliable_engine.update_ok [OF rel, of tx i "snd (playtime_merge r e)"]
    by (auto simp: enqueue_playtime_entry_def playtime_key_iff split: prod.splits)
qed

lemma enqueue_playtime_total:
  assumes rel: "reliable_engine db"
  shows "\<exists>t'. enqueue_playtime db es t = (Inr (length es), t')"
proof -
  have "\<exists>tx'. rfold (enqueue_playtime_entry db) es tx = Inr tx'" for tx
  proof (induction es arbitrary: tx)
    case (Cons e es)
    obtain tx1 where "enqueue_playtime_entry db e tx = Inr tx1"
      using enqueue_playtime_entry_total [OF rel] by blast
    with Cons.IH [of tx1] show ?case by auto
  qed simp
  then show ?thesis
    unfolding enqueue_playtime_def
    by (intro structsy_engine.reliable_write [OF reliable_engine.axioms(1) [OF rel] rel])
       (metis rbind_Inr)
qed

subsection \<open>Schemas, stats and principals\<close>

lemma enqueue_schema_represents:
  assumes eng: "structsy_engine db" and f: "represents schema_key (table db t) f"
    and ok: "enqueue_schema db schema now t = (Inr (), t')"
  defines "fresh \<equiv> schema_record_new schema now"
  shows "represents schema_key (table db t')
    (f(schema_key fresh \<mapsto> (case f (schema_key fresh) of
         None \<Rightarrow> fresh
       | Some r \<Rightarrow> fresh\<lparr>cr_revision := cr_revision r + 1, cr_created_at := cr_created_at r\<rparr>)))"
  unfolding fresh_def
  by (rule structsy_engine.upsert_write [OF eng f ok [unfolded enqueue_schema_def Let_def]])
     (auto simp: schema_key_def schema_record_new_def)

lemma enqueue_stats_commit_represents:
  assumes eng: "structsy_engine db" and f: "represents stats_key (table db t) f"
    and ok: "enqueue_stats_commit db c t = (Inr (), t')"
  defines "fresh \<equiv> stats_record_new c"
  shows "represents stats_key (table db t')
    (f(stats_key fresh \<mapsto> (case f (stats_key fresh) of
         None \<Rightarrow> fresh
       | Some r \<Rightarrow> fresh\<lparr>sr_revision := sr_revision r + 1\<rparr>)))"
  unfolding fresh_def
  by (rule structsy_engine.upsert_write [OF eng f ok [unfolded enqueue_stats_commit_def Let_def stats_for_def]])
     (auto simp: stats_identified_def stats_key_def stats_record_new_def)

lemma store_principal_represents:
  assumes eng: "structsy_engine db" and f: "represents br_credential_fingerprint (table db t) f"
    and ok: "store_backend_principal_scope db fingerprint scope now t = (Inr (), t')"
    and ne: "fingerprint \<noteq> []" "scope \<noteq> []"
  shows "represents br_credential_fingerprint (table db t')
    (f(fingerprint \<mapsto> \<lparr>br_credential_fingerprint = fingerprint, br_principal_scope = scope,
                          br_observed_at = now\<rparr>))"
proof -
  define fresh :: backend_principal_record where "fresh = \<lparr>br_credential_fingerprint = fingerprint, br_principal_scope = scope,
                          br_observed_at = now\<rparr>"
  have ok': "journal_write db (\<lambda>tx.
        case first_row (st_fetch db (\<lambda>r. br_credential_fingerprint r = fingerprint) tx) of
             Some (i, _) \<Rightarrow> rbind (storage (st_update db tx i fresh)) (\<lambda>tx'. Inr ((), tx'))
           | None \<Rightarrow> rbind (storage (st_insert db tx fresh)) (\<lambda>(_, tx'). Inr ((), tx'))) t = (Inr (), t')"
    unfolding fresh_def using ok ne by (simp add: store_backend_principal_scope_def Let_def)
  have "represents br_credential_fingerprint (table db t')
      (f(fingerprint \<mapsto> (case f fingerprint of None \<Rightarrow> fresh | Some r \<Rightarrow> fresh)))"
    by (rule structsy_engine.upsert_write [OF eng f ok']) (auto simp: fresh_def)
  moreover have "(case f fingerprint of None \<Rightarrow> fresh | Some r \<Rightarrow> fresh) = fresh"
    by (cases "f fingerprint") simp_all
  ultimately show ?thesis by (simp add: fresh_def)
qed

lemma complete_stats_snapshot_represents:
  assumes eng: "structsy_engine db" and f: "represents stats_key (table db t) f"
    and ok: "complete_stats_snapshot db s t = (Inr b, t')"
  defines "k \<equiv> (ss_owner_scope s, ss_owner_steam_id64 s, ss_app_id s)"
  shows "b = (case f k of None \<Rightarrow> False | Some r \<Rightarrow> \<not> has_snapshot r \<and> sr_commit_id r = ss_commit_id s)"
    and "represents stats_key (table db t')
           (if b then f(k \<mapsto> stats_complete (the (f k)) s) else f)"
proof -
  have key: "stats_identified (ss_owner_scope s) (ss_owner_steam_id64 s) (ss_app_id s) = (\<lambda>r. stats_key r = k)"
    by (auto simp: stats_identified_def stats_key_def k_def)
  obtain tx tx' where tx: "table db tx = table db t" "table db t' = table db tx'"
    and act: "(case stats_for db tx (ss_owner_scope s) (ss_owner_steam_id64 s) (ss_app_id s) of
         None \<Rightarrow> Inr (False, tx)
       | Some (i, r) \<Rightarrow>
           if has_snapshot r \<or> sr_commit_id r \<noteq> ss_commit_id s then Inr (False, tx)
           else rbind (storage (st_update db tx i (stats_complete r s))) (\<lambda>tx'. Inr (True, tx'))) = Inr (b, tx')"
    by (rule structsy_engine.write_ok [OF eng ok [unfolded complete_stats_snapshot_def]])
  have goal: "b = (case f k of None \<Rightarrow> False | Some r \<Rightarrow> \<not> has_snapshot r \<and> sr_commit_id r = ss_commit_id s)
    \<and> represents stats_key (table db t') (if b then f(k \<mapsto> stats_complete (the (f k)) s) else f)"
  proof (cases "first_row (st_fetch db (\<lambda>r. stats_key r = k) tx)")
    case None
    then have "f k = None"
      using structsy_engine.first_fetch_None [OF eng, of "\<lambda>r. stats_key r = k" tx] representsE [OF f] tx(1)
      by (cases "f k") fastforce+
    with None act f tx show ?thesis by (simp add: stats_for_def key)
  next
    case (Some x)
    obtain i r where x: "x = (i, r)" by fastforce
    have r: "table db tx i = Some r" "stats_key r = k"
      using structsy_engine.first_fetch_Some [OF eng] Some x by auto
    then have fk: "f k = Some r" using representsD [OF f] tx(1) by auto
    have keep: "stats_key (stats_complete r s) = stats_key r" by (simp add: stats_key_def stats_complete_def)
    show ?thesis
    proof (cases "has_snapshot r \<or> sr_commit_id r \<noteq> ss_commit_id s")
      case True
      with act Some x fk f tx show ?thesis by (auto simp: stats_for_def key)
    next
      case False
      with act Some x have "st_update db tx i (stats_complete r s) = Inr tx'" "b"
        by (auto simp: stats_for_def key result_simps)
      with False fk tx represents_update [OF f _ keep, of i] r structsy_engine.update_table [OF eng]
      show ?thesis by auto
    qed
  qed
  then show "b = (case f k of None \<Rightarrow> False | Some r \<Rightarrow> \<not> has_snapshot r \<and> sr_commit_id r = ss_commit_id s)"
    and "represents stats_key (table db t') (if b then f(k \<mapsto> stats_complete (the (f k)) s) else f)"
    by auto
qed

subsection \<open>Attribution and conflicts\<close>

context structsy_engine
begin

lemma upsert_row:
  assumes act: "(case first_row (st_fetch db P tx) of
                Some (i, stored) \<Rightarrow> rbind (storage (st_update db tx i (g stored))) (\<lambda>tx'. Inr (out, tx'))
              | None \<Rightarrow> rbind (storage (st_insert db tx new)) (\<lambda>(_, tx'). Inr (out, tx')))
              = Inr (out', tx')"
    and one: "\<And>i j r s. table db tx i = Some r \<Longrightarrow> P r \<Longrightarrow> table db tx j = Some s \<Longrightarrow> P s \<Longrightarrow> i = j"
  shows "\<exists>i r. table db tx' = (table db tx)(i \<mapsto> r) \<and> (r = new \<or> r \<in> range g)
    \<and> (\<forall>s. table db tx i = Some s \<longrightarrow> P s) \<and> (\<forall>j s. table db tx j = Some s \<longrightarrow> P s \<longrightarrow> j = i)"
proof (cases "first_row (st_fetch db P tx)")
  case None
  then obtain i where i: "table db tx i = None" "table db tx' = (table db tx)(i \<mapsto> new)"
    using act by (auto simp: result_simps split: prod.splits dest!: insert_table)
  show ?thesis
    by (rule exI [of _ i], rule exI [of _ new]) (use None i first_fetch_None [of P tx] in simp)
next
  case (Some x)
  obtain i st where x: "x = (i, st)" by fastforce
  have st: "table db tx i = Some st" "P st" using first_fetch_Some Some x by auto
  have "table db tx' = (table db tx)(i \<mapsto> g st)"
    using act Some x by (auto simp: result_simps dest!: update_table)
  then show ?thesis
    by (intro exI [of _ i] exI [of _ "g st"]) (use st one in simp)
qed

lemma delete_rows_table:
  "delete_rows db is tx = Inr tx' \<Longrightarrow> table db tx' = (\<lambda>i. if i \<in> set is then None else table db tx i)"
proof (induction "is" arbitrary: tx)
  case (Cons i "is")
  then obtain tx1 where tx1: "st_delete db tx i = Inr tx1" "delete_rows db is tx1 = Inr tx'"
    by (auto simp: delete_rows_def result_simps)
  from Cons.IH [OF tx1(2)] delete_table [OF tx1(1)] show ?case by (auto simp: fun_eq_iff)
qed (simp add: delete_rows_def)

lemma fetch_ids:
  "i \<in> fst ` set (filter (\<lambda>(_, r). Q r) (st_fetch db P t)) \<longleftrightarrow> (\<exists>r. table db t i = Some r \<and> P r \<and> Q r)"
  using fetch_set [of P t] by (auto simp: image_iff)

lemma fetch_ids_all: "i \<in> fst ` set (st_fetch db P t) \<longleftrightarrow> (\<exists>r. table db t i = Some r \<and> P r)"
  using fetch_set [of P t] by (auto simp: image_iff)

end

lemma attribute_schemas_rows:
  assumes eng: "structsy_engine db"
  shows "rfold (attribute_schema_row db scope) rows tx = Inr tx' \<Longrightarrow> distinct (map fst rows) \<Longrightarrow>
    table db tx' i = (case map_of rows i of
        Some r \<Rightarrow> Some (r\<lparr>cr_owner_scope := scope, cr_revision := cr_revision r + 1\<rparr>)
      | None \<Rightarrow> table db tx i)"
proof (induction rows arbitrary: tx)
  case (Cons x rows)
  obtain j r where x: "x = (j, r)" by fastforce
  with Cons.prems obtain tx1 where tx1: "rfold (attribute_schema_row db scope) rows tx1 = Inr tx'"
    "st_update db tx j (r\<lparr>cr_owner_scope := scope, cr_revision := cr_revision r + 1\<rparr>) = Inr tx1"
    by (auto simp: attribute_schema_row_def result_simps)
  have "map_of rows j = None" using Cons.prems x by (auto simp: map_of_eq_None_iff)
  then show ?case
    using Cons.IH [OF tx1(1)] Cons.prems(2) structsy_engine.update_table [OF eng tx1(2)] x
    by (auto split: option.splits)
qed simp

lemma attribute_pending_schemas_table:
  assumes eng: "structsy_engine db" and "scope \<noteq> []"
    and ok: "attribute_pending_schemas db scope t = (Inr (), t')"
  shows "table db t' i = map_option (\<lambda>r. if cr_owner_scope r = []
      then r\<lparr>cr_owner_scope := scope, cr_revision := cr_revision r + 1\<rparr> else r) (table db t i)"
proof -
  obtain tx tx' where tx: "table db tx = table db t" "table db t' = table db tx'"
    "rfold (attribute_schema_row db scope) (st_fetch db (\<lambda>r. cr_owner_scope r = []) tx) tx = Inr tx'"
    using ok assms(2) unfolding attribute_pending_schemas_def
    by (auto simp: result_simps elim!: structsy_engine.write_ok [OF eng])
  have d: "distinct (map fst (st_fetch db (\<lambda>r. cr_owner_scope r = []) tx))"
    by (rule structsy_engine.fetch_distinct [OF eng])
  have "map_of (st_fetch db (\<lambda>r. cr_owner_scope r = []) tx) i
      = opt_filter (\<lambda>r. cr_owner_scope r = []) (table db tx i)"
    using structsy_engine.fetch_set [OF eng, of "\<lambda>r. cr_owner_scope r = []" tx] d
    by (cases "table db tx i") (auto simp: opt_filter_def map_of_eq_None_iff)
  then show ?thesis
    using attribute_schemas_rows [OF eng tx(3) d, of i] tx(1,2)
    by (auto simp: opt_filter_def split: option.splits if_splits)
qed

lemma enqueue_conflict_table:
  assumes eng: "structsy_engine db"
    and app: "unique_key conflict_key (table db t)"
    and event: "unique_key conflict_event_key (table db t)"
    and ok: "enqueue_conflict db e now t = (Inr (), t')"
  shows "\<exists>i r. table db t' = (\<lambda>j. if j = i then Some r
           else opt_filter (\<lambda>s. conflict_key s \<noteq> (ce_owner_scope e, ce_app_id e)) (table db t j))
         \<and> conflict_value r = e
         \<and> (\<forall>s. table db t i = Some s \<longrightarrow> conflict_event_key s = (ce_owner_scope e, ce_event_id e)
                \<or> conflict_key s = (ce_owner_scope e, ce_app_id e))
         \<and> (\<forall>j s. table db t j = Some s \<longrightarrow> conflict_event_key s = (ce_owner_scope e, ce_event_id e) \<longrightarrow> j = i)"
proof -
  let ?sup = "\<lambda>tx. map fst (filter (\<lambda>(_, r). fr_event_id r \<noteq> ce_event_id e)
             (st_fetch db (conflict_for_app (ce_owner_scope e) (ce_app_id e)) tx))"
  let ?new = "conflict_record_new e now"
  obtain tx tx1 tx' where tx: "table db tx = table db t" "table db t' = table db tx'"
    and del: "delete_rows db (?sup tx) tx = Inr tx1"
    and act: "(case first_row (st_fetch db (conflict_identified (ce_owner_scope e) (ce_event_id e)) tx1) of
        Some (i, stored) \<Rightarrow> rbind (storage (st_update db tx1 i
            (?new\<lparr>fr_revision := fr_revision stored + 1, fr_created_at := fr_created_at stored\<rparr>)))
            (\<lambda>tx'. Inr ((), tx'))
      | None \<Rightarrow> rbind (storage (st_insert db tx1 ?new)) (\<lambda>(_, tx'). Inr ((), tx'))) = Inr ((), tx')"
    by (rule structsy_engine.write_ok [OF eng ok [unfolded enqueue_conflict_def Let_def]])
       (auto simp: rbind_eq_Inr)
  have m1: "table db tx1 j = opt_filter (\<lambda>s. conflict_key s = (ce_owner_scope e, ce_app_id e)
      \<longrightarrow> fr_event_id s = ce_event_id e) (table db t j)" for j
    using structsy_engine.delete_rows_table [OF eng del] tx(1)
      structsy_engine.fetch_ids [OF eng, of j "\<lambda>r. fr_event_id r \<noteq> ce_event_id e"
        "conflict_for_app (ce_owner_scope e) (ce_app_id e)" tx]
    by (auto simp: opt_filter_def conflict_for_app_def conflict_key_def split: option.splits)
  let ?ev = "conflict_identified (ce_owner_scope e) (ce_event_id e)"
  have ev: "?ev s \<longleftrightarrow> conflict_event_key s = (ce_owner_scope e, ce_event_id e)" for s
    by (simp add: conflict_identified_def conflict_event_key_def)
  have sub: "table db tx1 j = Some s \<Longrightarrow> table db t j = Some s" for j s
    by (simp add: m1 opt_filter_def split: option.splits if_splits)
  have one: "i = j" if "table db tx1 i = Some r" "?ev r" "table db tx1 j = Some s" "?ev s" for i j r s
    using unique_keyD [OF event sub sub, OF that(1,3)] that(2,4) by (simp add: ev)
  have "\<exists>i r. table db tx' = (table db tx1)(i \<mapsto> r)
    \<and> (r = ?new \<or> r \<in> range (\<lambda>stored :: conflict_record. ?new\<lparr>fr_revision := fr_revision stored + 1,
                                                 fr_created_at := fr_created_at stored\<rparr>))
    \<and> (\<forall>s. table db tx1 i = Some s \<longrightarrow> ?ev s) \<and> (\<forall>j s. table db tx1 j = Some s \<longrightarrow> ?ev s \<longrightarrow> j = i)"
    by (rule structsy_engine.upsert_row [OF eng act]) (rule one)
  then obtain i r where ir: "table db tx' = (table db tx1)(i \<mapsto> r)"
    "r = ?new \<or> r \<in> range (\<lambda>stored :: conflict_record. ?new\<lparr>fr_revision := fr_revision stored + 1,
                                              fr_created_at := fr_created_at stored\<rparr>)"
    "\<forall>s. table db tx1 i = Some s \<longrightarrow> ?ev s" "\<forall>j s. table db tx1 j = Some s \<longrightarrow> ?ev s \<longrightarrow> j = i"
    by blast
  have val: "conflict_value r = e"
    using ir(2) by (auto simp: conflict_value_def conflict_record_new_def)
  have "opt_filter (\<lambda>s. conflict_key s = (ce_owner_scope e, ce_app_id e) \<longrightarrow> fr_event_id s = ce_event_id e) (table db t j)
      = opt_filter (\<lambda>s. conflict_key s \<noteq> (ce_owner_scope e, ce_app_id e)) (table db t j)" if "j \<noteq> i" for j
    using that ir(4) [rule_format, of j] m1 [of j]
    by (cases "table db t j") (auto simp: opt_filter_def conflict_key_def conflict_identified_def)
  then have 1: "table db t' = (\<lambda>j. if j = i then Some r
      else opt_filter (\<lambda>s. conflict_key s \<noteq> (ce_owner_scope e, ce_app_id e)) (table db t j))"
    using tx(2) ir(1) m1 by (auto simp: fun_eq_iff)
  have 2: "conflict_event_key s = (ce_owner_scope e, ce_event_id e)
      \<or> conflict_key s = (ce_owner_scope e, ce_app_id e)" if "table db t i = Some s" for s
    using that ir(3) m1 [of i] ev by (auto simp: opt_filter_def split: if_splits)
  have 3: "j = i" if "table db t j = Some s" "conflict_event_key s = (ce_owner_scope e, ce_event_id e)" for j s
    using that ir(4) [rule_format, of j s] m1 [of j] by (auto simp: ev conflict_event_key_def opt_filter_def split: if_splits)
  show ?thesis
  proof (rule exI [of _ i], rule exI [of _ r], intro conjI allI impI)
  qed (rule 1, rule val, erule 2, erule (1) 3)
qed

lemma conflict_value_keys:
  "conflict_key r = (ce_owner_scope (conflict_value r), ce_app_id (conflict_value r))"
  "conflict_event_key r = (ce_owner_scope (conflict_value r), ce_event_id (conflict_value r))"
  by (simp_all add: conflict_value_def conflict_key_def conflict_event_key_def)

lemma attribute_conflict_rows:
  assumes eng: "structsy_engine db"
  shows "rfold (attribute_conflict_row db p) rows tx = Inr tx' \<Longrightarrow> distinct (map fst rows) \<Longrightarrow>
    distinct (map (fr_app_id \<circ> snd) rows) \<Longrightarrow>
    table db tx' i = (case map_of rows i of
        Some r \<Rightarrow> Some (attributed p r)
      | None \<Rightarrow> opt_filter (\<lambda>r. \<not> (fr_owner_scope r = p \<and> fr_app_id r \<in> fr_app_id ` snd ` set rows)) (table db tx i))"
proof (induction rows arbitrary: tx)
  case Nil
  then show ?case by (simp add: opt_filter_def split: option.splits)
next
  case (Cons x rows)
  obtain j r where x: "x = (j, r)" by fastforce
  let ?old = "map fst (st_fetch db (conflict_for_app p (fr_app_id r)) tx)"
  obtain tx1 tx2 where step: "delete_rows db ?old tx = Inr tx1"
    "st_update db tx1 j (attributed p r) = Inr tx2" "rfold (attribute_conflict_row db p) rows tx2 = Inr tx'"
    using Cons.prems(1) x by (auto simp: attribute_conflict_row_def attributed_def result_simps)
  have m1: "table db tx1 k = opt_filter (\<lambda>s. \<not> conflict_for_app p (fr_app_id r) s) (table db tx k)" for k
    using structsy_engine.delete_rows_table [OF eng step(1)]
      structsy_engine.fetch_ids_all [OF eng, of k "conflict_for_app p (fr_app_id r)" tx]
    by (auto simp: opt_filter_def split: option.splits)
  have m2: "table db tx2 = (table db tx1)(j \<mapsto> attributed p r)"
    by (rule structsy_engine.update_table [OF eng step(2)])
  have fresh: "map_of rows j = None" "fr_app_id (attributed p r) \<notin> fr_app_id ` snd ` set rows"
    using Cons.prems(2,3) x by (auto simp: map_of_eq_None_iff attributed_def image_iff)
  have IH: "table db tx' i = (case map_of rows i of
        Some r \<Rightarrow> Some (attributed p r)
      | None \<Rightarrow> opt_filter (\<lambda>r. \<not> (fr_owner_scope r = p \<and> fr_app_id r \<in> fr_app_id ` snd ` set rows)) (table db tx2 i))"
    using Cons.IH [OF step(3)] Cons.prems(2,3) by simp
  show ?case
  proof (cases "map_of rows i")
    case None
    with IH fresh x show ?thesis
      by (cases "table db tx i"; cases "i = j")
         (auto simp: m1 m2 opt_filter_def conflict_for_app_def)
  next
    case (Some s)
    with IH fresh x show ?thesis by auto
  qed
qed

subsection \<open>Reference engine\<close>

lemma slot_rows_set: "set (slot_rows t) = {(i, r). slot_lookup t i = Some r}"
proof -
  have "set (List.map_filter (\<lambda>(i, x). map_option (Pair i) x) (List.enumerate n t))
      = {(i, r). n \<le> i \<and> slot_lookup t (i - n) = Some r}" for n
  proof (induction t arbitrary: n)
    case (Cons x t)
    from Cons.IH [of "Suc n"] show ?case
      by (cases x) (auto simp: map_filter_simps slot_lookup_def nth_Cons' split: if_splits)
  qed (simp add: map_filter_simps slot_lookup_def)
  then show ?thesis by (simp add: slot_rows_def)
qed

lemma slot_rows_distinct: "distinct (map fst (slot_rows t))"
proof -
  have "distinct (map fst (List.map_filter (\<lambda>(i, x). map_option (Pair i) x) (List.enumerate n t)))
    \<and> (\<forall>i \<in> fst ` set (List.map_filter (\<lambda>(i, x). map_option (Pair i) x) (List.enumerate n t)). n \<le> i)" for n
  proof (induction t arbitrary: n)
    case (Cons x t)
    from Cons.IH [of "Suc n"] show ?case by (cases x) (auto simp: map_filter_simps)
  qed (simp add: map_filter_simps)
  then show ?thesis by (simp add: slot_rows_def)
qed

lemma slot_table: "table slot_db t = slot_lookup t"
proof
  fix i
  have "map_of (slot_rows t) i = slot_lookup t i"
  proof (cases "slot_lookup t i")
    case None
    then show ?thesis using slot_rows_set [of t] by (auto simp: map_of_eq_None_iff)
  next
    case (Some r)
    then show ?thesis using slot_rows_set [of t] slot_rows_distinct [of t] by (simp add: map_of_eq_Some_iff)
  qed
  then show "table slot_db t i = slot_lookup t i"
    by (simp add: table_def slot_db_def)
qed

lemma slot_lookup_update: "slot_lookup t i \<noteq> None \<Longrightarrow> slot_lookup (t[i := Some r]) = (slot_lookup t)(i \<mapsto> r)"
  by (auto simp: slot_lookup_def fun_eq_iff split: if_splits)

lemma slot_lookup_delete: "slot_lookup (t[i := None]) = (slot_lookup t)(i := None)"
  by (auto simp: slot_lookup_def fun_eq_iff)

lemma slot_lookup_append: "slot_lookup (t @ [Some r]) = (slot_lookup t)(length t \<mapsto> r)"
  by (auto simp: slot_lookup_def fun_eq_iff nth_append)

lemma distinct_fst_filter: "distinct (map fst xs) \<Longrightarrow> distinct (map fst (filter P xs))"
  by (induction xs) auto

lemma slot_engine: "structsy_engine (slot_db :: ('r option list, nat, 'r) structsy)"
proof
  fix P and t :: "'r option list"
  show "distinct (map fst (st_fetch slot_db P t))"
    using slot_rows_distinct [of t] by (simp add: slot_db_def distinct_fst_filter)
  show "set (st_fetch slot_db P t) = {(i, r). table slot_db t i = Some r \<and> P r}"
    using slot_rows_set [of t] unfolding slot_table by (auto simp: slot_db_def)
next
  fix t :: "'r option list" and rows
  assume "st_scan slot_db t = Inr rows"
  then show "distinct (map fst rows) \<and> set rows = {(i, r). table slot_db t i = Some r}"
    using slot_rows_set [of t] slot_rows_distinct [of t] unfolding slot_table by (auto simp: slot_db_def)
next
  fix t t' :: "'r option list" and i r
  assume "st_update slot_db t i r = Inr t'"
  then show "table slot_db t' = (table slot_db t)(i \<mapsto> r)"
    unfolding slot_table using slot_lookup_update by (fastforce simp: slot_db_def split: if_splits)
next
  fix t t' :: "'r option list" and i r
  assume "st_insert slot_db t r = Inr (i, t')"
  then show "table slot_db t i = None \<and> table slot_db t' = (table slot_db t)(i \<mapsto> r)"
    unfolding slot_table by (auto simp: slot_db_def slot_lookup_append) (simp add: slot_lookup_def)
next
  fix t t' :: "'r option list" and i
  assume "st_delete slot_db t i = Inr t'"
  then show "table slot_db t' = (table slot_db t)(i := None)"
    unfolding slot_table by (auto simp: slot_db_def slot_lookup_delete)
next
  fix t :: "'r option list" and i row
  assume "st_read slot_db t i = Inr row"
  then show "row = table slot_db t i"
    unfolding slot_table by (simp add: slot_db_def)
qed (simp_all add: slot_db_def slot_text_def)

interpretation slot: structsy_engine "slot_db :: ('r option list, nat, 'r) structsy"
  by (rule slot_engine)

lemma slot_reliable: "reliable_engine (slot_db :: ('r option list, nat, 'r) structsy)"
proof
  fix t :: "'r option list" and i r
  assume "table slot_db t i \<noteq> None"
  then show "\<exists>t'. st_update slot_db t i r = Inr t'"
    unfolding slot_table by (simp add: slot_db_def)
qed (simp_all add: slot_db_def)

interpretation slot: reliable_engine "slot_db :: ('r option list, nat, 'r) structsy"
  by (rule slot_reliable)

interpretation playtime_outbox: outbox journaled_playtime pr_next_attempt_at playtime_key
  by unfold_locales (simp_all add: journaled_playtime_def playtime_key_def)

interpretation schema_outbox: outbox journaled_schema cr_next_attempt_at schema_key
  by unfold_locales (simp_all add: journaled_schema_def schema_key_def)

interpretation stats_outbox: outbox journaled_stats sr_next_attempt_at stats_key
  by unfold_locales (simp_all add: journaled_stats_def stats_key_def)

interpretation conflict_outbox: outbox journaled_conflict fr_next_attempt_at conflict_key
  by unfold_locales (simp_all add: journaled_conflict_def conflict_key_def)

end
