(* ===== verification/Journal_Properties.thy ===== *)
theory Journal_Properties
  imports Journal_Contract
begin

text \<open>
  The properties of the durable outbox: what enqueueing, handing out, acknowledging, deferring and
  re-attributing records do to the tables of the journal, for every storage engine that meets the
  contract of Journal_Contract.  Each witness runs the operations on the reference engine.
\<close>

section \<open>Sample values\<close>

definition sample_entry :: "u32 \<Rightarrow> int \<Rightarrow> playtime_entry" where
  "sample_entry minutes observed =
     \<lparr>pe_owner_scope = ''scope'', pe_owner_steam_id64 = ''7656'', pe_app_id = 480,
      pe_playtime_minutes = minutes, pe_playtime_2weeks_minutes = 0, pe_last_played_at = None,
      pe_observed_at = observed\<rparr>"

definition sample_row :: playtime_record where
  "sample_row = playtime_record_new (sample_entry 10 100)"

definition sample_item :: "playtime_entry queued" where
  "sample_item = \<lparr>q_value = sample_entry 10 100, q_id = [], q_revision = 0\<rparr>"

definition sample_commit :: "string \<Rightarrow> stats_commit" where
  "sample_commit commit_id =
     \<lparr>sc_owner_scope = ''scope'', sc_owner_steam_id64 = ''7656'', sc_commit_id = commit_id,
      sc_app_id = 480, sc_base_crc_stats = Some 1, sc_dirty_stat_ids = [3], sc_observed_at = 50\<rparr>"

definition sample_snapshot :: "string \<Rightarrow> steam_app_snapshot" where
  "sample_snapshot commit_id =
     \<lparr>ss_owner_scope = ''scope'', ss_owner_steam_id64 = ''7656'', ss_commit_id = commit_id,
      ss_app_id = 480, ss_base_crc_stats = None, ss_dirty_stat_ids = [], ss_achievements = [],
      ss_stats = [], ss_observed_at = 60\<rparr>"

definition sample_event :: "string \<Rightarrow> string \<Rightarrow> conflict_resolution_event" where
  "sample_event scope event_id =
     \<lparr>ce_owner_scope = scope, ce_event_id = event_id, ce_app_id = 480, ce_base_change_number = 1,
      ce_remote_change_number = 2, ce_resolution = KEPT_CLOUD, ce_machine_name = None\<rparr>"

definition sample_schema :: "string \<Rightarrow> achievement_schema" where
  "sample_schema scope =
     \<lparr>as_owner_scope = scope, as_app_id = 480, as_language = ''english'', as_schema_version = None,
      as_content = [1]\<rparr>"

section \<open>Lemmas\<close>

lemma batch_member:
  "q \<in> set (map snd (take n (sort_key fst xs))) \<Longrightarrow> \<exists>k. (k, q) \<in> set xs"
  by (force dest: in_set_takeD)

lemma batch_complete:
  "length (map snd (take n (sort_key fst xs))) < n \<Longrightarrow> set (map snd (take n (sort_key fst xs))) = snd ` set xs"
  by simp

lemma batch_sorted:
  assumes "\<And>x. x \<in> set xs \<Longrightarrow> g (snd x) = fst x"
  shows "sorted (map g (map snd (take n (sort_key fst xs))))"
proof -
  have "map g (map snd (take n (sort_key fst xs))) = take n (map fst (sort_key fst xs))"
    using assms by (auto simp: take_map dest: in_set_takeD)
  then show ?thesis by (simp add: sorted_wrt_take)
qed

lemma batch_distinct:
  assumes "distinct (map (g \<circ> snd) xs)"
  shows "distinct (map g (map snd (take n (sort_key fst xs))))"
proof -
  have "distinct (map (g \<circ> snd) (sort_key fst xs))"
    using assms by (simp add: distinct_map)
  then have "distinct (take n (map (g \<circ> snd) (sort_key fst xs)))" by (rule distinct_take)
  then show ?thesis by (simp add: take_map)
qed

lemma represents_empty: "represents key (\<lambda>_. None) (\<lambda>_. None)"
  by (simp add: represents_def unique_key_def)

lemma represents_single: "represents key (\<lambda>i. if i = a then Some r else None) [key r \<mapsto> r]"
  by (auto simp: represents_def unique_key_def)

lemma slot_lookup_Nil [simp]: "slot_lookup [] = (\<lambda>_. None)"
  by (simp add: slot_lookup_def fun_eq_iff)

lemma slot_lookup_single [simp]: "slot_lookup [Some r] = (\<lambda>i. if i = 0 then Some r else None)"
  by (auto simp: slot_lookup_def fun_eq_iff)

lemma pending_playtime_item:
  assumes eng: "structsy_engine db" and q: "q \<in> set (pending_playtime db s u now t)"
  shows "\<exists>i r. table db t i = Some r \<and> playtime_key r = (s, u, pe_app_id (q_value q))
    \<and> pr_next_attempt_at r \<le> now \<and> q = queued_new db i (pr_revision r) (playtime_value r)"
proof -
  obtain i r where "(i, r) \<in> set (st_fetch db (\<lambda>r. pr_owner_scope r = s \<and> pr_owner_steam_id64 r = u
      \<and> pr_next_attempt_at r \<le> now) t)" "q = queued_new db i (pr_revision r) (playtime_value r)"
    using batch_member [OF q [unfolded pending_playtime_def]] by auto
  then show ?thesis
    unfolding structsy_engine.fetch_set [OF eng]
    by (intro exI [of _ i] exI [of _ r]) (auto simp: playtime_key_def queued_new_def playtime_value_def)
qed

lemma names_queued:
  "structsy_engine db \<Longrightarrow> names db jn (queued_new db i n v) j r \<longleftrightarrow> i = j \<and> jn_revision jn r = n"
  by (auto simp: names_def queued_new_def structsy_engine.parse_text)

lemma journaled_revision [simp]:
  "jn_revision journaled_playtime = pr_revision" "jn_revision journaled_schema = cr_revision"
  "jn_revision journaled_stats = sr_revision" "jn_revision journaled_conflict = fr_revision"
  by (simp_all add: journaled_playtime_def journaled_schema_def journaled_stats_def journaled_conflict_def)

lemma settled_single:
  assumes "structsy_engine db" and "m i = Some r"
  shows "settled db jn [queued_new db i n v] m = (if jn_revision jn r = n then m(i := None) else m)"
proof
  fix j
  show "settled db jn [queued_new db i n v] m j = (if jn_revision jn r = n then m(i := None) else m) j"
    using assms(2) by (cases "m j") (auto simp: settled_def names_queued [OF assms(1)])
qed

lemma enqueue_playtime_row:
  assumes eng: "structsy_engine db" and u: "unique_key playtime_key (table db t)"
    and r: "table db t i = Some r" "playtime_key r = entry_key e"
    and ok: "enqueue_playtime db [e] t = (Inr n, t')"
  shows "table db t' = (table db t)(i \<mapsto> snd (playtime_merge r e))"
proof -
  obtain tx tx' where tx: "table db tx = table db t" "table db t' = table db tx'"
    and step: "enqueue_playtime_entry db e tx = Inr tx'"
    by (rule structsy_engine.write_ok [OF eng ok [unfolded enqueue_playtime_def]]) (auto simp: result_simps)
  let ?fetch = "st_fetch db (\<lambda>r. playtime_key r = entry_key e) tx"
  have "first_row ?fetch \<noteq> None"
    using structsy_engine.first_fetch_None [OF eng, of "\<lambda>r. playtime_key r = entry_key e" tx i r] r tx(1)
    by auto
  then obtain j s where first: "first_row ?fetch = Some (j, s)" by fastforce
  then have "table db tx j = Some s" "playtime_key s = entry_key e"
    using structsy_engine.first_fetch_Some [OF eng first] by auto
  then have js: "table db t j = Some s" "j = i" using unique_keyD [OF u _ r(1)] r(2) tx(1) by auto
  then have js: "j = i" "s = r" using r(1) by auto
  show ?thesis
  proof (cases "fst (playtime_merge r e)")
    case True
    then have "st_update db tx i (snd (playtime_merge r e)) = Inr tx'"
      using step first js by (auto simp: enqueue_playtime_entry_def playtime_key_iff split: prod.splits)
    then show ?thesis using structsy_engine.update_table [OF eng, of tx] tx by simp
  next
    case False
    then have "tx' = tx"
      using step first js by (auto simp: enqueue_playtime_entry_def playtime_key_iff split: prod.splits)
    then show ?thesis using playtime_merge_unchanged [OF False] r(1) tx by (simp add: map_upd_triv)
  qed
qed

section \<open>Properties\<close>

text \<open>C8: On a storage engine that does not fail, enqueueing playtime observations succeeds, reports the
  number of observations, and refines the abstract journal: the table keeps at most one record per
  scope, account and app, each observation is merged into the record of its identity or starts a
  new one, and the records of other identities are untouched.\<close>

theorem enqueue_playtime_refines:
  assumes "reliable_engine db" and "represents playtime_key (table db t) f"
  shows "\<exists>t'. enqueue_playtime db es t = (Inr (length es), t')
    \<and> represents playtime_key (table db t') (fold observe_playtime es f)"
proof -
  obtain t' where t': "enqueue_playtime db es t = (Inr (length es), t')"
    using enqueue_playtime_total [OF assms(1)] by blast
  from enqueue_playtime_represents [OF reliable_engine.axioms(1) [OF assms(1)] assms(2) t']
  show ?thesis by (intro exI [of _ t'] conjI t') simp
qed

theorem enqueue_playtime_refines_witness:
  "\<exists>t'. enqueue_playtime slot_db [sample_entry 10 100, sample_entry 25 200] [] = (Inr 2, t')
    \<and> represents playtime_key (table slot_db t')
        (fold observe_playtime [sample_entry 10 100, sample_entry 25 200] (\<lambda>_. None))"
  using enqueue_playtime_refines [OF slot_reliable, of "[]" "\<lambda>_. None" "[sample_entry 10 100, sample_entry 25 200]"]
  by (simp add: slot_table represents_empty numeral_2_eq_2)

text \<open>C7: Acknowledgement is exact.  A playtime record is handed out for upload, a further observation of
  the same app arrives while the upload is in flight, and the upload is then acknowledged: if the
  observation moved a value, the merged record stays queued with nothing lost; if it moved nothing, the
  record is dropped.  No other record changes.\<close>

theorem acknowledge_exact:
  assumes eng: "structsy_engine db" and f: "represents playtime_key (table db t) f"
    and q: "q \<in> set (pending_playtime db s u now t)"
    and k: "entry_key e = (s, u, pe_app_id (q_value q))"
    and enq: "enqueue_playtime db [e] t = (Inr n, t1)"
    and ack: "acknowledge db journaled_playtime q t1 = (Inr (), t2)"
  shows "\<exists>r. f (entry_key e) = Some r
    \<and> represents playtime_key (table db t2)
        (f(entry_key e := if fst (playtime_merge r e) then Some (snd (playtime_merge r e)) else None))"
proof -
  obtain i r where r: "table db t i = Some r" "playtime_key r = entry_key e"
    and qi: "q = queued_new db i (pr_revision r) (playtime_value r)"
    using pending_playtime_item [OF eng q] unfolding k by blast
  have fk: "f (entry_key e) = Some r" using representsD [OF f r(1)] r(2) by simp
  let ?r' = "snd (playtime_merge r e)"
  have t1: "table db t1 = (table db t)(i \<mapsto> ?r')"
    using enqueue_playtime_row [OF eng _ r enq] f by (simp add: represents_def)
  then have f1: "represents playtime_key (table db t1) (f(entry_key e \<mapsto> ?r'))"
    using represents_update [OF f r(1), of ?r'] r(2) by simp
  have "table db t2 = settled db journaled_playtime [q] (table db t1)"
    using structsy_engine.settle_table [OF eng ack [unfolded acknowledge_def]] .
  moreover have "settled db journaled_playtime [q] (table db t1) =
      (if pr_revision ?r' = pr_revision r then (table db t1)(i := None) else table db t1)"
    unfolding qi by (simp add: settled_single [OF eng, of _ _ ?r'] t1)
  ultimately have t2: "table db t2 = (if fst (playtime_merge r e) then table db t1 else (table db t1)(i := None))"
    by (simp add: playtime_merge_revision)
  have f2: "represents playtime_key ((table db t1)(i := None)) (f(entry_key e := None))"
    using represents_delete [OF f1, of i ?r'] r(2) by (simp add: t1)
  show ?thesis
    by (rule exI [of _ r], rule conjI [OF fk], cases "fst (playtime_merge r e)")
       (simp_all only: t2 f1 f2 if_True if_False)
qed

theorem acknowledge_exact_witness:
  "\<exists>r. represents playtime_key
      (table slot_db (snd (acknowledge slot_db journaled_playtime sample_item
                         (snd (enqueue_playtime slot_db [sample_entry 25 200] [Some sample_row])))))
      [(''scope'', ''7656'', 480) \<mapsto> r] \<and> pr_playtime_minutes r = 25"
proof -
  let ?e = "sample_entry 25 200" and ?t = "[Some sample_row]"
  let ?t1 = "snd (enqueue_playtime slot_db [?e] ?t)"
  let ?t2 = "snd (acknowledge slot_db journaled_playtime sample_item ?t1)"
  have f: "represents playtime_key (table slot_db ?t) [playtime_key sample_row \<mapsto> sample_row]"
    unfolding slot_table slot_lookup_single by (rule represents_single)
  have q: "sample_item \<in> set (pending_playtime slot_db ''scope'' ''7656'' 1000 ?t)" by code_simp
  have k: "entry_key ?e = (''scope'', ''7656'', pe_app_id (q_value sample_item))" by code_simp
  have enq: "enqueue_playtime slot_db [?e] ?t = (Inr 1, ?t1)" by code_simp
  have ack: "acknowledge slot_db journaled_playtime sample_item ?t1 = (Inr (), ?t2)" by code_simp
  have key: "playtime_key sample_row = (''scope'', ''7656'', 480)" "entry_key ?e = (''scope'', ''7656'', 480)"
    by code_simp+
  have m: "fst (playtime_merge sample_row ?e)" "pr_playtime_minutes (snd (playtime_merge sample_row ?e)) = 25"
    by code_simp+
  from acknowledge_exact [OF slot_engine f q k enq ack] m show ?thesis
    unfolding key by auto
qed

text \<open>C9: Settling a batch removes exactly the rows that an item of the batch names at the revision the
  row still has.  Every other row, including one that was updated since it was handed out,
  is kept as it is.\<close>

theorem settle_exact:
  assumes "structsy_engine db" and "acknowledge_all db jn items t = (Inr (), t')"
  shows "table db t' i = (case table db t i of
      None \<Rightarrow> None
    | Some r \<Rightarrow> if \<exists>item \<in> set items. st_parse_ref db (q_id item) = Some i \<and> jn_revision jn r = q_revision item
                then None else Some r)"
  using structsy_engine.settle_table [OF assms(1) assms(2) [unfolded acknowledge_all_def]]
  by (simp add: settled_def names_def list_ex_iff split: option.split)

theorem settle_exact_witness:
  "let t' = snd (acknowledge_all slot_db journaled_playtime [sample_item]
               [Some sample_row, Some (sample_row\<lparr>pr_app_id := 730\<rparr>)])
   in table slot_db t' 0 = None \<and> table slot_db t' 1 = Some (sample_row\<lparr>pr_app_id := 730\<rparr>)"
proof -
  let ?t = "[Some sample_row, Some (sample_row\<lparr>pr_app_id := 730\<rparr>)]"
  have ok: "acknowledge_all slot_db journaled_playtime [sample_item] ?t
      = (Inr (), snd (acknowledge_all slot_db journaled_playtime [sample_item] ?t))" by code_simp
  have "st_parse_ref (slot_db :: (playtime_record option list, nat, playtime_record) structsy) (q_id sample_item) = Some 0"
    "pr_revision sample_row = q_revision sample_item" by code_simp+
  then show ?thesis
    using settle_exact [OF slot_engine ok, of 0] settle_exact [OF slot_engine ok, of 1]
    by (simp add: Let_def slot_table slot_lookup_def)
qed

text \<open>C13: Deferring a batch after a retryable failure keeps every record, its identity and its
  revision.  A record that the batch names at its current revision gets its next attempt strictly
  after the present moment and at most 256 time units later, with one more attempt counted; every
  other record is unchanged.  This holds for each of the four record types of the journal.\<close>

theorem defer_schedules:
  assumes eng: "structsy_engine db" and jn: "outbox jn next_at key"
    and ok: "defer_all db jn items now t = (Inr (), t')"
    and dist: "distinct (map (\<lambda>item. st_parse_ref db (q_id item)) items)"
    and now: "is_i64 now" "is_i64 (now + 256)" and r: "table db t i = Some r"
  shows "\<exists>r'. table db t' i = Some r' \<and> key r' = key r \<and> jn_revision jn r' = jn_revision jn r
    \<and> (if \<exists>item \<in> set items. st_parse_ref db (q_id item) = Some i \<and> jn_revision jn r = q_revision item
       then now < next_at r' \<and> next_at r' \<le> now + 256
            \<and> jn_attempts jn r' = i64_saturating_add (jn_attempts jn r) 1
       else r' = r)"
proof -
  have t': "table db t' i = Some (if \<exists>item \<in> set items. st_parse_ref db (q_id item) = Some i
      \<and> jn_revision jn r = q_revision item then rescheduled jn now r else r)"
    using structsy_engine.postpone_table [OF eng ok [unfolded defer_all_def] dist] r
    by (simp add: postponed_def names_def list_ex_iff)
  have "i64_saturating_add now (retry_delay a) = now + retry_delay a" for a
    using now retry_delay_range [of a] by (simp add: i64_saturating_add_def i64_saturate_id is_i64_def)
  then have "now < next_at (rescheduled jn now r)" "next_at (rescheduled jn now r) \<le> now + 256"
    "jn_attempts jn (rescheduled jn now r) = i64_saturating_add (jn_attempts jn r) 1"
    "key (rescheduled jn now r) = key r" "jn_revision jn (rescheduled jn now r) = jn_revision jn r"
    using retry_delay_range [of "jn_attempts jn r"]
    by (simp_all add: rescheduled_def outbox.schedule_next [OF jn] outbox.schedule_attempts [OF jn]
          outbox.schedule_key [OF jn] outbox.schedule_revision [OF jn])
  with t' show ?thesis by auto
qed

theorem defer_schedules_witness:
  "\<exists>r'. table slot_db (snd (defer_all slot_db journaled_playtime [sample_item] 1000 [Some sample_row])) 0 = Some r'
    \<and> playtime_key r' = playtime_key sample_row \<and> 1000 < pr_next_attempt_at r' \<and> pr_next_attempt_at r' \<le> 1256"
proof -
  let ?t = "[Some sample_row]"
  have ok: "defer_all slot_db journaled_playtime [sample_item] 1000 ?t
      = (Inr (), snd (defer_all slot_db journaled_playtime [sample_item] 1000 ?t))" by code_simp
  have "st_parse_ref (slot_db :: (playtime_record option list, nat, playtime_record) structsy) (q_id sample_item) = Some 0"
    "pr_revision sample_row = q_revision sample_item" "is_i64 1000" "is_i64 1256" by code_simp+
  then show ?thesis
    using defer_schedules [OF slot_engine playtime_outbox.outbox_axioms ok, of 0 sample_row]
    by (auto simp: slot_table)
qed

text \<open>C15: The batch of playtime records handed out for an account has at most 500 items, ordered by
  app and each naming a different row.  Every item carries the value and the revision of a row of that
  scope and account whose next attempt is due, and unless the batch is full every such row is in it.\<close>

theorem pending_playtime_batch:
  assumes eng: "structsy_engine db"
  shows "let batch = pending_playtime db s u now t;
             due = (\<lambda>i r. table db t i = Some r \<and> pr_owner_scope r = s \<and> pr_owner_steam_id64 r = u
                     \<and> pr_next_attempt_at r \<le> now)
         in length batch \<le> 500 \<and> sorted (map (pe_app_id \<circ> q_value) batch) \<and> distinct (map q_id batch)
            \<and> set batch \<subseteq> {queued_new db i (pr_revision r) (playtime_value r) | i r. due i r}
            \<and> (length batch < 500 \<longrightarrow>
                 set batch = {queued_new db i (pr_revision r) (playtime_value r) | i r. due i r})"
proof -
  let ?rows = "st_fetch db (\<lambda>r. pr_owner_scope r = s \<and> pr_owner_steam_id64 r = u \<and> pr_next_attempt_at r \<le> now) t"
  let ?xs = "map (\<lambda>(i, r). (pr_app_id r, queued_new db i (pr_revision r) (playtime_value r))) ?rows"
  let ?due = "{queued_new db i (pr_revision r) (playtime_value r) | i r. table db t i = Some r
      \<and> pr_owner_scope r = s \<and> pr_owner_steam_id64 r = u \<and> pr_next_attempt_at r \<le> now}"
  have batch: "pending_playtime db s u now t = map snd (take 500 (sort_key fst ?xs))"
    by (simp add: pending_playtime_def PLAYTIME_BATCH_LIMIT_def)
  have due: "snd ` set ?xs = ?due"
    unfolding set_map structsy_engine.fetch_set [OF eng] by (force simp: image_iff)
  have "sorted (map (pe_app_id \<circ> q_value) (map snd (take 500 (sort_key fst ?xs))))"
    by (rule batch_sorted) (auto simp: queued_new_def playtime_value_def)
  moreover have "distinct (map q_id (map snd (take 500 (sort_key fst ?xs))))"
  proof (rule batch_distinct)
    have "inj (st_ref_text db)"
      by (metis injI option.inject structsy_engine.parse_text [OF eng])
    then have "distinct (map (st_ref_text db) (map fst ?rows))"
      by (subst distinct_map, intro conjI structsy_engine.fetch_distinct [OF eng]) (blast intro: inj_on_subset)
    moreover have "map (q_id \<circ> snd) ?xs = map (st_ref_text db) (map fst ?rows)"
      by (simp add: queued_new_def split_def comp_def)
    ultimately show "distinct (map (q_id \<circ> snd) ?xs)" by (simp only:)
  qed
  moreover have "set (map snd (take 500 (sort_key fst ?xs))) \<subseteq> ?due"
    unfolding due [symmetric] by (force dest: in_set_takeD)
  moreover have "length (map snd (take 500 (sort_key fst ?xs))) < 500 \<longrightarrow>
      set (map snd (take 500 (sort_key fst ?xs))) = ?due"
    using batch_complete [of 500 ?xs] due by simp
  ultimately show ?thesis unfolding batch Let_def by simp
qed

theorem pending_playtime_batch_witness:
  "set (pending_playtime slot_db ''scope'' ''7656'' 1000 [Some sample_row]) = {sample_item}
   \<and> length (pending_playtime slot_db ''scope'' ''7656'' 1000 [Some sample_row]) \<le> 500"
proof -
  have "pending_playtime slot_db ''scope'' ''7656'' 1000 [Some sample_row] = [sample_item]" by code_simp
  then show ?thesis
    using pending_playtime_batch [OF slot_engine, of "''scope''" "''7656''" 1000 "[Some sample_row]"]
    by (simp add: Let_def)
qed

text \<open>C14: The outbox drains.  When a batch that is not full is handed out and acknowledged in full,
  nothing that was due at that moment is left for the account.\<close>

theorem pending_playtime_drains:
  assumes eng: "structsy_engine db"
    and short: "length (pending_playtime db s u now t) < PLAYTIME_BATCH_LIMIT"
    and ack: "acknowledge_all db journaled_playtime (pending_playtime db s u now t) t = (Inr (), t')"
  shows "pending_playtime db s u now t' = []"
proof (rule ccontr)
  assume "pending_playtime db s u now t' \<noteq> []"
  then obtain q where "q \<in> set (pending_playtime db s u now t')" by (meson list.set_sel(1))
  then obtain i r where r: "table db t' i = Some r" "playtime_key r = (s, u, pe_app_id (q_value q))"
    "pr_next_attempt_at r \<le> now"
    using pending_playtime_item [OF eng] by blast
  have t': "table db t' = settled db journaled_playtime (pending_playtime db s u now t) (table db t)"
    using structsy_engine.settle_table [OF eng ack [unfolded acknowledge_all_def]] .
  then have kept: "table db t i = Some r"
    "\<not> list_ex (\<lambda>item. names db journaled_playtime item i r) (pending_playtime db s u now t)"
    using r(1) by (auto simp: settled_def split: option.splits if_splits)
  let ?xs = "map (\<lambda>(i, r). (pr_app_id r, queued_new db i (pr_revision r) (playtime_value r)))
    (st_fetch db (\<lambda>r. pr_owner_scope r = s \<and> pr_owner_steam_id64 r = u \<and> pr_next_attempt_at r \<le> now) t)"
  have "(i, r) \<in> set (st_fetch db (\<lambda>r. pr_owner_scope r = s \<and> pr_owner_steam_id64 r = u \<and> pr_next_attempt_at r \<le> now) t)"
    unfolding structsy_engine.fetch_set [OF eng] using kept(1) r(2,3) by (simp add: playtime_key_def)
  then have "queued_new db i (pr_revision r) (playtime_value r) \<in> snd ` set ?xs" by force
  then have "queued_new db i (pr_revision r) (playtime_value r) \<in> set (pending_playtime db s u now t)"
    using batch_complete [of PLAYTIME_BATCH_LIMIT ?xs] short unfolding pending_playtime_def by simp
  with kept(2) show False by (auto simp: list_ex_iff names_queued [OF eng])
qed

theorem pending_playtime_drains_witness:
  "pending_playtime slot_db ''scope'' ''7656'' 1000
     (snd (acknowledge_all slot_db journaled_playtime
             (pending_playtime slot_db ''scope'' ''7656'' 1000 [Some sample_row]) [Some sample_row])) = []"
  by (rule pending_playtime_drains [OF slot_engine, of _ _ _ "[Some sample_row]"]) code_simp+

text \<open>C0: A snapshot completes a stats commit exactly when the record of its account and app still
  awaits a snapshot of that very commit.  Then the record becomes the completed one; otherwise the
  call reports \<open>false\<close> and the journal is unchanged.\<close>

theorem complete_stats_snapshot_guarded:
  assumes "structsy_engine db" and "represents stats_key (table db t) f"
    and "complete_stats_snapshot db s t = (Inr b, t')"
    and "k = (ss_owner_scope s, ss_owner_steam_id64 s, ss_app_id s)"
  shows "b = (case f k of None \<Rightarrow> False | Some r \<Rightarrow> \<not> has_snapshot r \<and> sr_commit_id r = ss_commit_id s)
    \<and> represents stats_key (table db t') (if b then f(k \<mapsto> stats_complete (the (f k)) s) else f)"
  using complete_stats_snapshot_represents [OF assms(1-3)] unfolding assms(4) by blast

theorem complete_stats_snapshot_guarded_witness:
  "let r = stats_record_new (sample_commit ''c1'');
       t' = snd (complete_stats_snapshot slot_db (sample_snapshot ''c1'') [Some r])
   in represents stats_key (table slot_db t') [stats_key r \<mapsto> stats_complete r (sample_snapshot ''c1'')]"
proof -
  let ?r = "stats_record_new (sample_commit ''c1'')" and ?s = "sample_snapshot ''c1''"
  let ?k = "(ss_owner_scope ?s, ss_owner_steam_id64 ?s, ss_app_id ?s)"
  have f: "represents stats_key (table slot_db [Some ?r]) [stats_key ?r \<mapsto> ?r]"
    unfolding slot_table slot_lookup_single by (rule represents_single)
  have ok: "complete_stats_snapshot slot_db ?s [Some ?r]
      = (Inr True, snd (complete_stats_snapshot slot_db ?s [Some ?r]))" by code_simp
  have k: "stats_key ?r = ?k" by code_simp
  from complete_stats_snapshot_guarded [OF slot_engine f ok refl] show ?thesis
    unfolding k [symmetric] by (simp add: Let_def)
qed

text \<open>C17: A newer commit supersedes whatever the journal holds for its account and app: after it is
  queued the pending commit is that commit, and a snapshot of any other commit is refused and
  changes nothing.\<close>

theorem stats_commit_supersedes:
  assumes eng: "structsy_engine db" and f: "represents stats_key (table db t) f"
    and enq: "enqueue_stats_commit db c t = (Inr (), t1)"
    and same: "(ss_owner_scope s, ss_owner_steam_id64 s, ss_app_id s)
                 = (sc_owner_scope c, sc_owner_steam_id64 c, sc_app_id c)"
    and other: "ss_commit_id s \<noteq> sc_commit_id c"
    and cmp: "complete_stats_snapshot db s t1 = (Inr b, t2)"
  shows "pending_stats_commit db (sc_owner_scope c) (sc_owner_steam_id64 c) (sc_app_id c) t1 = Some c
    \<and> \<not> b \<and> (\<exists>g. represents stats_key (table db t1) g \<and> represents stats_key (table db t2) g)"
proof -
  let ?k = "(sc_owner_scope c, sc_owner_steam_id64 c, sc_app_id c)"
  obtain g r where g: "represents stats_key (table db t1) g" "g ?k = Some r"
    and r: "stats_commit_of r = c" "\<not> has_snapshot r" "sr_commit_id r = sc_commit_id c"
  proof
    show "represents stats_key (table db t1) (f(stats_key (stats_record_new c) \<mapsto>
        (case f (stats_key (stats_record_new c)) of None \<Rightarrow> stats_record_new c
         | Some r \<Rightarrow> (stats_record_new c)\<lparr>sr_revision := sr_revision r + 1\<rparr>)))"
      by (rule enqueue_stats_commit_represents [OF eng f enq])
  qed (auto simp: stats_key_def stats_record_new_def stats_commit_of_def has_snapshot_def split: option.splits)
  have "stats_identified (sc_owner_scope c) (sc_owner_steam_id64 c) (sc_app_id c) = (\<lambda>x. stats_key x = ?k)"
    by (auto simp: stats_identified_def stats_key_def)
  moreover have "\<exists>i. first_row (st_fetch db (\<lambda>x. stats_key x = ?k) t1) = Some (i, r)"
  proof (cases "first_row (st_fetch db (\<lambda>x. stats_key x = ?k) t1)")
    case None
    then show ?thesis
      using structsy_engine.first_fetch_None [OF eng, of "\<lambda>x. stats_key x = ?k" t1] representsE [OF g] by auto
  next
    case (Some x)
    obtain i r' where x: "x = (i, r')" by fastforce
    have "table db t1 i = Some r'" "stats_key r' = ?k"
      using structsy_engine.first_fetch_Some [OF eng Some [unfolded x]] by auto
    then have "g ?k = Some r'" using representsD [OF g(1)] by metis
    with g(2) Some x show ?thesis by simp
  qed
  ultimately have "pending_stats_commit db (sc_owner_scope c) (sc_owner_steam_id64 c) (sc_app_id c) t1 = Some c"
    using r by (auto simp: pending_stats_commit_def stats_for_def opt_filter_def)
  moreover have "\<not> b" "represents stats_key (table db t2) g"
    using complete_stats_snapshot_represents [OF eng g(1) cmp] g(2) r(3) same other by (auto split: option.splits)
  ultimately show ?thesis using g(1) by blast
qed

theorem stats_commit_supersedes_witness:
  "let t1 = snd (enqueue_stats_commit slot_db (sample_commit ''c2'') [Some (stats_record_new (sample_commit ''c1''))])
   in pending_stats_commit slot_db ''scope'' ''7656'' 480 t1 = Some (sample_commit ''c2'')
      \<and> fst (complete_stats_snapshot slot_db (sample_snapshot ''c1'') t1) = Inr False"
proof -
  let ?r = "stats_record_new (sample_commit ''c1'')"
  let ?t1 = "snd (enqueue_stats_commit slot_db (sample_commit ''c2'') [Some ?r])"
  let ?t2 = "snd (complete_stats_snapshot slot_db (sample_snapshot ''c1'') ?t1)"
  have f: "represents stats_key (table slot_db [Some ?r]) [stats_key ?r \<mapsto> ?r]"
    unfolding slot_table slot_lookup_single by (rule represents_single)
  have enq: "enqueue_stats_commit slot_db (sample_commit ''c2'') [Some ?r] = (Inr (), ?t1)" by code_simp
  have cmp: "complete_stats_snapshot slot_db (sample_snapshot ''c1'') ?t1 = (Inr False, ?t2)" by code_simp
  have same: "(ss_owner_scope (sample_snapshot ''c1''), ss_owner_steam_id64 (sample_snapshot ''c1''), ss_app_id (sample_snapshot ''c1''))
      = (sc_owner_scope (sample_commit ''c2''), sc_owner_steam_id64 (sample_commit ''c2''), sc_app_id (sample_commit ''c2''))"
    by code_simp
  have other: "ss_commit_id (sample_snapshot ''c1'') \<noteq> sc_commit_id (sample_commit ''c2'')" by code_simp
  have "sc_owner_scope (sample_commit ''c2'') = ''scope''" "sc_owner_steam_id64 (sample_commit ''c2'') = ''7656''"
    "sc_app_id (sample_commit ''c2'') = 480" by code_simp+
  with stats_commit_supersedes [OF slot_engine f enq same other cmp] show ?thesis
    unfolding Let_def using arg_cong [OF cmp, of fst] by simp
qed

text \<open>C18: Queueing a conflict resolution supersedes every earlier one of the same scope and app.  When
  resolutions are unique per app and per event before the call, they are so after it; the
  resolution is in the table, and every row of another app and event is still there.\<close>

theorem enqueue_conflict_supersedes:
  assumes eng: "structsy_engine db"
    and app: "unique_key conflict_key (table db t)"
    and event: "unique_key conflict_event_key (table db t)"
    and ok: "enqueue_conflict db e now t = (Inr (), t')"
  shows "unique_key conflict_key (table db t') \<and> unique_key conflict_event_key (table db t')
    \<and> (\<exists>i r. table db t' i = Some r \<and> conflict_value r = e)
    \<and> (\<forall>j s. table db t j = Some s \<longrightarrow> conflict_key s \<noteq> (ce_owner_scope e, ce_app_id e)
         \<longrightarrow> conflict_event_key s \<noteq> (ce_owner_scope e, ce_event_id e) \<longrightarrow> table db t' j = Some s)"
proof -
  obtain i r where t': "table db t' = (\<lambda>j. if j = i then Some r
      else opt_filter (\<lambda>s. conflict_key s \<noteq> (ce_owner_scope e, ce_app_id e)) (table db t j))"
    and r: "conflict_value r = e"
    and old: "\<forall>s. table db t i = Some s \<longrightarrow> conflict_event_key s = (ce_owner_scope e, ce_event_id e)
                \<or> conflict_key s = (ce_owner_scope e, ce_app_id e)"
    and ev: "\<forall>j s. table db t j = Some s \<longrightarrow> conflict_event_key s = (ce_owner_scope e, ce_event_id e) \<longrightarrow> j = i"
    using enqueue_conflict_table [OF assms] by blast
  let ?m = "\<lambda>j. opt_filter (\<lambda>s. conflict_key s \<noteq> (ce_owner_scope e, ce_app_id e)) (table db t j)"
  have sub: "?m \<subseteq>\<^sub>m table db t" by (auto simp: map_le_def opt_filter_def dom_def split: option.splits if_splits)
  have m: "table db t' = ?m(i \<mapsto> r)" by (simp add: t' fun_eq_iff)
  have keys: "conflict_key r = (ce_owner_scope e, ce_app_id e)"
    "conflict_event_key r = (ce_owner_scope e, ce_event_id e)"
    using conflict_value_keys [of r] r by simp_all
  have "unique_key conflict_key (table db t')"
    unfolding m by (rule unique_key_fresh [OF unique_key_sub [OF app sub]])
      (auto simp: keys opt_filter_def split: option.splits if_splits)
  moreover have "unique_key conflict_event_key (table db t')"
    unfolding m by (rule unique_key_fresh [OF unique_key_sub [OF event sub]])
      (use ev in \<open>auto simp: keys opt_filter_def split: option.splits if_splits\<close>)
  moreover have "table db t' j = Some s" if "table db t j = Some s"
    "conflict_key s \<noteq> (ce_owner_scope e, ce_app_id e)" "conflict_event_key s \<noteq> (ce_owner_scope e, ce_event_id e)" for j s
    using that old by (auto simp: t' opt_filter_def)
  moreover have "table db t' i = Some r" by (simp add: t')
  ultimately show ?thesis using r by blast
qed

theorem enqueue_conflict_supersedes_witness:
  "let t' = snd (enqueue_conflict slot_db (sample_event ''s'' ''e2'') 9 [Some (conflict_record_new (sample_event ''s'' ''e1'') 5)])
   in unique_key conflict_key (table slot_db t') \<and> (\<exists>i r. table slot_db t' i = Some r \<and> conflict_value r = sample_event ''s'' ''e2'')"
proof -
  let ?t = "[Some (conflict_record_new (sample_event ''s'' ''e1'') 5)]"
  have u: "unique_key key (table slot_db ?t)" for key :: "conflict_record \<Rightarrow> string \<times> 'b"
    unfolding slot_table slot_lookup_single by (auto simp: unique_key_def split: if_splits)
  have ok: "enqueue_conflict slot_db (sample_event ''s'' ''e2'') 9 ?t
      = (Inr (), snd (enqueue_conflict slot_db (sample_event ''s'' ''e2'') 9 ?t))" by code_simp
  from enqueue_conflict_supersedes [OF slot_engine u u ok] show ?thesis by (simp add: Let_def)
qed

text \<open>C19: Moving the conflicts staged under a credential to its principal gives every staged row the
  new scope and the next revision, drops the rows the principal already had for those apps, and leaves
  every other row alone.\<close>

theorem attribute_pending_conflicts_exact:
  assumes eng: "structsy_engine db" and app: "unique_key conflict_key (table db t)"
    and scopes: "c \<noteq> []" "p \<noteq> []" "c \<noteq> p"
    and ok: "attribute_pending_conflicts db c p t = (Inr (), t')"
  shows "table db t' i = (case table db t i of
      None \<Rightarrow> None
    | Some r \<Rightarrow>
        if fr_owner_scope r = c then Some (r\<lparr>fr_owner_scope := p, fr_revision := fr_revision r + 1\<rparr>)
        else if fr_owner_scope r = p
                \<and> (\<exists>j s. table db t j = Some s \<and> fr_owner_scope s = c \<and> fr_app_id s = fr_app_id r)
             then None else Some r)"
proof -
  let ?P = "\<lambda>r. fr_owner_scope r = c"
  obtain tx tx' where tx: "table db tx = table db t" "table db t' = table db tx'"
    and run: "rfold (attribute_conflict_row db p) (st_fetch db ?P tx) tx = Inr tx'"
    using ok scopes unfolding attribute_pending_conflicts_def
    by (auto simp: result_simps elim!: structsy_engine.write_ok [OF eng])
  have d: "distinct (map fst (st_fetch db ?P tx))" by (rule structsy_engine.fetch_distinct [OF eng])
  have rows: "set (st_fetch db ?P tx) = {(i, r). table db t i = Some r \<and> fr_owner_scope r = c}"
    using structsy_engine.fetch_set [OF eng, of ?P tx] tx(1) by simp
  have "inj_on (fr_app_id \<circ> snd) (set (st_fetch db ?P tx))"
  proof (rule inj_onI)
    fix x y assume xy: "x \<in> set (st_fetch db ?P tx)" "y \<in> set (st_fetch db ?P tx)"
      "(fr_app_id \<circ> snd) x = (fr_app_id \<circ> snd) y"
    then have "fst x = fst y" "table db t (fst x) = Some (snd x)" "table db t (fst y) = Some (snd y)"
      using unique_keyD [OF app, of "fst x" "snd x" "fst y" "snd y"] unfolding rows
      by (auto simp: conflict_key_def)
    then show "x = y" by (simp add: prod_eq_iff)
  qed
  then have apps: "distinct (map (fr_app_id \<circ> snd) (st_fetch db ?P tx))"
    using d by (simp add: distinct_map)
  have found: "map_of (st_fetch db ?P tx) i = opt_filter ?P (table db t i)"
    using d rows by (cases "table db t i") (auto simp: opt_filter_def map_of_eq_None_iff)
  have app_set: "fr_app_id r \<in> fr_app_id ` snd ` set (st_fetch db ?P tx)
      \<longleftrightarrow> (\<exists>j s. table db t j = Some s \<and> fr_owner_scope s = c \<and> fr_app_id s = fr_app_id r)" for r
    unfolding rows by (force simp: image_iff)
  show ?thesis
    using attribute_conflict_rows [OF eng run d apps, of i] scopes(3)
    unfolding found app_set tx
    by (cases "table db t i") (simp_all add: opt_filter_def attributed_def)
qed

theorem attribute_pending_conflicts_exact_witness:
  "let t = [Some (conflict_record_new (sample_event ''cred'' ''e2'') 8),
            Some (conflict_record_new (sample_event ''user'' ''e1'') 5)];
       t' = snd (attribute_pending_conflicts slot_db ''cred'' ''user'' t)
   in table slot_db t' 0 = Some ((conflict_record_new (sample_event ''user'' ''e2'') 8)\<lparr>fr_revision := 1\<rparr>)
      \<and> table slot_db t' 1 = None"
proof -
  let ?a = "conflict_record_new (sample_event ''cred'' ''e2'') 8"
  let ?b = "conflict_record_new (sample_event ''user'' ''e1'') 5"
  let ?t' = "snd (attribute_pending_conflicts slot_db ''cred'' ''user'' [Some ?a, Some ?b])"
  have look: "table slot_db [Some ?a, Some ?b] 0 = Some ?a" "table slot_db [Some ?a, Some ?b] 1 = Some ?b"
    by (simp_all add: slot_table slot_lookup_def)
  have "conflict_key ?a \<noteq> conflict_key ?b" by code_simp
  then have u: "unique_key conflict_key (table slot_db [Some ?a, Some ?b])"
    unfolding slot_table by (auto simp: unique_key_def slot_lookup_def less_Suc_eq split: if_splits)
  have ok: "attribute_pending_conflicts slot_db ''cred'' ''user'' [Some ?a, Some ?b] = (Inr (), ?t')" by code_simp
  have facts: "fr_owner_scope ?a = ''cred''" "fr_owner_scope ?b = ''user''" "fr_app_id ?a = fr_app_id ?b"
    "?a\<lparr>fr_owner_scope := ''user'', fr_revision := fr_revision ?a + 1\<rparr>
       = (conflict_record_new (sample_event ''user'' ''e2'') 8)\<lparr>fr_revision := 1\<rparr>" by code_simp+
  note exact = attribute_pending_conflicts_exact [OF slot_engine u _ _ _ ok]
  have "table slot_db ?t' 0 = Some (?a\<lparr>fr_owner_scope := ''user'', fr_revision := fr_revision ?a + 1\<rparr>)"
    by (subst exact) (simp_all add: look facts(1))
  moreover have "table slot_db ?t' 1 = None"
    by (subst exact) (use look(1) facts in \<open>auto simp: look(2) [simplified]\<close>)
  ultimately show ?thesis unfolding Let_def by (simp only: facts(4))
qed

text \<open>C20: Attributing queued schemas to a scope gives every unattributed row that scope and its next
  revision and leaves the others alone, but it does not replace a row the scope already has: an
  unattributed schema and an attributed one of the same app and language become two rows with one
  identity.\<close>

theorem attribute_pending_schemas_duplicates:
  assumes eng: "structsy_engine db" and scope: "scope \<noteq> []"
    and ok: "attribute_pending_schemas db scope t = (Inr (), t')"
    and a: "table db t i = Some a" "cr_owner_scope a = []"
    and b: "table db t j = Some b" "cr_owner_scope b = scope"
    and same: "cr_app_id a = cr_app_id b" "cr_language a = cr_language b"
  shows "\<not> unique_key schema_key (table db t')"
proof -
  have "table db t' i = Some (a\<lparr>cr_owner_scope := scope, cr_revision := cr_revision a + 1\<rparr>)"
    using attribute_pending_schemas_table [OF eng scope ok, of i] a by simp
  moreover have "table db t' j = Some b"
    using attribute_pending_schemas_table [OF eng scope ok, of j] b scope by simp
  moreover have "i \<noteq> j" using a b scope by auto
  ultimately show ?thesis
    using b(2) same unique_keyD [of schema_key "table db t'" i _ j b] by (auto simp: schema_key_def)
qed

theorem attribute_pending_schemas_duplicates_witness:
  "let t = [Some (schema_record_new (sample_schema []) 1), Some (schema_record_new (sample_schema ''user'') 2)]
   in unique_key schema_key (table slot_db t)
      \<and> \<not> unique_key schema_key (table slot_db (snd (attribute_pending_schemas slot_db ''user'' t)))"
proof -
  let ?a = "schema_record_new (sample_schema []) 1" and ?b = "schema_record_new (sample_schema ''user'') 2"
  have "schema_key ?a \<noteq> schema_key ?b" by code_simp
  then have "unique_key schema_key (table slot_db [Some ?a, Some ?b])"
    unfolding slot_table by (auto simp: unique_key_def slot_lookup_def less_Suc_eq split: if_splits)
  moreover have "\<not> unique_key schema_key (table slot_db (snd (attribute_pending_schemas slot_db ''user'' [Some ?a, Some ?b])))"
  proof (rule attribute_pending_schemas_duplicates [OF slot_engine])
    show "table slot_db [Some ?a, Some ?b] 0 = Some ?a" "table slot_db [Some ?a, Some ?b] 1 = Some ?b"
      by (simp_all add: slot_table slot_lookup_def)
    show "attribute_pending_schemas slot_db ''user'' [Some ?a, Some ?b]
        = (Inr (), snd (attribute_pending_schemas slot_db ''user'' [Some ?a, Some ?b]))" by code_simp
  qed code_simp+
  ultimately show ?thesis by (simp add: Let_def)
qed

text \<open>Storing the owner scope of a backend credential and loading it again returns that scope, and
  the scope of every other credential is the one stored before.\<close>

theorem backend_principal_roundtrip:
  assumes eng: "structsy_engine db" and f: "represents br_credential_fingerprint (table db t) f"
    and ne: "fingerprint \<noteq> []" "scope \<noteq> []"
    and ok: "store_backend_principal_scope db fingerprint scope now t = (Inr (), t')"
  shows "load_backend_principal_scope db other t' =
    (if other = fingerprint then Some scope else load_backend_principal_scope db other t)"
proof -
  have load: "load_backend_principal_scope db k u = (if k = [] then None else map_option br_principal_scope (g k))"
    if g: "represents br_credential_fingerprint (table db u) g" for k u g
  proof (cases "first_row (st_fetch db (\<lambda>r. br_credential_fingerprint r = k) u)")
    case None
    then have "g k = None"
      using structsy_engine.first_fetch_None [OF eng, of "\<lambda>r. br_credential_fingerprint r = k" u] representsE [OF g]
      by (cases "g k") fastforce+
    with None show ?thesis by (simp add: load_backend_principal_scope_def)
  next
    case (Some x)
    obtain i r where x: "x = (i, r)" by fastforce
    have "g k = Some r"
      using structsy_engine.first_fetch_Some [OF eng Some [unfolded x]] representsD [OF g] by auto
    with Some x show ?thesis by (simp add: load_backend_principal_scope_def)
  qed
  show ?thesis
    using load [OF store_principal_represents [OF eng f ok ne], of other] load [OF f, of other] ne by simp
qed

theorem backend_principal_roundtrip_witness:
  "load_backend_principal_scope slot_db ''key'' (snd (store_backend_principal_scope slot_db ''key'' ''user'' 5 [])) = Some ''user''"
proof -
  have f: "represents br_credential_fingerprint (table slot_db []) (\<lambda>_. None)"
    by (simp add: slot_table represents_empty)
  have ok: "store_backend_principal_scope slot_db ''key'' ''user'' 5 []
      = (Inr (), snd (store_backend_principal_scope slot_db ''key'' ''user'' 5 []))" by code_simp
  from backend_principal_roundtrip [OF slot_engine f _ _ ok, of "''key''"] show ?thesis by simp
qed

end
