(* ===== verification/Local_Fs.thy ===== *)
theory Local_Fs
  imports Cloud_Core
begin

text \<open>
  The part of \<open>std::fs\<close> that the local store uses, and the file helpers of
  \<open>crates/cloud-local/src/store.rs\<close> on top of it.  A file system is a tree of named entries; a path is
  the list of its components from the root.  The functions that change it thread a \<open>world\<close>, which
  also holds the nonce counter, the clock, the upload operations that are closed and the coordinations of
  the open repositories, and return the error
  or the value with the world they leave behind, so that an operation that fails half way keeps what it
  had done.  Permissions, durability (\<open>fsync\<close>) and device failures have no effect in the tree.
  Blobs and manifests are never written in place, so a hard link is a second entry with the same
  bytes.
\<close>

section \<open>The tree\<close>

datatype node = File bytes | Dir "(string \<times> node) list" | Special

type_synonym path = "string list"
type_synonym entries = "(string \<times> node) list"

fun lookup :: "node \<Rightarrow> path \<Rightarrow> node option" where
  "lookup n [] = Some n"
| "lookup (Dir es) (c # cs) = opt_bind (map_of es c) (\<lambda>n. lookup n cs)"
| "lookup (File _) (c # cs) = None"
| "lookup Special (c # cs) = None"

fun modify :: "path \<Rightarrow> (entries \<Rightarrow> entries) \<Rightarrow> node \<Rightarrow> node" where
  "modify [] f (Dir es) = Dir (f es)"
| "modify (c # cs) f (Dir es) = Dir (map (\<lambda>(n, x). if n = c then (n, modify cs f x) else (n, x)) es)"
| "modify p f (File b) = File b"
| "modify p f Special = Special"

definition dir_put :: "string \<Rightarrow> node \<Rightarrow> entries \<Rightarrow> entries" where
  "dir_put c x es =
     (if map_of es c = None then es @ [(c, x)]
      else map (\<lambda>(n, y). if n = c then (n, x) else (n, y)) es)"

definition dir_del :: "string \<Rightarrow> entries \<Rightarrow> entries" where
  "dir_del c es = filter (\<lambda>e. fst e \<noteq> c) es"

fun is_dir :: "node \<Rightarrow> bool" where
  "is_dir (Dir _) = True"
| "is_dir _ = False"

fun is_file :: "node \<Rightarrow> bool" where
  "is_file (File _) = True"
| "is_file _ = False"

section \<open>System calls\<close>

datatype io_kind = NotFound | AlreadyExists | NotADirectory | IsADirectory | DirectoryNotEmpty | InvalidInput

fun os_error :: "io_kind \<Rightarrow> string" where
  "os_error NotFound = ''No such file or directory (os error 2)''"
| "os_error AlreadyExists = ''File exists (os error 17)''"
| "os_error NotADirectory = ''Not a directory (os error 20)''"
| "os_error IsADirectory = ''Is a directory (os error 21)''"
| "os_error DirectoryNotEmpty = ''Directory not empty (os error 39)''"
| "os_error InvalidInput = ''the source path is neither a regular file nor a symlink to a regular file''"

definition fs_exists :: "node \<Rightarrow> path \<Rightarrow> bool" where
  "fs_exists fs p \<longleftrightarrow> lookup fs p \<noteq> None"

definition fs_is_dir :: "node \<Rightarrow> path \<Rightarrow> bool" where
  "fs_is_dir fs p \<longleftrightarrow> is_some_and (lookup fs p) is_dir"

definition fs_read_dir :: "node \<Rightarrow> path \<Rightarrow> io_kind + entries" where
  "fs_read_dir fs p = (case lookup fs p of
      None \<Rightarrow> Inl NotFound | Some (Dir es) \<Rightarrow> Inr es | Some _ \<Rightarrow> Inl NotADirectory)"

definition fs_node :: "node \<Rightarrow> path \<Rightarrow> io_kind + node" where
  "fs_node fs p = ok_or NotFound (lookup fs p)"

text \<open>Adding an entry: the parent must be a directory and the name must be free.\<close>

definition fs_create :: "path \<Rightarrow> node \<Rightarrow> node \<Rightarrow> io_kind + node" where
  "fs_create p x fs =
     (if fs_exists fs p then Inl AlreadyExists
      else case lookup fs (butlast p) of
             None \<Rightarrow> Inl NotFound
           | Some (Dir _) \<Rightarrow> Inr (modify (butlast p) (dir_put (last p) x) fs)
           | Some _ \<Rightarrow> Inl NotADirectory)"

definition fs_hard_link :: "path \<Rightarrow> path \<Rightarrow> node \<Rightarrow> io_kind + node" where
  "fs_hard_link source target fs =
     (case lookup fs source of
        None \<Rightarrow> Inl NotFound
      | Some (File b) \<Rightarrow> fs_create target (File b) fs
      | Some _ \<Rightarrow> Inl IsADirectory)"

text \<open>\<open>std::fs::copy\<close> to a name that is free.\<close>

definition fs_copy :: "path \<Rightarrow> path \<Rightarrow> node \<Rightarrow> io_kind + node" where
  "fs_copy source target fs =
     (case lookup fs source of
        None \<Rightarrow> Inl NotFound
      | Some (File b) \<Rightarrow> fs_create target (File b) fs
      | Some _ \<Rightarrow> Inl InvalidInput)"

definition fs_remove_file :: "path \<Rightarrow> node \<Rightarrow> io_kind + node" where
  "fs_remove_file p fs =
     (case lookup fs p of
        None \<Rightarrow> Inl NotFound
      | Some (Dir _) \<Rightarrow> Inl IsADirectory
      | Some _ \<Rightarrow> Inr (modify (butlast p) (dir_del (last p)) fs))"

definition fs_remove_dir_all :: "path \<Rightarrow> node \<Rightarrow> io_kind + node" where
  "fs_remove_dir_all p fs =
     (case lookup fs p of
        None \<Rightarrow> Inl NotFound
      | Some (Dir _) \<Rightarrow> Inr (modify (butlast p) (dir_del (last p)) fs)
      | Some _ \<Rightarrow> Inl NotADirectory)"

text \<open>\<open>rename\<close> replaces a file by a file and an empty directory by a directory.\<close>

definition fs_rename :: "path \<Rightarrow> path \<Rightarrow> node \<Rightarrow> io_kind + node" where
  "fs_rename source target fs =
     (case lookup fs source of
        None \<Rightarrow> Inl NotFound
      | Some x \<Rightarrow>
          if \<not> fs_is_dir fs (butlast target) then Inl NotFound
          else rbind
            (case lookup fs target of
               None \<Rightarrow> Inr ()
             | Some (Dir es) \<Rightarrow> if \<not> is_dir x then Inl IsADirectory
                                 else if es \<noteq> [] then Inl DirectoryNotEmpty else Inr ()
             | Some _ \<Rightarrow> if is_dir x then Inl NotADirectory else Inr ())
            (\<lambda>_. Inr (modify (butlast target) (dir_put (last target) x)
                       (modify (butlast source) (dir_del (last source)) fs))))"

section \<open>Errors\<close>

definition backend_error_new :: "string \<Rightarrow> bool \<Rightarrow> backend_error" where
  "backend_error_new message retryable = \<lparr>be_message = message, be_retryable = retryable\<rparr>"

definition is_retryable :: "backend_error \<Rightarrow> bool" where
  "is_retryable e = be_retryable e"

definition io_error :: "io_kind \<Rightarrow> backend_error" where
  "io_error k = backend_error_new (''local cloud I/O failed: '' @ os_error k) True"

definition json_error :: "string \<Rightarrow> backend_error" where
  "json_error e = backend_error_new (''local cloud metadata failed: '' @ e) False"

definition permanent :: "string \<Rightarrow> backend_error" where
  "permanent message = backend_error_new message False"

definition incomplete :: "string \<Rightarrow> backend_error" where
  "incomplete message = backend_error_new message True"

definition conflict :: "string \<Rightarrow> backend_error" where
  "conflict message = backend_error_new message True"

section \<open>The world\<close>

record world =
  w_fs :: node
  w_next :: u64
  w_pid :: u32
  w_millis :: u64
  w_seconds :: u32
  w_closed :: "path list"
  w_coordinators :: "(path \<times> nat) list"
  w_strong :: "(path \<times> nat) list"
  w_fresh :: nat

type_synonym ('s, 'a) state_result = "'s \<Rightarrow> (backend_error + 'a) \<times> 's"
type_synonym 'a io = "(world, 'a) state_result"

definition io_ret :: "'a \<Rightarrow> ('s, 'a) state_result" where
  "io_ret x w = (Inr x, w)"

definition io_fail :: "backend_error \<Rightarrow> ('s, 'a) state_result" where
  "io_fail e w = (Inl e, w)"

definition io_bind ::
  "('s, 'a) state_result \<Rightarrow> ('a \<Rightarrow> ('s, 'b) state_result) \<Rightarrow> ('s, 'b) state_result" where
  "io_bind m f w = (case m w of (Inl e, w') \<Rightarrow> (Inl e, w') | (Inr x, w') \<Rightarrow> f x w')"

text \<open>A computation that only reads the tree.\<close>

definition io_read :: "(node \<Rightarrow> backend_error + 'a) \<Rightarrow> 'a io" where
  "io_read f w = (f (w_fs w), w)"

definition io_lift :: "backend_error + 'a \<Rightarrow> ('s, 'a) state_result" where
  "io_lift r w = (r, w)"

text \<open>A system call that changes the tree, with its error in the form of the store.\<close>

definition io_step :: "(node \<Rightarrow> io_kind + node) \<Rightarrow> unit io" where
  "io_step f w = (case f (w_fs w) of Inl k \<Rightarrow> (Inl (io_error k), w) | Inr fs \<Rightarrow> (Inr (), w\<lparr>w_fs := fs\<rparr>))"

fun io_for :: "'a list \<Rightarrow> ('a \<Rightarrow> ('s, unit) state_result) \<Rightarrow> ('s, unit) state_result" where
  "io_for [] body = io_ret ()"
| "io_for (x # xs) body = io_bind (body x) (\<lambda>_. io_for xs body)"

text \<open>\<open>let _ = m;\<close> runs \<open>m\<close> and ignores its error.\<close>

definition io_ignore :: "unit io \<Rightarrow> unit io" where
  "io_ignore m w = (Inr (), snd (m w))"

fun hex_of_nat :: "nat \<Rightarrow> string" where
  "hex_of_nat n = (if n < 16 then [digit_char n] else hex_of_nat (n div 16) @ [digit_char (n mod 16)])"

declare hex_of_nat.simps [simp del]

definition next_nonce :: "string io" where
  "next_nonce w =
     (Inr (hex_of_nat (unat (w_pid w)) @ ''-'' @ hex_of_nat (unat (w_millis w)) @ ''-'' @ hex_of_nat (unat (w_next w))),
      w\<lparr>w_next := w_next w + 1\<rparr>)"

section \<open>File helpers of the store\<close>

text \<open>The directories of a path (given in reverse) that do not exist yet, outermost first, and the
  innermost ancestor that does.\<close>

fun missing_dirs :: "node \<Rightarrow> path \<Rightarrow> path list \<times> path" where
  "missing_dirs fs [] = ([], [])"
| "missing_dirs fs (c # up) =
     (if fs_exists fs (rev (c # up)) then ([], rev (c # up))
      else case missing_dirs fs up of (missing, current) \<Rightarrow> (missing @ [rev (c # up)], current))"

definition sync_directory :: "path \<Rightarrow> unit io" where
  "sync_directory p = io_read (\<lambda>fs. if fs_exists fs p then Inr () else Inl (io_error NotFound))"

definition create_durable_dir :: "path \<Rightarrow> unit io" where
  "create_durable_dir p =
     io_bind (\<lambda>w. case fs_create p (Dir []) (w_fs w) of
                 Inr fs \<Rightarrow> (Inr (), w\<lparr>w_fs := fs\<rparr>)
               | Inl AlreadyExists \<Rightarrow>
                   (if fs_is_dir (w_fs w) p then Inr () else Inl (io_error AlreadyExists), w)
               | Inl k \<Rightarrow> (Inl (io_error k), w))
       (\<lambda>_. if p = [] then io_ret () else sync_directory (butlast p))"

definition create_durable_dir_all :: "path \<Rightarrow> unit io" where
  "create_durable_dir_all p =
     (\<lambda>w. case missing_dirs (w_fs w) (rev p) of (missing, current) \<Rightarrow>
        if \<not> fs_is_dir (w_fs w) current
        then (Inl (permanent ''local cloud path parent is not a directory''), w)
        else io_for missing create_durable_dir w)"

definition file_matches_bytes :: "node \<Rightarrow> path \<Rightarrow> bytes \<Rightarrow> io_kind + bool" where
  "file_matches_bytes fs p expected =
     rbind (fs_node fs p) (\<lambda>n. case n of File b \<Rightarrow> Inr (b = expected) | _ \<Rightarrow> Inr False)"

definition read_bounded_file :: "path \<Rightarrow> nat \<Rightarrow> string \<Rightarrow> node \<Rightarrow> backend_error + bytes" where
  "read_bounded_file p maximum label fs =
     rbind (map_err io_error (fs_node fs p)) (\<lambda>n. case n of
         File b \<Rightarrow> if maximum < length b
                    then Inl (permanent (''invalid local cloud '' @ label @ '' file'')) else Inr b
       | _ \<Rightarrow> Inl (permanent (''invalid local cloud '' @ label @ '' file'')))"

definition remove_if_exists :: "path \<Rightarrow> unit io" where
  "remove_if_exists p =
     (\<lambda>w. case fs_remove_file p (w_fs w) of
        Inr fs \<Rightarrow> (if p = [] then io_ret () else sync_directory (butlast p)) (w\<lparr>w_fs := fs\<rparr>)
      | Inl NotFound \<Rightarrow> (Inr (), w)
      | Inl k \<Rightarrow> (Inl (io_error k), w))"

definition remove_dir_all_if_exists :: "path \<Rightarrow> unit io" where
  "remove_dir_all_if_exists p =
     (\<lambda>w. case fs_remove_dir_all p (w_fs w) of
        Inr fs \<Rightarrow> (Inr (), w\<lparr>w_fs := fs\<rparr>)
      | Inl NotFound \<Rightarrow> (Inr (), w)
      | Inl k \<Rightarrow> (Inl (io_error k), w))"

definition temporary_path :: "path \<Rightarrow> string \<Rightarrow> path" where
  "temporary_path parent nonce = parent @ [''.syncthing.'' @ nonce @ ''.tmp'']"

text \<open>The link of a complete temporary file to its final name.\<close>

definition link_temporary :: "path \<Rightarrow> path \<Rightarrow> bytes \<Rightarrow> unit io" where
  "link_temporary temporary p bs w =
     (case fs_hard_link temporary p (w_fs w) of
        Inr fs \<Rightarrow> io_bind (io_step (fs_remove_file temporary)) (\<lambda>_. sync_directory (butlast p))
                    (w\<lparr>w_fs := fs\<rparr>)
      | Inl AlreadyExists \<Rightarrow>
          io_bind (io_ignore (io_step (fs_remove_file temporary))) (\<lambda>_.
          io_bind (io_read (\<lambda>fs. map_err io_error (file_matches_bytes fs p bs))) (\<lambda>same.
          if same then sync_directory (butlast p)
          else io_fail (permanent ''immutable local cloud object collision''))) w
      | Inl k \<Rightarrow>
          io_bind (io_ignore (io_step (fs_remove_file temporary))) (\<lambda>_. io_fail (io_error k)) w)"

definition atomic_publish :: "path \<Rightarrow> bytes \<Rightarrow> unit io" where
  "atomic_publish p bs =
     (\<lambda>w. if fs_exists (w_fs w) p
      then (rbind (map_err io_error (file_matches_bytes (w_fs w) p bs)) (\<lambda>same.
              if same then Inr ()
              else Inl (permanent ''immutable local cloud object already has different bytes'')), w)
      else if p = [] then (Inl (permanent ''local cloud object has no parent directory''), w)
      else io_bind (create_durable_dir_all (butlast p)) (\<lambda>_.
           io_bind next_nonce (\<lambda>nonce.
           io_bind (io_step (fs_create (temporary_path (butlast p) nonce) (File bs))) (\<lambda>_.
           link_temporary (temporary_path (butlast p) nonce) p bs))) w)"

text \<open>The part of \<open>atomic_replace\<close> that follows when the file does not hold the bytes already.\<close>

definition replace_through_temporary :: "path \<Rightarrow> bytes \<Rightarrow> unit io" where
  "replace_through_temporary p bs =
     (if p = [] then io_fail (permanent ''local cloud object has no parent directory'') else
      io_bind (create_durable_dir_all (butlast p)) (\<lambda>_.
      io_bind next_nonce (\<lambda>nonce.
      let temporary = temporary_path (butlast p) nonce in
      io_bind (io_step (fs_create temporary (File bs))) (\<lambda>_ w.
      case fs_rename temporary p (w_fs w) of
        Inr fs \<Rightarrow> sync_directory (butlast p) (w\<lparr>w_fs := fs\<rparr>)
      | Inl k \<Rightarrow> io_bind (io_ignore (io_step (fs_remove_file temporary)))
                  (\<lambda>_. io_fail (io_error k)) w))))"

definition atomic_replace :: "path \<Rightarrow> bytes \<Rightarrow> unit io" where
  "atomic_replace p bs =
     (\<lambda>w. case file_matches_bytes (w_fs w) p bs of
        Inr same \<Rightarrow> if same then (Inr (), w) else replace_through_temporary p bs w
      | Inl k \<Rightarrow> if k = NotFound then replace_through_temporary p bs w else (Inl (io_error k), w))"

text \<open>A hard link that fails is replaced by a copy.\<close>

definition link_or_copy :: "path \<Rightarrow> path \<Rightarrow> unit io" where
  "link_or_copy source target =
     (\<lambda>w. if fs_exists (w_fs w) target then (Inr (), w)
      else case fs_hard_link source target (w_fs w) of
             Inr fs \<Rightarrow> (Inr (), w\<lparr>w_fs := fs\<rparr>)
           | Inl _ \<Rightarrow> io_step (fs_copy source target) w)"

definition clear_work_root :: "path \<Rightarrow> unit io" where
  "clear_work_root p =
     io_bind (io_read (\<lambda>fs. map_err io_error (fs_read_dir fs p))) (\<lambda>es.
     io_bind (io_for es (\<lambda>(name, n). if is_dir n then remove_dir_all_if_exists (p @ [name])
                                      else remove_if_exists (p @ [name]))) (\<lambda>_.
     sync_directory p))"

end
