(* ===== verification/Local_Store.thy ===== *)
theory Local_Store
  imports Local_Fs
begin

text \<open>
  The local save repository of \<open>crates/cloud-local/src/store.rs\<close>.  A repository holds, per account and
  app, one directory per manifest, named by the SHA-256 of the manifest file in it, beside the blobs
  that the manifest names.  Manifests point to their parents; the ones nobody points to are the heads.
  An upload is staged in a private work directory and published by one rename.  SHA-1, SHA-256 and the
  JSON encodings are the fields of a \<open>codec\<close>, a parameter of every operation that uses them; the
  process-wide mutex makes the operations atomic.
\<close>

section \<open>Data\<close>

definition FORMAT_VERSION :: u32 where "FORMAT_VERSION = 1"
definition FORMAT_FILE :: string where "FORMAT_FILE = ''format.json''"
definition MAX_FORMAT_BYTES :: nat where "MAX_FORMAT_BYTES = 64 * 1024"
definition MAX_MANIFEST_BYTES :: nat where "MAX_MANIFEST_BYTES = 16 * 1024 * 1024"
definition MAX_MANIFEST_FILES :: nat where "MAX_MANIFEST_FILES = 100000"
definition MAX_MANIFEST_PARENTS :: nat where "MAX_MANIFEST_PARENTS = 4096"
definition MAX_MANIFEST_OBJECTS :: nat where "MAX_MANIFEST_OBJECTS = 4096"
definition MAX_SAVE_FILE_BYTES :: nat where "MAX_SAVE_FILE_BYTES = 256 * 1024 * 1024"
definition MAX_CLOUD_PATH_BYTES :: nat where "MAX_CLOUD_PATH_BYTES = 4096"
definition MAX_SESSION_RECORD_BYTES :: nat where "MAX_SESSION_RECORD_BYTES = 1024 * 1024"
definition MAX_SESSION_RECORDS :: nat where "MAX_SESSION_RECORDS = 4096"

record folder_store =
  fo_root :: path
  fo_account :: "string option"
  fo_work_root :: path
  fo_coordination :: nat

record stored_file =
  sf_sha1 :: string
  sf_raw_size :: u64
  sf_mtime :: int
  sf_platforms_to_sync :: u32

record save_manifest =
  sm_steam_id64 :: string
  sm_app_id :: u32
  sm_revision :: u64
  sm_parents :: "string list"
  sm_client_id :: u64
  sm_machine_name :: string
  sm_created_at_ms :: u64
  sm_files :: "(string, stored_file) btree"

record save_operation =
  so_coordination :: nat
  so_repository :: path
  so_manifest_scope :: string
  so_app_id :: u32
  so_path :: path
  so_expected_heads :: "string list"
  so_parents :: "string list"
  so_original_files :: "(string, stored_file) btree"
  so_force_publish :: bool
  so_minimum_revision :: u64

record staged_file =
  st_path :: string
  st_blob_sha1 :: string
  st_metadata :: file_metadata

record bound_download =
  bd_file :: bytes
  bd_metadata :: file_metadata

record manifest_candidate =
  mc_id :: string
  mc_revision :: u64
  mc_client_id :: u64
  mc_machine_name :: string
  mc_created_at_ms :: u64
  mc_file_count :: nat
  mc_total_bytes :: u64
  mc_file_names :: "string list"

record store_view =
  sv_current_change_number :: "u64 option"
  sv_max_revision :: u64
  sv_heads :: "manifest_candidate list"

record commit_identity =
  ci_client_id :: u64
  ci_machine_name :: string

record gc_report =
  gr_app_id :: u32
  gr_manifest_scope :: string
  gr_retained_manifests :: "string list"
  gr_candidate_manifests :: "string list"

record gc_sweep =
  gs_deleted_manifests :: nat
  gs_moved_manifests :: "(string \<times> path) list"

record gc_sweep_plan =
  gp_root :: path
  gp_app_id :: u32
  gp_expected_manifests :: "string list"
  gp_candidate_manifests :: "string list"

record session_peer =
  sp_client_id :: u64
  sp_machine_name :: string
  sp_time_last_updated :: u32
  sp_os_type :: "int option"
  sp_device_type :: "int option"

record resolved_app =
  ra_manifests :: "(string, save_manifest) btree"
  ra_heads :: "string list"
  ra_max_revision :: u64

datatype session_status = Active | Suspended

record session_claim =
  sn_app_id :: u32
  sn_client_id :: u64
  sn_machine_name :: string
  sn_os_type :: "int option"
  sn_device_type :: "int option"
  sn_status :: session_status
  sn_observed_heads :: "string list"
  sn_updated_at :: u32
  sn_nonce :: string

record session_override =
  sx_app_id :: u32
  sx_client_id :: u64
  sx_superseded_claims :: "string list"

record codec =
  cd_sha1 :: "bytes \<Rightarrow> bytes"
  cd_sha256 :: "bytes \<Rightarrow> bytes"
  cd_manifest_to_vec :: "save_manifest \<Rightarrow> string + bytes"
  cd_manifest_from_slice :: "bytes \<Rightarrow> save_manifest option"
  cd_claim_to_vec :: "session_claim \<Rightarrow> string + bytes"
  cd_claim_from_slice :: "bytes \<Rightarrow> session_claim option"
  cd_override_to_vec :: "session_override \<Rightarrow> string + bytes"
  cd_override_from_slice :: "bytes \<Rightarrow> session_override option"
  cd_format_to_vec_pretty :: "u32 \<Rightarrow> string + bytes"
  cd_format_from_slice :: "bytes \<Rightarrow> string + u32"

definition hex_digest :: "(bytes \<Rightarrow> bytes) \<Rightarrow> bytes \<Rightarrow> string" where
  "hex_digest D bs = hex_bytes (D bs)"

section \<open>Validation\<close>

definition validate_app_id :: "u32 \<Rightarrow> backend_error + unit" where
  "validate_app_id app_id =
     ensure (app_id \<noteq> 0) (permanent ''local cloud does not support account-scope AppID 0'')"

definition validate_identity :: "commit_identity \<Rightarrow> backend_error + unit" where
  "validate_identity identity =
     rbind (ensure (ci_client_id identity \<noteq> 0) (permanent ''local cloud Steam ClientID is unavailable'')) (\<lambda>_.
     let machine_name = trim (ci_machine_name identity) in
     ensure (\<not> (machine_name = [] \<or> 255 < length machine_name \<or> CHR 0x00 \<in> set machine_name))
       (permanent ''invalid local cloud machine name''))"

definition is_hex_id :: "nat \<Rightarrow> string \<Rightarrow> bool" where
  "is_hex_id n s \<longleftrightarrow> length s = n \<and> list_all is_ascii_hexdigit s"

definition normalized_head_ids :: "string list \<Rightarrow> backend_error + string list" where
  "normalized_head_ids ids =
     (if \<not> list_all (is_hex_id 64) ids then Inl (permanent ''invalid local cloud manifest id'')
      else let normalized = remdups_adj (sort ids) in
        if length normalized \<noteq> length ids then Inl (permanent ''duplicate local cloud manifest id'')
        else Inr normalized)"

definition validate_manifest_id :: "string \<Rightarrow> backend_error + unit" where
  "validate_manifest_id i =
     ensure (length i = 64 \<and> i = to_ascii_lowercase i \<and> list_all is_ascii_hexdigit i)
       (permanent ''invalid local cloud manifest id'')"

definition validate_blob_hash :: "string \<Rightarrow> backend_error + unit" where
  "validate_blob_hash h =
     ensure (length h = 40 \<and> h = to_ascii_lowercase h \<and> list_all is_ascii_hexdigit h)
       (permanent ''invalid local cloud blob hash'')"

definition validate_cloud_path :: "string \<Rightarrow> backend_error + unit" where
  "validate_cloud_path p =
     rbind (ensure (\<not> (p = [] \<or> MAX_CLOUD_PATH_BYTES < length p \<or> starts_with p ''/''
                       \<or> CHR 0x00 \<in> set p \<or> CHR 0x5C \<in> set p))
              (permanent ''invalid local cloud path'')) (\<lambda>_.
     ensure (\<not> list_ex (\<lambda>part. part = [] \<or> part = ''.'' \<or> part = ''..'') (split_on CHR ''/'' p))
       (permanent ''invalid local cloud path component''))"

definition validate_metadata :: "codec \<Rightarrow> bytes \<Rightarrow> file_metadata \<Rightarrow> backend_error + unit" where
  "validate_metadata cd contents metadata =
     rbind (ensure (unat (fm_raw_size metadata) \<le> MAX_SAVE_FILE_BYTES)
              (permanent ''local cloud file exceeds the supported size'')) (\<lambda>_.
     rbind (ensure (length contents = unat (fm_raw_size metadata))
              (permanent ''local cloud raw size does not match contents'')) (\<lambda>_.
     rbind (ensure (is_hex_id 40 (fm_sha1 metadata)) (permanent ''local cloud SHA-1 is invalid'')) (\<lambda>_.
     ensure (hex_digest (cd_sha1 cd) contents = to_ascii_lowercase (fm_sha1 metadata))
       (permanent ''local cloud SHA-1 does not match contents''))))"

definition validate_manifest_file ::
  "string \<times> stored_file \<Rightarrow> (string \<times> u64) list \<Rightarrow> backend_error + (string \<times> u64) list" where
  "validate_manifest_file = (\<lambda>(p, file) blob_sizes.
     rbind (validate_cloud_path p) (\<lambda>_.
     rbind (ensure (\<not> (length (sf_sha1 file) \<noteq> 40 \<or> \<not> list_all is_ascii_hexdigit (sf_sha1 file)
                       \<or> sf_sha1 file \<noteq> to_ascii_lowercase (sf_sha1 file)
                       \<or> MAX_SAVE_FILE_BYTES < unat (sf_raw_size file) \<or> sf_mtime file < 0))
              (permanent ''invalid local cloud manifest file'')) (\<lambda>_.
     if is_some_and (map_of blob_sizes (sf_sha1 file)) (\<lambda>size. size \<noteq> sf_raw_size file)
     then Inl (permanent ''inconsistent local cloud blob metadata'')
     else Inr ((sf_sha1 file, sf_raw_size file) # blob_sizes))))"

definition validate_manifest :: "string \<Rightarrow> string \<Rightarrow> u32 \<Rightarrow> save_manifest \<Rightarrow> backend_error + unit" where
  "validate_manifest i steam_id64 app_id manifest =
     rbind (ensure (\<not> (sm_steam_id64 manifest \<noteq> steam_id64 \<or> sm_app_id manifest \<noteq> app_id
                       \<or> sm_revision manifest = 0 \<or> MAX_MANIFEST_FILES < length (sm_files manifest)
                       \<or> MAX_MANIFEST_PARENTS < length (sm_parents manifest)))
              (permanent ''invalid local cloud manifest'')) (\<lambda>_.
     rbind (validate_identity \<lparr>ci_client_id = sm_client_id manifest, ci_machine_name = sm_machine_name manifest\<rparr>) (\<lambda>_.
     rbind (normalized_head_ids (sm_parents manifest)) (\<lambda>parents.
     rbind (ensure (\<not> (parents \<noteq> sm_parents manifest \<or> i \<in> set parents))
              (permanent ''invalid local cloud manifest parents'')) (\<lambda>_.
     rbind (rfold validate_manifest_file (sm_files manifest) []) (\<lambda>_. Inr ())))))"

definition validate_session_claim :: "u32 \<Rightarrow> session_claim \<Rightarrow> backend_error + unit" where
  "validate_session_claim app_id claim =
     rbind (ensure (\<not> (sn_app_id claim \<noteq> app_id \<or> sn_nonce claim = [] \<or> sn_updated_at claim = 0))
              (permanent ''invalid local cloud session claim'')) (\<lambda>_.
     rbind (validate_identity \<lparr>ci_client_id = sn_client_id claim, ci_machine_name = sn_machine_name claim\<rparr>) (\<lambda>_.
     rbind (normalized_head_ids (sn_observed_heads claim)) (\<lambda>heads.
     ensure (heads = sn_observed_heads claim) (permanent ''invalid local cloud session heads''))))"

definition validate_session_override :: "u32 \<Rightarrow> session_override \<Rightarrow> backend_error + unit" where
  "validate_session_override app_id r =
     (if sx_app_id r \<noteq> app_id \<or> sx_client_id r = 0
      then Inl (permanent ''invalid local cloud session override'')
      else rbind (normalized_head_ids (sx_superseded_claims r)) (\<lambda>ids.
        ensure (ids = sx_superseded_claims r) (permanent ''invalid local cloud session override'')))"

definition current_identity :: "device_descriptor option \<Rightarrow> backend_error + commit_identity" where
  "current_identity descriptor =
     rbind (ok_or (permanent ''local cloud device identity is unavailable'') descriptor) (\<lambda>d.
     let identity = \<lparr>ci_client_id = dd_client_id d, ci_machine_name = dd_machine_name d\<rparr> in
     rbind (validate_identity identity) (\<lambda>_. Inr identity))"

definition unique_items :: "string list \<Rightarrow> backend_error + string list" where
  "unique_items items =
     (let unique = bts_of_list items in
      if length unique \<noteq> length items then Inl (permanent ''invalid local cloud GC report'') else Inr unique)"

definition is_non_manifest_app_entry :: "string \<Rightarrow> bool" where
  "is_non_manifest_app_entry name \<longleftrightarrow> name = ''sessions'' \<or> name = ''stats'' \<or> name = ''playtime''"

section \<open>Paths\<close>

definition app_dir :: "folder_store \<Rightarrow> u32 \<Rightarrow> path" where
  "app_dir store app_id =
     fo_root store @ (case fo_account store of None \<Rightarrow> [] | Some account \<Rightarrow> [account])
       @ [nat_to_string (unat app_id)]"

definition manifest_scope :: "folder_store \<Rightarrow> u32 \<Rightarrow> string" where
  "manifest_scope store app_id =
     (case fo_account store of
        Some account \<Rightarrow> account @ ''/'' @ nat_to_string (unat app_id)
      | None \<Rightarrow> nat_to_string (unat app_id))"

definition manifest_account :: "folder_store \<Rightarrow> backend_error + string" where
  "manifest_account store = ok_or (permanent ''local cloud save store requires an account'') (fo_account store)"

definition manifest_dir :: "folder_store \<Rightarrow> u32 \<Rightarrow> string \<Rightarrow> backend_error + path" where
  "manifest_dir store app_id i =
     rbind (validate_app_id app_id) (\<lambda>_.
     rbind (validate_manifest_id i) (\<lambda>_. Inr (app_dir store app_id @ [i])))"

definition manifest_blob_path :: "folder_store \<Rightarrow> u32 \<Rightarrow> string \<Rightarrow> string \<Rightarrow> backend_error + path" where
  "manifest_blob_path store app_id manifest_id h =
     rbind (validate_blob_hash h) (\<lambda>_.
     rbind (manifest_dir store app_id manifest_id) (\<lambda>p. Inr (p @ [''blobs'', h])))"

definition operation_blob_path :: "path \<Rightarrow> string \<Rightarrow> backend_error + path" where
  "operation_blob_path operation h = rbind (validate_blob_hash h) (\<lambda>_. Inr (operation @ [''blobs'', h]))"

definition lock_app :: "u32 \<Rightarrow> backend_error + unit" where
  "lock_app app_id = validate_app_id app_id"

section \<open>Blobs\<close>

definition stored_file_from_metadata :: "file_metadata \<Rightarrow> stored_file" where
  "stored_file_from_metadata m =
     \<lparr>sf_sha1 = fm_sha1 m, sf_raw_size = fm_raw_size m, sf_mtime = fm_mtime m,
      sf_platforms_to_sync = fm_platforms_to_sync m\<rparr>"

definition metadata_from_stored_file :: "stored_file \<Rightarrow> file_metadata" where
  "metadata_from_stored_file file =
     \<lparr>fm_sha1 = sf_sha1 file, fm_raw_size = sf_raw_size file, fm_mtime = sf_mtime file,
      fm_platforms_to_sync = sf_platforms_to_sync file\<rparr>"

definition verify_blob_bytes :: "codec \<Rightarrow> stored_file \<Rightarrow> bytes \<Rightarrow> backend_error + unit" where
  "verify_blob_bytes cd file bs =
     ensure (length bs = unat (sf_raw_size file) \<and> hex_digest (cd_sha1 cd) bs = sf_sha1 file)
       (permanent ''local cloud blob failed integrity verification'')"

definition open_blob_file :: "path \<Rightarrow> stored_file \<Rightarrow> node \<Rightarrow> backend_error + bytes" where
  "open_blob_file p expected fs =
     rbind (ensure (unat (sf_raw_size expected) \<le> MAX_SAVE_FILE_BYTES)
              (permanent ''local cloud file exceeds the supported size'')) (\<lambda>_.
     rbind (map_err io_error (fs_node fs p)) (\<lambda>n. case n of
         File b \<Rightarrow> if length b = unat (sf_raw_size expected) then Inr b
                    else Inl (permanent ''local cloud blob failed integrity verification'')
       | _ \<Rightarrow> Inl (permanent ''local cloud blob failed integrity verification'')))"

definition verify_blob_file :: "codec \<Rightarrow> path \<Rightarrow> stored_file \<Rightarrow> node \<Rightarrow> backend_error + unit" where
  "verify_blob_file cd p expected fs =
     rbind (open_blob_file p expected fs) (\<lambda>b.
     ensure (hex_digest (cd_sha1 cd) b = sf_sha1 expected)
       (permanent ''local cloud blob failed integrity verification''))"

definition bound_download_read :: "codec \<Rightarrow> bound_download \<Rightarrow> backend_error + bytes" where
  "bound_download_read cd d =
     (let bs = take (Suc (unat (fm_raw_size (bd_metadata d)))) (bd_file d) in
      rbind (verify_blob_bytes cd (stored_file_from_metadata (bd_metadata d)) bs) (\<lambda>_. Inr bs))"

section \<open>Reading the repository\<close>

definition validate_manifest_directory :: "path \<Rightarrow> node \<Rightarrow> backend_error + unit" where
  "validate_manifest_directory p fs =
     rbind (map_err io_error (fs_read_dir fs p)) (\<lambda>es.
     rbind (rfold (\<lambda>(name, n) (count, has_manifest, has_blobs).
              if \<not> utf8_valid (as_bytes name) then Inl (incomplete ''local cloud manifest entry is not UTF-8'')
              else if 2 < Suc count then Inl (incomplete ''local cloud manifest directory is incomplete'')
              else Inr (Suc count, has_manifest \<or> name = ''manifest.json'' \<and> is_file n,
                        has_blobs \<or> name = ''blobs'' \<and> is_dir n)) es (0, False, False))
       (\<lambda>(count, has_manifest, has_blobs).
     ensure (count = 2 \<and> has_manifest \<and> has_blobs)
       (incomplete ''local cloud manifest directory is incomplete'')))"

fun node_len :: "node \<Rightarrow> nat" where
  "node_len (File b) = length b"
| "node_len _ = 0"

definition validate_manifest_blob ::
  "(string, u64) btree \<Rightarrow> string \<times> node \<Rightarrow> string list \<Rightarrow> backend_error + string list" where
  "validate_manifest_blob expected = (\<lambda>(name, n) actual.
     if \<not> is_file n then Inl (incomplete ''local cloud manifest blob set is incomplete'')
     else if \<not> utf8_valid (as_bytes name) then Inl (incomplete ''local cloud blob name is not UTF-8'')
     else if length name \<noteq> 40 \<or> name \<noteq> to_ascii_lowercase name \<or> \<not> list_all is_ascii_hexdigit name
     then Inl (incomplete ''invalid local cloud blob name'')
     else case map_of expected name of
            None \<Rightarrow> Inl (incomplete ''local cloud manifest blob set is incomplete'')
          | Some expected_size \<Rightarrow>
              if node_len n \<noteq> unat expected_size
              then Inl (incomplete ''local cloud manifest blob set is incomplete'')
              else Inr (bts_insert name actual))"

definition validate_manifest_blobs ::
  "path \<Rightarrow> (string, stored_file) btree \<Rightarrow> node \<Rightarrow> backend_error + unit" where
  "validate_manifest_blobs directory files fs =
     (let expected = bt_of_list (map (\<lambda>(_, file). (sf_sha1 file, sf_raw_size file)) files) in
      rbind (map_err io_error (fs_read_dir fs directory)) (\<lambda>es.
      rbind (rfold (validate_manifest_blob expected) es []) (\<lambda>actual.
      ensure (actual = map fst expected) (incomplete ''local cloud manifest blob set is incomplete''))))"

definition collect_manifest_entry ::
  "codec \<Rightarrow> path \<Rightarrow> string \<Rightarrow> u32 \<Rightarrow> node \<Rightarrow> string \<times> node \<Rightarrow> (string, save_manifest) btree
     \<Rightarrow> backend_error + (string, save_manifest) btree" where
  "collect_manifest_entry cd app_directory steam_id64 app_id fs = (\<lambda>(name, n) manifests.
     let p = app_directory @ [name] in
     if \<not> utf8_valid (as_bytes name) then Inl (incomplete ''local cloud manifest name is not UTF-8'')
     else if is_non_manifest_app_entry name then Inr manifests
     else if MAX_MANIFEST_OBJECTS \<le> length manifests then Inl (permanent ''too many local cloud manifests'')
     else if \<not> is_dir n \<or> \<not> is_ok (validate_manifest_id name)
     then Inl (incomplete ''local cloud manifest namespace is incomplete'')
     else rbind (validate_manifest_directory p fs) (\<lambda>_.
       rbind (read_bounded_file (p @ [''manifest.json'']) MAX_MANIFEST_BYTES ''manifest'' fs) (\<lambda>bs.
       rbind (ensure (hex_digest (cd_sha256 cd) bs = name)
                (incomplete ''local cloud manifest identity is invalid'')) (\<lambda>_.
       rbind (ok_or (incomplete ''local cloud manifest is incomplete'') (cd_manifest_from_slice cd bs)) (\<lambda>manifest.
       rbind (validate_manifest name steam_id64 app_id manifest) (\<lambda>_.
       rbind (validate_manifest_blobs (p @ [''blobs'']) (sm_files manifest) fs) (\<lambda>_.
       if map_of manifests name \<noteq> None
       then Inl (permanent ''duplicate local cloud manifest identity'')
       else Inr (bt_insert name manifest manifests))))))))"

definition collect_manifest_objects ::
  "codec \<Rightarrow> path \<Rightarrow> string \<Rightarrow> u32 \<Rightarrow> node \<Rightarrow> backend_error + (string, save_manifest) btree" where
  "collect_manifest_objects cd app_directory steam_id64 app_id fs =
     (if \<not> fs_exists fs app_directory then Inr []
      else rbind (map_err io_error (fs_read_dir fs app_directory)) (\<lambda>es.
        rfold (collect_manifest_entry cd app_directory steam_id64 app_id fs) es []))"

definition collect_manifest_path :: "string \<times> node \<Rightarrow> string list \<Rightarrow> backend_error + string list" where
  "collect_manifest_path = (\<lambda>(name, n) paths.
     if \<not> utf8_valid (as_bytes name) then Inl (incomplete ''local cloud manifest name is not UTF-8'')
     else if is_non_manifest_app_entry name then Inr paths
     else if MAX_MANIFEST_OBJECTS \<le> length paths then Inl (permanent ''too many local cloud manifests'')
     else if \<not> is_dir n \<or> \<not> is_ok (validate_manifest_id name)
     then Inl (incomplete ''local cloud manifest namespace is incomplete'')
     else if name \<in> set paths then Inl (permanent ''duplicate local cloud manifest identity'')
     else Inr (bts_insert name paths))"

definition collect_manifest_paths :: "path \<Rightarrow> node \<Rightarrow> backend_error + string list" where
  "collect_manifest_paths app_directory fs =
     (if \<not> fs_exists fs app_directory then Inr []
      else rbind (map_err io_error (fs_read_dir fs app_directory)) (\<lambda>es. rfold collect_manifest_path es []))"

definition store_manifest_objects ::
  "codec \<Rightarrow> folder_store \<Rightarrow> u32 \<Rightarrow> node \<Rightarrow> backend_error + (string, save_manifest) btree" where
  "store_manifest_objects cd store app_id fs =
     rbind (manifest_account store) (\<lambda>account.
       collect_manifest_objects cd (app_dir store app_id) account app_id fs)"

text \<open>The identifiers that some manifest names as a parent, the heads and the greatest revision.\<close>

definition parent_ids :: "(string, save_manifest) btree \<Rightarrow> string list" where
  "parent_ids manifests = concat (map (\<lambda>(_, m). sm_parents m) manifests)"

definition head_ids_of :: "(string, save_manifest) btree \<Rightarrow> string list" where
  "head_ids_of manifests = sort (filter (\<lambda>i. i \<notin> set (parent_ids manifests)) (map fst manifests))"

definition max_revision_of :: "(string, save_manifest) btree \<Rightarrow> u64" where
  "max_revision_of manifests = fold (\<lambda>(_, m). max (sm_revision m)) manifests 0"

definition resolve_app :: "codec \<Rightarrow> folder_store \<Rightarrow> u32 \<Rightarrow> node \<Rightarrow> backend_error + resolved_app" where
  "resolve_app cd store app_id fs =
     rbind (validate_app_id app_id) (\<lambda>_.
     rbind (store_manifest_objects cd store app_id fs) (\<lambda>manifests.
     Inr \<lparr>ra_manifests = manifests, ra_heads = head_ids_of manifests,
          ra_max_revision = max_revision_of manifests\<rparr>))"

definition the_manifest :: "(string, save_manifest) btree \<Rightarrow> string \<Rightarrow> save_manifest" where
  "the_manifest manifests i = the (map_of manifests i)"

definition current :: "resolved_app \<Rightarrow> backend_error + (string \<times> save_manifest) option" where
  "current r = (case ra_heads r of
      [] \<Rightarrow> Inr None
    | [i] \<Rightarrow> Inr (Some (i, the_manifest (ra_manifests r) i))
    | _ \<Rightarrow> Inl (conflict ''local cloud has unresolved manifest heads''))"

definition manifest_candidate_of :: "(string, save_manifest) btree \<Rightarrow> string \<Rightarrow> manifest_candidate" where
  "manifest_candidate_of manifests i =
     (let m = the_manifest manifests i in
      \<lparr>mc_id = i, mc_revision = sm_revision m, mc_client_id = sm_client_id m,
       mc_machine_name = sm_machine_name m, mc_created_at_ms = sm_created_at_ms m,
       mc_file_count = length (sm_files m),
       mc_total_bytes = fold (\<lambda>(_, file) total. u64_saturating_add total (sf_raw_size file)) (sm_files m) 0,
       mc_file_names = take 8 (map fst (sm_files m))\<rparr>)"

definition view_unlocked :: "codec \<Rightarrow> folder_store \<Rightarrow> u32 \<Rightarrow> node \<Rightarrow> backend_error + store_view" where
  "view_unlocked cd store app_id fs =
     rbind (resolve_app cd store app_id fs) (\<lambda>r. Inr
       \<lparr>sv_current_change_number = (case ra_heads r of
            [] \<Rightarrow> Some 0
          | [i] \<Rightarrow> Some (sm_revision (the_manifest (ra_manifests r) i))
          | _ \<Rightarrow> None),
        sv_max_revision = ra_max_revision r,
        sv_heads = map (manifest_candidate_of (ra_manifests r)) (ra_heads r)\<rparr>)"

definition view :: "codec \<Rightarrow> folder_store \<Rightarrow> u32 \<Rightarrow> node \<Rightarrow> backend_error + store_view" where
  "view cd store app_id fs =
     rbind (validate_app_id app_id) (\<lambda>_. rbind (lock_app app_id) (\<lambda>_. view_unlocked cd store app_id fs))"

definition head_ids :: "store_view \<Rightarrow> string list" where
  "head_ids v = map mc_id (sv_heads v)"

definition is_conflicted :: "store_view \<Rightarrow> bool" where
  "is_conflicted v \<longleftrightarrow> sv_current_change_number v = None"

definition change_list_from_manifest :: "save_manifest option \<Rightarrow> u64 \<Rightarrow> bool \<Rightarrow> backend_error + change_list" where
  "change_list_from_manifest manifest since force_full =
     (let current_revision = (case manifest of None \<Rightarrow> 0 | Some m \<Rightarrow> sm_revision m) in
      if current_revision < since
      then Inl (conflict ''Steam change number is newer than the local manifest view'')
      else if since = current_revision \<and> \<not> force_full
      then Inr \<lparr>cl_current_change_number = current_revision, cl_files = [], cl_deleted_paths = [],
                cl_is_delta = True\<rparr>
      else Inr \<lparr>cl_current_change_number = current_revision,
                cl_files = map (\<lambda>(p, file). \<lparr>fe_path = p, fe_metadata = metadata_from_stored_file file,
                                              fe_change_number = current_revision\<rparr>)
                             (case manifest of None \<Rightarrow> [] | Some m \<Rightarrow> sm_files m),
                cl_deleted_paths = [], cl_is_delta = False\<rparr>)"

definition changes_from_head ::
  "codec \<Rightarrow> folder_store \<Rightarrow> u32 \<Rightarrow> string \<Rightarrow> u64 \<Rightarrow> node \<Rightarrow> backend_error + change_list" where
  "changes_from_head cd store app_id head since fs =
     rbind (validate_app_id app_id) (\<lambda>_.
     rbind (lock_app app_id) (\<lambda>_.
     rbind (resolve_app cd store app_id fs) (\<lambda>r.
     rbind (ensure (head \<in> set (ra_heads r))
              (conflict ''selected local cloud manifest is not an active head'')) (\<lambda>_.
     rbind (ok_or (incomplete ''selected local cloud manifest is unavailable'') (map_of (ra_manifests r) head))
       (\<lambda>m. change_list_from_manifest (Some m) since True)))))"

definition changes_since :: "codec \<Rightarrow> folder_store \<Rightarrow> u32 \<Rightarrow> u64 \<Rightarrow> node \<Rightarrow> backend_error + change_list" where
  "changes_since cd store app_id since fs =
     rbind (lock_app app_id) (\<lambda>_.
     rbind (resolve_app cd store app_id fs) (\<lambda>r.
     rbind (current r) (\<lambda>c. change_list_from_manifest (map_option snd c) since False)))"

definition quota_of :: "codec \<Rightarrow> folder_store \<Rightarrow> u32 \<Rightarrow> node \<Rightarrow> backend_error + quota" where
  "quota_of cd store app_id fs =
     rbind (lock_app app_id) (\<lambda>_.
     rbind (resolve_app cd store app_id fs) (\<lambda>r.
     rbind (current r) (\<lambda>c.
     let files = (case c of None \<Rightarrow> [] | Some (_, m) \<Rightarrow> sm_files m) in
     rbind (rfold (\<lambda>(_, file) total.
              ok_or (permanent ''local cloud quota overflow'') (u64_checked_add total (sf_raw_size file)))
            files 0) (\<lambda>used_bytes.
     rbind (ensure (length files < 2 ^ 32) (permanent ''local cloud file count overflow'')) (\<lambda>_.
     Inr \<lparr>qt_used_bytes = used_bytes, qt_total_bytes = of_int i64_max,
          qt_used_files = of_nat (length files), qt_total_files = - 1\<rparr>)))))"

definition current_manifest ::
  "codec \<Rightarrow> folder_store \<Rightarrow> u32 \<Rightarrow> node \<Rightarrow> backend_error + (string \<times> save_manifest) option" where
  "current_manifest cd store app_id fs = rbind (resolve_app cd store app_id fs) current"

definition bind_download ::
  "codec \<Rightarrow> folder_store \<Rightarrow> u32 \<Rightarrow> string \<Rightarrow> node \<Rightarrow> backend_error + (file_entry \<times> bound_download)" where
  "bind_download cd store app_id p fs =
     rbind (validate_cloud_path p) (\<lambda>_.
     rbind (lock_app app_id) (\<lambda>_.
     rbind (current_manifest cd store app_id fs) (\<lambda>c.
     rbind (ok_or (permanent ''local cloud file not found'') c) (\<lambda>(i, m).
     rbind (ok_or (permanent (''local cloud file not found: '' @ p)) (map_of (sm_files m) p)) (\<lambda>file.
     rbind (manifest_blob_path store app_id i (sf_sha1 file)) (\<lambda>blob_path.
     rbind (open_blob_file blob_path file fs) (\<lambda>handle.
     Inr (\<lparr>fe_path = p, fe_metadata = metadata_from_stored_file file, fe_change_number = sm_revision m\<rparr>,
          \<lparr>bd_file = handle, bd_metadata = metadata_from_stored_file file\<rparr>))))))))"

definition byte_store_read :: "codec \<Rightarrow> folder_store \<Rightarrow> u32 \<Rightarrow> string \<Rightarrow> node \<Rightarrow> backend_error + bytes" where
  "byte_store_read cd store app_id p fs =
     rbind (bind_download cd store app_id p fs) (\<lambda>(_, d). bound_download_read cd d)"

end
