(* ===== verification/Local_Operations.thy ===== *)
theory Local_Operations
  imports Local_Store
begin

text \<open>
  The operations of the local store that change the repository (\<open>crates/cloud-local/src/store.rs\<close>):
  upload operations from \<open>begin_operation\<close> to \<open>commit_operation\<close>, conflict resolution, the
  garbage-collection sweep and play sessions.  An operation in progress is a
  \<open>save_operation\<close>; the one mutable field of the code's value, its \<open>closed\<close> flag, is the
  membership of its path in the closed operations of the world.
\<close>

section \<open>Upload operations\<close>

definition validate_operation :: "folder_store \<Rightarrow> save_operation \<Rightarrow> backend_error + unit" where
  "validate_operation store op =
     ensure (\<not> (so_repository op \<noteq> fo_root store
                \<or> so_manifest_scope op \<noteq> manifest_scope store (so_app_id op)
                \<or> so_coordination op \<noteq> fo_coordination store))
       (permanent ''local cloud operation belongs to another store'')"

definition operation_closed :: "save_operation \<Rightarrow> world \<Rightarrow> bool" where
  "operation_closed op w \<longleftrightarrow> so_path op \<in> set (w_closed w)"

definition close_operation :: "save_operation \<Rightarrow> unit io" where
  "close_operation op w = (Inr (), w\<lparr>w_closed := so_path op # w_closed w\<rparr>)"

definition ensure_open :: "save_operation \<Rightarrow> unit io" where
  "ensure_open op w =
     (if operation_closed op w then Inl (permanent ''local cloud operation is closed'') else Inr (), w)"

definition operation_abort :: "save_operation \<Rightarrow> unit io" where
  "operation_abort op w =
     (if operation_closed op w then (Inr (), w)
      else io_bind (close_operation op) (\<lambda>_.
           io_bind (remove_dir_all_if_exists (so_path op)) (\<lambda>_.
           if so_path op = [] then io_ret () else sync_directory (butlast (so_path op)))) w)"

definition drop_operation :: "save_operation \<Rightarrow> unit io" where
  "drop_operation op w =
     (if operation_closed op w then (Inr (), w)
      else io_bind (io_ignore (remove_dir_all_if_exists (so_path op))) (\<lambda>_.
           if so_path op = [] then io_ret () else io_ignore (sync_directory (butlast (so_path op)))) w)"

text \<open>What a new operation starts from: its parents, the manifest whose blobs it links, its files and
  whether it publishes even without a change.\<close>

definition operation_base ::
  "resolved_app \<Rightarrow> string list \<Rightarrow> string list option
     \<Rightarrow> backend_error + (string list \<times> string option \<times> (string, stored_file) btree \<times> bool)" where
  "operation_base r base_heads resolution_heads =
     (case resolution_heads of
        Some expected \<Rightarrow>
          rbind (ensure (\<not> (length expected < 2 \<or> ra_heads r \<noteq> expected))
                   (conflict ''local cloud conflict heads changed before resolution'')) (\<lambda>_.
          case base_heads of
            [i] \<Rightarrow>
              rbind (ok_or (permanent ''selected local conflict manifest is not an active head'')
                       (map_of (ra_manifests r) i)) (\<lambda>m.
              Inr (expected, Some i, sm_files m, True))
          | _ \<Rightarrow> Inl (permanent ''local conflict resolution requires one selected base''))
      | None \<Rightarrow>
          rbind (ensure (ra_heads r = base_heads)
                   (conflict ''local cloud changed after the upload batch began'')) (\<lambda>_.
          rbind (ensure (\<not> 1 < length (ra_heads r))
                   (conflict ''ordinary upload cannot cover unresolved manifest heads'')) (\<lambda>_.
          rbind (current r) (\<lambda>c.
          Inr (base_heads, (case base_heads of [] \<Rightarrow> None | i # _ \<Rightarrow> Some i),
               (case c of None \<Rightarrow> [] | Some (_, m) \<Rightarrow> sm_files m), False)))))"

fun link_blobs :: "folder_store \<Rightarrow> u32 \<Rightarrow> string \<Rightarrow> path \<Rightarrow> stored_file list \<Rightarrow> string list \<Rightarrow> unit io" where
  "link_blobs store app_id selected operation_path [] copied = io_ret ()"
| "link_blobs store app_id selected operation_path (file # files) copied =
     (if sf_sha1 file \<in> set copied then link_blobs store app_id selected operation_path files copied
      else io_bind (io_lift (manifest_blob_path store app_id selected (sf_sha1 file))) (\<lambda>source.
           io_bind (io_lift (operation_blob_path operation_path (sf_sha1 file))) (\<lambda>target.
           io_bind (link_or_copy source target) (\<lambda>_.
           link_blobs store app_id selected operation_path files (sf_sha1 file # copied)))))"

definition begin_operation_with_revision ::
  "codec \<Rightarrow> folder_store \<Rightarrow> u32 \<Rightarrow> string list \<Rightarrow> string list option \<Rightarrow> u64 \<Rightarrow> save_operation io" where
  "begin_operation_with_revision cd store app_id base_heads resolution_heads minimum_revision =
     io_bind (io_lift (validate_app_id app_id)) (\<lambda>_.
     io_bind (io_lift (lock_app app_id)) (\<lambda>_.
     io_bind (io_read (resolve_app cd store app_id)) (\<lambda>r.
     io_bind (io_lift (normalized_head_ids base_heads)) (\<lambda>base_heads.
     io_bind (io_lift (case resolution_heads of
                None \<Rightarrow> Inr None
              | Some hs \<Rightarrow> rbind (normalized_head_ids hs) (\<lambda>hs. Inr (Some hs)))) (\<lambda>resolution_heads.
     io_bind (io_lift (operation_base r base_heads resolution_heads))
       (\<lambda>(parents, selected, original_files, force_publish).
     io_bind next_nonce (\<lambda>nonce.
     let operation_path = fo_work_root store @ [''operation-'' @ nonce] in
     io_bind (create_durable_dir_all (operation_path @ [''blobs''])) (\<lambda>_.
     io_bind (case selected of
                None \<Rightarrow> io_ret ()
              | Some i \<Rightarrow>
                  io_bind (link_blobs store app_id i operation_path (map snd original_files) []) (\<lambda>_.
                  sync_directory (operation_path @ [''blobs'']))) (\<lambda>_.
     io_ret \<lparr>so_coordination = fo_coordination store, so_repository = fo_root store,
              so_manifest_scope = manifest_scope store app_id, so_app_id = app_id,
              so_path = operation_path,
              so_expected_heads = (case resolution_heads of None \<Rightarrow> base_heads | Some hs \<Rightarrow> hs),
              so_parents = parents, so_original_files = original_files,
              so_force_publish = force_publish, so_minimum_revision = minimum_revision\<rparr>)))))))))"

definition begin_operation ::
  "codec \<Rightarrow> folder_store \<Rightarrow> u32 \<Rightarrow> string list \<Rightarrow> string list option \<Rightarrow> save_operation io" where
  "begin_operation cd store app_id base_heads resolution_heads =
     begin_operation_with_revision cd store app_id base_heads resolution_heads 0"

definition stage_file ::
  "codec \<Rightarrow> folder_store \<Rightarrow> save_operation \<Rightarrow> string \<Rightarrow> bytes \<Rightarrow> file_metadata \<Rightarrow> staged_file io" where
  "stage_file cd store op p contents metadata =
     io_bind (io_lift (validate_operation store op)) (\<lambda>_.
     io_bind (ensure_open op) (\<lambda>_.
     io_bind (io_lift (validate_cloud_path p)) (\<lambda>_.
     io_bind (io_lift (validate_metadata cd contents metadata)) (\<lambda>_.
     let blob_sha1 = to_ascii_lowercase (fm_sha1 metadata) in
     io_bind (io_lift (operation_blob_path (so_path op) blob_sha1)) (\<lambda>target.
     io_bind (atomic_publish target contents) (\<lambda>_.
     io_ret \<lparr>st_path = p, st_blob_sha1 = blob_sha1, st_metadata = metadata\<rparr>))))))"

definition remove_deleted ::
  "string list \<Rightarrow> (string, stored_file) btree \<Rightarrow> backend_error + (string, stored_file) btree" where
  "remove_deleted = rfold (\<lambda>p files. rbind (validate_cloud_path p) (\<lambda>_. Inr (bt_remove p files)))"

definition insert_staged ::
  "staged_file list \<Rightarrow> (string, stored_file) btree \<Rightarrow> backend_error + (string, stored_file) btree" where
  "insert_staged = rfold (\<lambda>s files. rbind (validate_cloud_path (st_path s)) (\<lambda>_.
     Inr (bt_insert (st_path s)
            \<lparr>sf_sha1 = st_blob_sha1 s, sf_raw_size = fm_raw_size (st_metadata s),
             sf_mtime = fm_mtime (st_metadata s),
             sf_platforms_to_sync = fm_platforms_to_sync (st_metadata s)\<rparr> files)))"

definition prune_operation_blobs :: "save_operation \<Rightarrow> (string, stored_file) btree \<Rightarrow> unit io" where
  "prune_operation_blobs op files =
     (let retained = map (\<lambda>(_, file). sf_sha1 file) files; directory = so_path op @ [''blobs''] in
      io_bind (io_read (\<lambda>fs. map_err io_error (fs_read_dir fs directory))) (\<lambda>es.
      io_for es (\<lambda>(name, n).
        if \<not> utf8_valid (as_bytes name) then io_fail (permanent ''local cloud blob name is not UTF-8'')
        else if \<not> is_file n \<or> \<not> is_ok (validate_blob_hash name)
        then io_fail (permanent ''invalid local cloud operation blob'')
        else if name \<notin> set retained then remove_if_exists (directory @ [name]) else io_ret ())))"

definition verify_operation_files ::
  "codec \<Rightarrow> save_operation \<Rightarrow> (string, stored_file) btree \<Rightarrow> node \<Rightarrow> backend_error + unit" where
  "verify_operation_files cd op files fs =
     rfold (\<lambda>(p, file) _.
       rbind (validate_cloud_path p) (\<lambda>_.
       rbind (operation_blob_path (so_path op) (sf_sha1 file)) (\<lambda>b. verify_blob_file cd b file fs))) files ()"

definition verify_files ::
  "codec \<Rightarrow> folder_store \<Rightarrow> u32 \<Rightarrow> string \<Rightarrow> (string, stored_file) btree \<Rightarrow> node \<Rightarrow> backend_error + unit" where
  "verify_files cd store app_id manifest_id files fs =
     rfold (\<lambda>(p, file) _.
       rbind (validate_cloud_path p) (\<lambda>_.
       rbind (manifest_blob_path store app_id manifest_id (sf_sha1 file)) (\<lambda>b. verify_blob_file cd b file fs)))
       files ()"

definition publish_operation ::
  "codec \<Rightarrow> folder_store \<Rightarrow> save_operation \<Rightarrow> (string, stored_file) btree \<Rightarrow> commit_identity \<Rightarrow> u64 \<Rightarrow> u64 io" where
  "publish_operation cd store op files identity max_revision =
     io_bind (io_lift (ok_or (permanent ''local cloud revision overflow'') (u64_checked_add max_revision 1))) (\<lambda>revision.
     io_bind (io_lift (manifest_account store)) (\<lambda>account w.
     let manifest = \<lparr>sm_steam_id64 = account, sm_app_id = so_app_id op, sm_revision = revision,
                     sm_parents = so_parents op, sm_client_id = ci_client_id identity,
                     sm_machine_name = ci_machine_name identity, sm_created_at_ms = w_millis w,
                     sm_files = files\<rparr> in
     io_bind (io_lift (map_err json_error (cd_manifest_to_vec cd manifest))) (\<lambda>bs.
     io_bind (io_lift (ensure (length bs \<le> MAX_MANIFEST_BYTES) (permanent ''local cloud manifest is too large''))) (\<lambda>_.
     let i = hex_digest (cd_sha256 cd) bs in
     io_bind (io_lift (validate_manifest i account (so_app_id op) manifest)) (\<lambda>_.
     io_bind (atomic_publish (so_path op @ [''manifest.json'']) bs) (\<lambda>_.
     io_bind (sync_directory (so_path op @ [''blobs''])) (\<lambda>_.
     io_bind (sync_directory (so_path op)) (\<lambda>_.
     io_bind (create_durable_dir_all (app_dir store (so_app_id op))) (\<lambda>_.
     io_bind (io_lift (manifest_dir store (so_app_id op) i)) (\<lambda>destination.
     io_bind (io_step (fs_rename (so_path op) destination)) (\<lambda>_.
     io_bind (close_operation op) (\<lambda>_.
     io_bind (sync_directory (fo_work_root store)) (\<lambda>_.
     io_bind (sync_directory (app_dir store (so_app_id op))) (\<lambda>_.
     io_ret revision)))))))))))) w))"

definition commit_operation ::
  "codec \<Rightarrow> folder_store \<Rightarrow> save_operation \<Rightarrow> staged_file list \<Rightarrow> string list \<Rightarrow> commit_identity \<Rightarrow> u64 io" where
  "commit_operation cd store op staged deleted identity =
     io_bind (io_lift (validate_operation store op)) (\<lambda>_.
     io_bind (io_lift (validate_identity identity)) (\<lambda>_.
     io_bind (ensure_open op) (\<lambda>_.
     io_bind (io_lift (lock_app (so_app_id op))) (\<lambda>_.
     io_bind (io_read (resolve_app cd store (so_app_id op))) (\<lambda>r.
     io_bind (io_lift (ensure (ra_heads r = so_expected_heads op)
                (conflict ''local cloud changed after the upload batch began''))) (\<lambda>_.
     io_bind (io_lift (remove_deleted deleted (so_original_files op))) (\<lambda>files.
     io_bind (io_lift (insert_staged staged files)) (\<lambda>files.
     io_bind (prune_operation_blobs op files) (\<lambda>_.
     io_bind (io_read (verify_operation_files cd op files)) (\<lambda>_.
     if files = so_original_files op \<and> \<not> so_force_publish op
     then io_bind (io_lift (current r)) (\<lambda>c.
          io_bind (close_operation op) (\<lambda>_.
          io_bind (remove_dir_all_if_exists (so_path op)) (\<lambda>_.
          io_bind (sync_directory (fo_work_root store)) (\<lambda>_.
          io_ret (case c of None \<Rightarrow> 0 | Some (_, m) \<Rightarrow> sm_revision m)))))
     else publish_operation cd store op files identity
            (max (ra_max_revision r) (so_minimum_revision op))))))))))))"

definition abort_operation :: "folder_store \<Rightarrow> save_operation \<Rightarrow> unit io" where
  "abort_operation store op = io_bind (io_lift (validate_operation store op)) (\<lambda>_. operation_abort op)"

text \<open>An operation that the caller lets go of is dropped, whatever the outcome.\<close>

definition with_operation :: "save_operation \<Rightarrow> 'a io \<Rightarrow> 'a io" where
  "with_operation op m w = (case m w of (r, w') \<Rightarrow> (r, snd (drop_operation op w')))"

definition resolve_to_manifest ::
  "codec \<Rightarrow> folder_store \<Rightarrow> u32 \<Rightarrow> string list \<Rightarrow> string \<Rightarrow> commit_identity \<Rightarrow> u64 \<Rightarrow> u64 io" where
  "resolve_to_manifest cd store app_id expected_heads selected_head identity minimum_revision =
     io_bind (io_lift (validate_app_id app_id)) (\<lambda>_.
     io_bind (io_lift (validate_identity identity)) (\<lambda>_.
     io_bind (io_lift (normalized_head_ids expected_heads)) (\<lambda>expected_heads.
     io_bind (begin_operation_with_revision cd store app_id [selected_head] (Some expected_heads) minimum_revision) (\<lambda>op.
     with_operation op (commit_operation cd store op [] [] identity)))))"

definition resolve_identical_heads ::
  "codec \<Rightarrow> folder_store \<Rightarrow> u32 \<Rightarrow> commit_identity \<Rightarrow> u64 option io" where
  "resolve_identical_heads cd store app_id identity =
     io_bind (io_lift (validate_app_id app_id)) (\<lambda>_.
     io_bind (io_lift (validate_identity identity)) (\<lambda>_.
     io_bind (io_lift (lock_app app_id)) (\<lambda>_.
     io_bind (io_read (resolve_app cd store app_id)) (\<lambda>r.
     if length (ra_heads r) < 2 then io_ret None
     else let selected = hd (ra_heads r);
              selected_files = sm_files (the_manifest (ra_manifests r) selected) in
       if \<not> list_all (\<lambda>h. sm_files (the_manifest (ra_manifests r) h) = selected_files) (ra_heads r)
       then io_ret None
       else io_bind (begin_operation cd store app_id [selected] (Some (ra_heads r))) (\<lambda>op.
            io_bind (with_operation op (commit_operation cd store op [] [] identity)) (\<lambda>revision.
            io_ret (Some revision)))))))"

definition byte_store_write ::
  "codec \<Rightarrow> folder_store \<Rightarrow> device_descriptor option \<Rightarrow> u32 \<Rightarrow> string \<Rightarrow> bytes \<Rightarrow> file_metadata \<Rightarrow> u64 io" where
  "byte_store_write cd store descriptor app_id p contents metadata =
     io_bind (io_read (view cd store app_id)) (\<lambda>v.
     io_bind (io_lift (current_identity descriptor)) (\<lambda>identity.
     io_bind (begin_operation cd store app_id (head_ids v) None) (\<lambda>op.
     with_operation op
       (io_bind (stage_file cd store op p contents metadata) (\<lambda>staged.
        commit_operation cd store op [staged] [] identity)))))"

definition file_store_delete ::
  "codec \<Rightarrow> folder_store \<Rightarrow> device_descriptor option \<Rightarrow> u32 \<Rightarrow> string \<Rightarrow> u64 io" where
  "file_store_delete cd store descriptor app_id p =
     io_bind (io_lift (validate_cloud_path p)) (\<lambda>_.
     io_bind (io_read (view cd store app_id)) (\<lambda>v.
     io_bind (io_lift (current_identity descriptor)) (\<lambda>identity.
     io_bind (begin_operation cd store app_id (head_ids v) None) (\<lambda>op.
     with_operation op (commit_operation cd store op [] [p] identity)))))"

section \<open>Garbage collection\<close>

text \<open>The manifests that a collection keeps: the heads and the parents of heads that are present.\<close>

definition gc_head_ids :: "(string, save_manifest) btree \<Rightarrow> string list" where
  "gc_head_ids manifests = filter (\<lambda>i. i \<notin> set (parent_ids manifests)) (map fst manifests)"

definition gc_retained_ids :: "(string, save_manifest) btree \<Rightarrow> string list" where
  "gc_retained_ids manifests =
     bts_of_list (gc_head_ids manifests
       @ concat (map (\<lambda>h. filter (\<lambda>p. map_of manifests p \<noteq> None) (sm_parents (the_manifest manifests h)))
                  (gc_head_ids manifests)))"

definition inspect_gc :: "codec \<Rightarrow> folder_store \<Rightarrow> u32 \<Rightarrow> node \<Rightarrow> backend_error + gc_report" where
  "inspect_gc cd store app_id fs =
     rbind (validate_app_id app_id) (\<lambda>_.
     rbind (store_manifest_objects cd store app_id fs) (\<lambda>manifests.
     let retained = gc_retained_ids manifests in
     rbind (rfold (\<lambda>i _.
              rbind (ok_or (incomplete ''local cloud GC retained manifest is unavailable'') (map_of manifests i))
                (\<lambda>m. verify_files cd store app_id i (sm_files m) fs)) retained ()) (\<lambda>_.
     Inr \<lparr>gr_app_id = app_id, gr_manifest_scope = manifest_scope store app_id,
          gr_retained_manifests = retained,
          gr_candidate_manifests = filter (\<lambda>i. i \<notin> set retained) (map fst manifests)\<rparr>)))"

definition prepare_gc_sweep :: "folder_store \<Rightarrow> gc_report \<Rightarrow> node \<Rightarrow> backend_error + gc_sweep_plan option" where
  "prepare_gc_sweep store report fs =
     rbind (ensure (gr_manifest_scope report = manifest_scope store (gr_app_id report))
              (permanent ''invalid local cloud GC scope'')) (\<lambda>_.
     rbind (unique_items (gr_retained_manifests report)) (\<lambda>retained.
     rbind (unique_items (gr_candidate_manifests report)) (\<lambda>candidates.
     rbind (ensure (\<not> list_ex (\<lambda>i. i \<in> set candidates) retained)
              (permanent ''invalid local cloud GC report'')) (\<lambda>_.
     rbind (lock_app (gr_app_id report)) (\<lambda>_.
     rbind (collect_manifest_paths (app_dir store (gr_app_id report)) fs) (\<lambda>present.
     let expected = bts_of_list (retained @ candidates) in
     if present \<noteq> expected then Inr None
     else Inr (Some \<lparr>gp_root = app_dir store (gr_app_id report), gp_app_id = gr_app_id report,
                     gp_expected_manifests = expected, gp_candidate_manifests = candidates\<rparr>)))))))"

definition move_manifest_to_trash :: "folder_store \<Rightarrow> u32 \<Rightarrow> string \<Rightarrow> path option io" where
  "move_manifest_to_trash store app_id i =
     io_bind (io_lift (manifest_dir store app_id i)) (\<lambda>source w.
     if \<not> fs_exists (w_fs w) source then (Inr None, w)
     else io_bind next_nonce (\<lambda>nonce.
          let trash = fo_work_root store @ [''gc-'' @ nonce] in
          io_bind (io_step (fs_rename source trash)) (\<lambda>_.
          io_bind (sync_directory (app_dir store app_id)) (\<lambda>_.
          io_bind (sync_directory (fo_work_root store)) (\<lambda>_. io_ret (Some trash))))) w)"

definition restore_manifest :: "folder_store \<Rightarrow> u32 \<Rightarrow> string \<times> path \<Rightarrow> unit io" where
  "restore_manifest store app_id = (\<lambda>(i, trash).
     io_bind (io_lift (manifest_dir store app_id i)) (\<lambda>destination w.
     if fs_exists (w_fs w) destination then remove_dir_all_if_exists trash w
     else io_step (fs_rename trash destination) w))"

definition restore_gc_sweep_locked :: "folder_store \<Rightarrow> u32 \<Rightarrow> gc_sweep \<Rightarrow> unit io" where
  "restore_gc_sweep_locked store app_id sweep =
     io_bind (io_for (rev (gs_moved_manifests sweep)) (restore_manifest store app_id)) (\<lambda>_.
     io_bind (sync_directory (app_dir store app_id)) (\<lambda>_.
     sync_directory (fo_work_root store)))"

definition restore_gc_sweep :: "folder_store \<Rightarrow> u32 \<Rightarrow> gc_sweep \<Rightarrow> unit io" where
  "restore_gc_sweep store app_id sweep =
     io_bind (io_lift (lock_app app_id)) (\<lambda>_. restore_gc_sweep_locked store app_id sweep)"

fun sweep_manifests ::
  "folder_store \<Rightarrow> u32 \<Rightarrow> string list \<Rightarrow> (string \<times> path) list \<Rightarrow> gc_sweep io" where
  "sweep_manifests store app_id [] moved =
     io_ret \<lparr>gs_deleted_manifests = length moved, gs_moved_manifests = moved\<rparr>"
| "sweep_manifests store app_id (i # is) moved = (\<lambda>w.
     case move_manifest_to_trash store app_id i w of
       (Inr (Some trash), w') \<Rightarrow> sweep_manifests store app_id is (moved @ [(i, trash)]) w'
     | (Inr None, w') \<Rightarrow> sweep_manifests store app_id is moved w'
     | (Inl e, w') \<Rightarrow>
         io_bind (io_ignore (restore_gc_sweep_locked store app_id
                    \<lparr>gs_deleted_manifests = length moved, gs_moved_manifests = moved\<rparr>))
           (\<lambda>_. io_fail e) w')"

definition apply_gc_sweep :: "folder_store \<Rightarrow> gc_sweep_plan \<Rightarrow> gc_sweep option io" where
  "apply_gc_sweep store plan =
     (if gp_root plan \<noteq> app_dir store (gp_app_id plan) then io_ret None
      else io_bind (io_read (collect_manifest_paths (app_dir store (gp_app_id plan)))) (\<lambda>present.
        if present \<noteq> gp_expected_manifests plan then io_ret None
        else io_bind (sweep_manifests store (gp_app_id plan) (gp_candidate_manifests plan) [])
               (\<lambda>sweep. io_ret (Some sweep))))"

definition finalize_gc_sweep :: "folder_store \<Rightarrow> gc_sweep \<Rightarrow> unit io" where
  "finalize_gc_sweep store sweep =
     io_bind (io_for (gs_moved_manifests sweep) (\<lambda>(_, trash). remove_dir_all_if_exists trash)) (\<lambda>_.
     sync_directory (fo_work_root store))"

section \<open>Play sessions\<close>

definition session_dir :: "folder_store \<Rightarrow> u32 \<Rightarrow> backend_error + path" where
  "session_dir store app_id =
     (if fo_account store = None then Inl (permanent ''local cloud session requires an account'')
      else Inr (app_dir store app_id @ [''sessions'']))"

definition session_record_path ::
  "string \<Rightarrow> folder_store \<Rightarrow> u32 \<Rightarrow> u64 \<Rightarrow> backend_error + path" where
  "session_record_path kind store app_id client_id =
     (if client_id = 0 then Inl (permanent ''local cloud session ClientID is unavailable'')
      else rbind (session_dir store app_id) (\<lambda>d.
        Inr (d @ [kind, nat_to_string (unat client_id) @ ''.json''])))"

definition session_claim_path :: "folder_store \<Rightarrow> u32 \<Rightarrow> u64 \<Rightarrow> backend_error + path" where
  "session_claim_path = session_record_path ''claims''"

definition session_override_path :: "folder_store \<Rightarrow> u32 \<Rightarrow> u64 \<Rightarrow> backend_error + path" where
  "session_override_path = session_record_path ''overrides''"

text \<open>The file stem and the extension of a file name.\<close>

definition split_extension :: "string \<Rightarrow> string \<times> string option" where
  "split_extension name =
     (let r = rev name; rest = dropWhile (\<lambda>c. c \<noteq> CHR ''.'') r in
      if rest = [] \<or> tl rest = [] then (name, None)
      else (rev (tl rest), Some (rev (takeWhile (\<lambda>c. c \<noteq> CHR ''.'') r))))"

definition session_record_client_id :: "string \<Rightarrow> backend_error + u64" where
  "session_record_client_id name =
     ok_or (permanent ''invalid local cloud session record name'')
       (opt_filter (\<lambda>v. v \<noteq> 0) (parse_u64 (fst (split_extension name))))"

definition read_session_record ::
  "(bytes \<Rightarrow> 'a option) \<Rightarrow> (u32 \<Rightarrow> 'a \<Rightarrow> backend_error + unit) \<Rightarrow> string \<Rightarrow> u32 \<Rightarrow> path \<Rightarrow> node
     \<Rightarrow> backend_error + (bytes \<times> 'a)" where
  "read_session_record from_slice validate label app_id p fs =
     rbind (read_bounded_file p MAX_SESSION_RECORD_BYTES (''session '' @ label) fs) (\<lambda>bs.
     rbind (ok_or (incomplete (''local cloud session '' @ label @ '' is incomplete'')) (from_slice bs)) (\<lambda>r.
     rbind (validate app_id r) (\<lambda>_. Inr (bs, r))))"

definition read_session_directory ::
  "string \<Rightarrow> (path \<Rightarrow> string \<Rightarrow> backend_error + 'a) \<Rightarrow> path \<Rightarrow> node \<Rightarrow> backend_error + 'a list" where
  "read_session_directory too_many read_entry directory fs =
     (if \<not> fs_exists fs directory then Inr []
      else rbind (map_err io_error (fs_read_dir fs directory)) (\<lambda>es.
        rbind (rfold (\<lambda>(name, n) (entries, out).
                 if MAX_SESSION_RECORDS < Suc entries then Inl (permanent too_many)
                 else if snd (split_extension name) \<noteq> Some ''json'' then Inr (Suc entries, out)
                 else rbind (read_entry (directory @ [name]) name) (\<lambda>x. Inr (Suc entries, out @ [x])))
               es (0, [])) (\<lambda>(_, out). Inr out)))"

definition read_session_claims ::
  "codec \<Rightarrow> folder_store \<Rightarrow> u32 \<Rightarrow> node \<Rightarrow> backend_error + (string \<times> session_claim) list" where
  "read_session_claims cd store app_id fs =
     rbind (session_dir store app_id) (\<lambda>d.
     read_session_directory ''too many local cloud session claims''
       (\<lambda>p name.
          rbind (read_session_record (cd_claim_from_slice cd) validate_session_claim ''claim'' app_id p fs) (\<lambda>(bs, claim).
          rbind (session_record_client_id name) (\<lambda>client_id.
          rbind (ensure (client_id = sn_client_id claim)
                   (permanent ''local cloud session claim ClientID is invalid'')) (\<lambda>_.
          Inr (hex_digest (cd_sha256 cd) bs, claim)))))
       (d @ [''claims'']) fs)"

definition read_session_claim ::
  "codec \<Rightarrow> folder_store \<Rightarrow> u32 \<Rightarrow> u64 \<Rightarrow> node \<Rightarrow> backend_error + session_claim option" where
  "read_session_claim cd store app_id client_id fs =
     rbind (session_claim_path store app_id client_id) (\<lambda>p.
     if \<not> fs_exists fs p then Inr None
     else rbind (read_session_record (cd_claim_from_slice cd) validate_session_claim ''claim'' app_id p fs) (\<lambda>(_, claim).
       rbind (ensure (sn_client_id claim = client_id)
                (permanent ''local cloud session claim ClientID is invalid'')) (\<lambda>_. Inr (Some claim))))"

definition read_session_overrides ::
  "codec \<Rightarrow> folder_store \<Rightarrow> u32 \<Rightarrow> node \<Rightarrow> backend_error + (path \<times> session_override) list" where
  "read_session_overrides cd store app_id fs =
     rbind (session_dir store app_id) (\<lambda>d.
     read_session_directory ''too many local cloud session overrides''
       (\<lambda>p name.
          rbind (read_session_record (cd_override_from_slice cd) validate_session_override ''override'' app_id p fs) (\<lambda>(_, r).
          rbind (session_record_client_id name) (\<lambda>client_id.
          rbind (ensure (client_id = sx_client_id r)
                   (permanent ''local cloud session override ClientID is invalid'')) (\<lambda>_. Inr (p, r)))))
       (d @ [''overrides'']) fs)"

definition live_claim_ids :: "(string \<times> session_claim) list \<Rightarrow> string list" where
  "live_claim_ids claims = map fst claims"

definition superseded_live_claims :: "(path \<times> session_override) list \<Rightarrow> string list \<Rightarrow> string list" where
  "superseded_live_claims overrides live =
     filter (\<lambda>i. i \<in> set live) (concat (map (\<lambda>(_, r). sx_superseded_claims r) overrides))"

definition write_session_claim :: "codec \<Rightarrow> folder_store \<Rightarrow> session_claim \<Rightarrow> string io" where
  "write_session_claim cd store claim =
     io_bind (io_lift (session_claim_path store (sn_app_id claim) (sn_client_id claim))) (\<lambda>p.
     io_bind (io_lift (map_err json_error (cd_claim_to_vec cd claim))) (\<lambda>bs.
     io_bind (io_lift (ensure (length bs \<le> MAX_SESSION_RECORD_BYTES)
                (permanent ''local cloud session claim is too large''))) (\<lambda>_.
     io_bind (atomic_replace p bs) (\<lambda>_. io_ret (hex_digest (cd_sha256 cd) bs)))))"

definition write_session_override :: "codec \<Rightarrow> folder_store \<Rightarrow> session_override \<Rightarrow> unit io" where
  "write_session_override cd store r =
     io_bind (io_lift (session_override_path store (sx_app_id r) (sx_client_id r))) (\<lambda>p.
     io_bind (io_lift (map_err json_error (cd_override_to_vec cd r))) (\<lambda>bs.
     io_bind (io_lift (ensure (length bs \<le> MAX_SESSION_RECORD_BYTES)
                (permanent ''local cloud session override is too large''))) (\<lambda>_.
     atomic_replace p bs)))"

fun reconcile_loaded_session_overrides ::
  "codec \<Rightarrow> folder_store \<Rightarrow> (path \<times> session_override) list \<Rightarrow> string list \<Rightarrow> string list \<Rightarrow> string list io" where
  "reconcile_loaded_session_overrides cd store [] live superseded = io_ret superseded"
| "reconcile_loaded_session_overrides cd store ((p, r) # rest) live superseded =
     (let retained = filter (\<lambda>i. i \<in> set live) (sx_superseded_claims r) in
      if retained = []
      then io_bind (remove_if_exists p) (\<lambda>_. reconcile_loaded_session_overrides cd store rest live superseded)
      else io_bind (if retained \<noteq> sx_superseded_claims r
                    then write_session_override cd store (r\<lparr>sx_superseded_claims := retained\<rparr>)
                    else io_ret ()) (\<lambda>_.
           reconcile_loaded_session_overrides cd store rest live (superseded @ retained)))"

definition reconcile_session_overrides :: "codec \<Rightarrow> folder_store \<Rightarrow> u32 \<Rightarrow> string list \<Rightarrow> string list io" where
  "reconcile_session_overrides cd store app_id live =
     io_bind (io_read (read_session_overrides cd store app_id)) (\<lambda>overrides.
     reconcile_loaded_session_overrides cd store overrides live [])"

definition session_peer_of :: "session_claim \<Rightarrow> session_peer" where
  "session_peer_of claim =
     \<lparr>sp_client_id = sn_client_id claim, sp_machine_name = sn_machine_name claim,
      sp_time_last_updated = sn_updated_at claim, sp_os_type = sn_os_type claim,
      sp_device_type = sn_device_type claim\<rparr>"

definition launch_session ::
  "codec \<Rightarrow> folder_store \<Rightarrow> u32 \<Rightarrow> commit_identity \<Rightarrow> int option \<Rightarrow> int option \<Rightarrow> bool \<Rightarrow> session_peer list io" where
  "launch_session cd store app_id identity os_type device_type ignore_pending =
     io_bind (io_lift (validate_app_id app_id)) (\<lambda>_.
     io_bind (io_lift (validate_identity identity)) (\<lambda>_.
     io_bind (io_lift (lock_app app_id)) (\<lambda>_.
     io_bind (io_read (read_session_claims cd store app_id)) (\<lambda>claims.
     io_bind (io_read (read_session_overrides cd store app_id)) (\<lambda>overrides.
     let initial_live = live_claim_ids claims;
         superseded = superseded_live_claims overrides initial_live;
         others = filter (\<lambda>(_, claim). sn_client_id claim \<noteq> ci_client_id identity) claims;
         pending = map (\<lambda>(_, claim). session_peer_of claim) (filter (\<lambda>(i, _). i \<notin> set superseded) others)
     in if pending \<noteq> [] \<and> \<not> ignore_pending
        then io_bind (reconcile_loaded_session_overrides cd store overrides initial_live []) (\<lambda>_. io_ret pending)
        else
          io_bind (if pending = [] then io_ret overrides
                   else let r = \<lparr>sx_app_id = app_id, sx_client_id = ci_client_id identity,
                                 sx_superseded_claims = sort (remdups (superseded @ map fst others))\<rparr> in
                        io_bind (io_lift (session_override_path store app_id (ci_client_id identity))) (\<lambda>p.
                        io_bind (write_session_override cd store r) (\<lambda>_.
                        io_ret (filter (\<lambda>(existing, _). existing \<noteq> p) overrides @ [(p, r)])))) (\<lambda>overrides.
          io_bind (io_read (view_unlocked cd store app_id)) (\<lambda>v.
          io_bind (\<lambda>w. (Inr (w_seconds w), w)) (\<lambda>now.
          io_bind next_nonce (\<lambda>nonce.
          io_bind (write_session_claim cd store
                     \<lparr>sn_app_id = app_id, sn_client_id = ci_client_id identity,
                      sn_machine_name = ci_machine_name identity, sn_os_type = os_type,
                      sn_device_type = device_type, sn_status = Active,
                      sn_observed_heads = head_ids v, sn_updated_at = now, sn_nonce = nonce\<rparr>) (\<lambda>claim_id.
          io_bind (reconcile_loaded_session_overrides cd store overrides (map fst others @ [claim_id]) []) (\<lambda>_.
          io_ret []))))))))))) "

definition update_session ::
  "codec \<Rightarrow> folder_store \<Rightarrow> u32 \<Rightarrow> commit_identity \<Rightarrow> session_status \<Rightarrow> unit io" where
  "update_session cd store app_id identity status =
     io_bind (io_lift (validate_app_id app_id)) (\<lambda>_.
     io_bind (io_lift (validate_identity identity)) (\<lambda>_.
     io_bind (io_lift (lock_app app_id)) (\<lambda>_.
     io_bind (io_read (read_session_claim cd store app_id (ci_client_id identity))) (\<lambda>found.
     io_bind (io_lift (ok_or (conflict ''local cloud session does not belong to this client'') found)) (\<lambda>claim.
     io_bind (io_read (view_unlocked cd store app_id)) (\<lambda>v.
     io_bind (if sn_machine_name claim \<noteq> ci_machine_name identity \<or> sn_status claim \<noteq> status
                 \<or> sn_observed_heads claim \<noteq> head_ids v
              then io_bind (\<lambda>w. (Inr (w_seconds w), w)) (\<lambda>now.
                   io_bind next_nonce (\<lambda>nonce.
                   io_bind (write_session_claim cd store
                     (claim\<lparr>sn_machine_name := ci_machine_name identity, sn_status := status,
                            sn_observed_heads := head_ids v, sn_updated_at := now, sn_nonce := nonce\<rparr>))
                     (\<lambda>_. io_ret ())))
              else io_ret ()) (\<lambda>_.
     io_bind (io_read (read_session_claims cd store app_id)) (\<lambda>claims.
     io_bind (reconcile_session_overrides cd store app_id (live_claim_ids claims)) (\<lambda>_. io_ret ())))))))))"

definition suspend_session :: "codec \<Rightarrow> folder_store \<Rightarrow> u32 \<Rightarrow> commit_identity \<Rightarrow> unit io" where
  "suspend_session cd store app_id identity = update_session cd store app_id identity Suspended"

definition resume_session :: "codec \<Rightarrow> folder_store \<Rightarrow> u32 \<Rightarrow> commit_identity \<Rightarrow> unit io" where
  "resume_session cd store app_id identity = update_session cd store app_id identity Active"

definition exit_session :: "codec \<Rightarrow> folder_store \<Rightarrow> u32 \<Rightarrow> commit_identity \<Rightarrow> unit io" where
  "exit_session cd store app_id identity =
     io_bind (io_lift (validate_app_id app_id)) (\<lambda>_.
     io_bind (io_lift (validate_identity identity)) (\<lambda>_.
     io_bind (io_lift (lock_app app_id)) (\<lambda>_.
     io_bind (io_read (read_session_claim cd store app_id (ci_client_id identity))) (\<lambda>found.
     if found = None then io_ret ()
     else io_bind (io_lift (session_claim_path store app_id (ci_client_id identity))) (\<lambda>p.
          io_bind (remove_if_exists p) (\<lambda>_.
          io_bind (io_read (read_session_claims cd store app_id)) (\<lambda>claims.
          io_bind (reconcile_session_overrides cd store app_id (live_claim_ids claims)) (\<lambda>_. io_ret ()))))))))"

end
