(* ===== verification/Local_Fs_Laws.thy ===== *)
theory Local_Fs_Laws
  imports Local_Operations "HOL-Library.Sublist"
begin

text \<open>
  Laws of the file-system model: what a path finds after the entries of a directory changed, and what
  each file helper of the store does to the directory it works in and leaves alone elsewhere.  Two
  paths are \<open>apart\<close> when neither is a prefix of the other; the work directory of a repository is apart
  from its app directories, which is why staging never disturbs what readers see.
\<close>

named_theorems fs_simps

definition apart :: "path \<Rightarrow> path \<Rightarrow> bool" where
  "apart p q \<longleftrightarrow> \<not> prefix p q \<and> \<not> prefix q p"

section \<open>Entries\<close>

lemma map_of_rewrite:
  "map_of (map (\<lambda>(n, x). if n = c then (n, g x) else (n, x)) es) k
     = (if k = c then map_option g (map_of es k) else map_of es k)"
  by (induction es) auto

lemma map_of_dir_put [fs_simps]: "map_of (dir_put c x es) = (map_of es)(c \<mapsto> x)"
proof
  fix k
  show "map_of (dir_put c x es) k = ((map_of es)(c \<mapsto> x)) k"
    using map_of_rewrite [of c "\<lambda>_. x" es k]
    by (auto simp: dir_put_def map_add_def split: option.splits)
qed

lemma map_of_dir_del [fs_simps]: "map_of (dir_del c es) = (map_of es)(c := None)"
  by (induction es) (auto simp: dir_del_def fun_eq_iff)

lemma dir_put_fresh: "map_of es c = None \<Longrightarrow> dir_put c x es = es @ [(c, x)]"
  by (simp add: dir_put_def)

section \<open>Paths\<close>

lemma lookup_append: "lookup fs (p @ q) = opt_bind (lookup fs p) (\<lambda>n. lookup n q)"
proof (induction p arbitrary: fs)
  case (Cons c p)
  then show ?case by (cases fs; cases "map_of (case fs of Dir es \<Rightarrow> es | _ \<Rightarrow> []) c") auto
qed simp

lemma lookup_snoc: "lookup fs (p @ [c]) = (case lookup fs p of Some (Dir es) \<Rightarrow> map_of es c | _ \<Rightarrow> None)"
  by (auto simp: lookup_append opt_bind_def split: option.splits node.splits)

lemma lookup_modify_same:
  "lookup fs p = Some (Dir es) \<Longrightarrow> lookup (modify p f fs) p = Some (Dir (f es))"
proof (induction p arbitrary: fs)
  case (Cons c p)
  then obtain es' n where "fs = Dir es'" "map_of es' c = Some n" "lookup n p = Some (Dir es)"
    by (cases fs) (auto simp: opt_bind_eq_Some)
  with Cons.IH show ?case by (simp add: map_of_rewrite)
qed simp

lemma lookup_modify_apart: "apart p q \<Longrightarrow> lookup (modify p f fs) q = lookup fs q"
proof (induction p arbitrary: fs q)
  case Nil
  then show ?case by (simp add: apart_def)
next
  case (Cons c p)
  obtain d q' where q: "q = d # q'" using Cons.prems by (cases q) (auto simp: apart_def)
  show ?case
  proof (cases "c = d")
    case True
    then have "apart p q'" using Cons.prems q by (simp add: apart_def)
    then show ?thesis using True q Cons.IH
      by (cases fs) (auto simp: map_of_rewrite opt_bind_def split: option.splits)
  next
    case False
    then show ?thesis using q by (cases fs) (auto simp: map_of_rewrite)
  qed
qed

lemma lookup_modify_below:
  assumes "lookup fs p = Some (Dir es)"
  shows "lookup (modify p f fs) (p @ c # q) = opt_bind (map_of (f es) c) (\<lambda>n. lookup n q)"
  using lookup_modify_same [OF assms, of f] by (simp add: lookup_append)

lemma lookup_modify_above: "lookup (modify (p @ q) f fs) p = map_option (modify q f) (lookup fs p)"
proof (induction p arbitrary: fs)
  case (Cons c p)
  then show ?case
    by (cases fs) (auto simp: map_of_rewrite opt_bind_def split: option.splits)
qed simp

lemma modify_modify: "modify p f (modify p g fs) = modify p (f \<circ> g) fs"
proof (induction p arbitrary: fs)
  case Nil
  then show ?case by (cases fs) auto
next
  case (Cons c p)
  then show ?case by (cases fs) auto
qed

definition only_entry :: "node \<Rightarrow> path \<Rightarrow> string \<Rightarrow> bool" where
  "only_entry fs p c \<longleftrightarrow> (\<exists>n. lookup fs p = Some (Dir [(c, n)]))"

lemma only_entry_modify: "only_entry fs p c \<Longrightarrow> only_entry (modify (p @ [c]) f fs) p c"
  by (auto simp: only_entry_def lookup_modify_above)

lemma only_entryD: "only_entry fs p c \<Longrightarrow> lookup fs (p @ [c]) = Some n \<Longrightarrow> lookup fs p = Some (Dir [(c, n)])"
  by (auto simp: only_entry_def lookup_snoc)

lemma apart_sym: "apart p q \<longleftrightarrow> apart q p"
  by (auto simp: apart_def)

lemma apart_append: "apart p q \<Longrightarrow> apart (p @ r) q" "apart p q \<Longrightarrow> apart p (q @ r)"
  unfolding apart_def by (meson append_prefixD prefix_append prefix_order.trans prefix_same_cases)+

lemma apart_snoc: "c \<noteq> d \<Longrightarrow> apart (p @ [c]) (p @ [d])"
  by (simp add: apart_def)

section \<open>Steps of the world\<close>

lemma io_bind_Inr:
  "io_bind m f w = (Inr y, w') \<longleftrightarrow> (\<exists>x w1. m w = (Inr x, w1) \<and> f x w1 = (Inr y, w'))"
  by (auto simp: io_bind_def split: prod.splits sum.splits)

lemma io_lift_Inr [simp]: "io_lift r w = (Inr x, w') \<longleftrightarrow> r = Inr x \<and> w' = w"
  by (auto simp: io_lift_def)

lemma io_read_Inr [simp]: "io_read f w = (Inr x, w') \<longleftrightarrow> f (w_fs w) = Inr x \<and> w' = w"
  by (auto simp: io_read_def)

lemma io_ret_Inr [simp]: "io_ret y w = (Inr x, w') \<longleftrightarrow> y = x \<and> w' = w"
  by (auto simp: io_ret_def)

lemma io_fail_Inr [simp]: "io_fail e w \<noteq> (Inr x, w')"
  by (simp add: io_fail_def)

lemma io_step_Inr: "io_step f w = (Inr x, w') \<longleftrightarrow> (\<exists>fs. f (w_fs w) = Inr fs \<and> w' = w\<lparr>w_fs := fs\<rparr>)"
  by (auto simp: io_step_def split: sum.splits)

lemma map_err_simps [simp]: "map_err f (Inr x) = Inr x" "map_err f (Inl e) = Inl (f e)"
  by (simp_all add: map_err_def)

lemma sync_directory_Inr [simp]: "sync_directory p w = (Inr x, w') \<longleftrightarrow> fs_exists (w_fs w) p \<and> w' = w"
  by (auto simp: sync_directory_def)

lemma next_nonce_Inr:
  "next_nonce w = (Inr n, w') \<Longrightarrow> w' = w\<lparr>w_next := w_next w + 1\<rparr>"
  by (auto simp: next_nonce_def)

lemmas io_simps = io_bind_Inr io_step_Inr

lemma fs_read_dir_Inr [simp]: "fs_read_dir fs p = Inr es \<longleftrightarrow> lookup fs p = Some (Dir es)"
  by (auto simp: fs_read_dir_def split: option.splits node.splits)

lemma fs_is_dir_iff: "fs_is_dir fs p \<longleftrightarrow> (\<exists>es. lookup fs p = Some (Dir es))"
  by (cases "lookup fs p") (auto simp: fs_is_dir_def elim: is_dir.elims)

section \<open>Creating and moving\<close>

lemma fs_create_Inr:
  assumes "fs_create (p @ [c]) x fs = Inr fs'"
  obtains es where "lookup fs p = Some (Dir es)" "map_of es c = None"
    "fs' = modify p (dir_put c x) fs"
  using assms
  by (auto simp: fs_create_def fs_exists_def lookup_snoc split: if_splits option.splits node.splits)

lemma fs_remove_file_Inr:
  assumes "fs_remove_file (p @ [c]) fs = Inr fs'"
  obtains es where "lookup fs p = Some (Dir es)" "fs' = modify p (dir_del c) fs"
  using assms
  by (auto simp: fs_remove_file_def lookup_snoc split: if_splits option.splits node.splits)

lemma fs_rename_Inr:
  assumes "fs_rename (p @ [c]) (q @ [d]) fs = Inr fs'"
  obtains x es es' where "lookup fs p = Some (Dir es)" "map_of es c = Some x"
    "lookup fs q = Some (Dir es')" "map_of es' d = None \<or> map_of es' d = Some (Dir []) \<or> (\<exists>n. map_of es' d = Some n \<and> \<not> is_dir n \<and> \<not> is_dir x)"
    "fs' = modify q (dir_put d x) (modify p (dir_del c) fs)"
proof -
  obtain x where x: "lookup fs (p @ [c]) = Some x"
    using assms by (auto simp: fs_rename_def split: option.splits)
  then obtain es where es: "lookup fs p = Some (Dir es)" "map_of es c = Some x"
    by (auto simp: lookup_snoc split: option.splits node.splits)
  obtain es' where es': "lookup fs q = Some (Dir es')"
    using assms x by (auto simp: fs_rename_def fs_is_dir_iff split: if_splits)
  have "map_of es' d = None \<or> map_of es' d = Some (Dir []) \<or> (\<exists>n. map_of es' d = Some n \<and> \<not> is_dir n \<and> \<not> is_dir x)"
    using assms x es' by (auto simp: fs_rename_def fs_is_dir_iff lookup_snoc result_simps split: option.splits node.splits if_splits)
  moreover have "fs' = modify q (dir_put d x) (modify p (dir_del c) fs)"
    using assms x by (auto simp: fs_rename_def result_simps split: if_splits)
  ultimately show thesis using that es es' by blast
qed

lemma missing_dirs_existing:
  "fs_exists fs p \<Longrightarrow> missing_dirs fs (rev p) = ([], p)"
  by (cases "rev p") auto

lemma create_durable_dir_all_existing:
  assumes "lookup (w_fs w) p = Some (Dir es)"
  shows "create_durable_dir_all p w = (Inr (), w)"
  using assms missing_dirs_existing [of "w_fs w" p]
  by (simp add: create_durable_dir_all_def fs_exists_def fs_is_dir_iff io_ret_def)

lemma io_for_append: "io_for (xs @ ys) body = io_bind (io_for xs body) (\<lambda>_. io_for ys body)"
proof (induction xs)
  case Nil
  then show ?case by (simp add: fun_eq_iff io_bind_def io_ret_def)
next
  case (Cons x xs)
  then show ?case by (auto simp: fun_eq_iff io_bind_def split: prod.splits sum.splits)
qed

lemma create_durable_dir_all_snoc:
  assumes "\<not> fs_exists (w_fs w) (p @ [c])"
  shows "create_durable_dir_all (p @ [c]) w
    = io_bind (create_durable_dir_all p) (\<lambda>_. create_durable_dir (p @ [c])) w"
proof -
  obtain ms cur where m: "missing_dirs (w_fs w) (rev p) = (ms, cur)" by fastforce
  then have "missing_dirs (w_fs w) (rev (p @ [c])) = (ms @ [p @ [c]], cur)"
    using assms by simp
  with m show ?thesis
    by (auto simp: create_durable_dir_all_def io_for_append io_bind_def io_ret_def split: prod.splits sum.splits)
qed

text \<open>A path that exists and is not a prefix of a new entry is apart from it.\<close>

lemma create_keeps:
  assumes "fs_create (p @ [c]) x fs = Inr fs'" "lookup fs q = Some n" "\<not> prefix q (p @ [c])"
  shows "lookup fs' q = Some n"
proof -
  obtain es where es: "lookup fs p = Some (Dir es)" "map_of es c = None" "fs' = modify p (dir_put c x) fs"
    using fs_create_Inr [OF assms(1)] by metis
  show ?thesis
  proof (cases "prefix p q")
    case False
    then have "apart p q" using assms(3) by (meson apart_def prefixI prefix_order.trans)
    then show ?thesis using es(3) assms(2) by (simp add: lookup_modify_apart)
  next
    case True
    then obtain d r where q: "q = p @ d # r"
      using assms(3) by (metis append.right_neutral neq_Nil_conv prefixE prefixI)
    then have "map_of es d \<noteq> None" using assms(2) es(1) by (auto simp: lookup_append opt_bind_def split: option.splits)
    then have "d \<noteq> c" using es(2) by auto
    then show ?thesis using assms(2) es(1)
      unfolding q es(3) lookup_modify_below [OF es(1)] map_of_dir_put by (simp add: lookup_append)
  qed
qed

lemma create_durable_dir_Inr:
  assumes "create_durable_dir (p @ [c]) w = (Inr (), w')"
  shows "(w' = w \<and> fs_is_dir (w_fs w) (p @ [c]))
    \<or> (\<exists>fs. fs_create (p @ [c]) (Dir []) (w_fs w) = Inr fs \<and> w' = w\<lparr>w_fs := fs\<rparr>)"
  using assms
  by (auto simp: create_durable_dir_def io_bind_Inr split: sum.splits io_kind.splits if_splits)

lemma fs_create_lookup:
  assumes "fs_create (p @ [c]) x fs = Inr fs'"
  shows "lookup fs' (p @ [c]) = Some x"
proof -
  obtain es where es: "lookup fs p = Some (Dir es)" "fs' = modify p (dir_put c x) fs"
    using fs_create_Inr [OF assms] by metis
  then show ?thesis by (simp add: lookup_modify_below map_of_dir_put)
qed

lemma create_durable_dir_all_Inr:
  assumes "create_durable_dir_all p w = (Inr (), w')"
  shows "\<exists>fs es. w' = w\<lparr>w_fs := fs\<rparr> \<and> lookup fs p = Some (Dir es)
    \<and> (if fs_exists (w_fs w) p then w' = w else es = [])
    \<and> (\<forall>q n. lookup (w_fs w) q = Some n \<longrightarrow> \<not> prefix q p \<longrightarrow> lookup fs q = Some n)"
  using assms
proof (induction p arbitrary: w' rule: rev_induct)
  case Nil
  then show ?case
    by (intro exI [of _ "w_fs w"])
       (auto simp: create_durable_dir_all_def fs_exists_def fs_is_dir_iff io_ret_def split: if_splits)
next
  case (snoc c p)
  show ?case
  proof (cases "fs_exists (w_fs w) (p @ [c])")
    case True
    then have "fs_is_dir (w_fs w) (p @ [c])" "w' = w"
      using snoc.prems missing_dirs_existing [OF True]
      by (auto simp: create_durable_dir_all_def io_ret_def split: if_splits)
    then show ?thesis by (intro exI [of _ "w_fs w"]) (auto simp: fs_is_dir_iff True)
  next
    case False
    then obtain w1 where w1: "create_durable_dir_all p w = (Inr (), w1)" "create_durable_dir (p @ [c]) w1 = (Inr (), w')"
      using snoc.prems by (auto simp: create_durable_dir_all_snoc io_bind_Inr)
    then obtain fs es where fs: "w1 = w\<lparr>w_fs := fs\<rparr>" "lookup fs p = Some (Dir es)"
      "if fs_exists (w_fs w) p then w1 = w else es = []"
      "\<And>q n. lookup (w_fs w) q = Some n \<Longrightarrow> \<not> prefix q p \<Longrightarrow> lookup fs q = Some n"
      using snoc.IH by blast
    have "w_fs w1 = fs" using fs(1) by simp
    then have "map_of es c = None"
      using False fs(2,3) by (cases "fs_exists (w_fs w) p") (auto simp: fs_exists_def lookup_snoc)
    then have "\<not> fs_is_dir (w_fs w1) (p @ [c])" using fs(1,2) by (simp add: fs_is_dir_iff lookup_snoc)
    then obtain fs' where fs': "fs_create (p @ [c]) (Dir []) fs = Inr fs'" "w' = w\<lparr>w_fs := fs'\<rparr>"
      using create_durable_dir_Inr [OF w1(2)] fs(1) by auto
    have "lookup fs' q = Some n" if "lookup (w_fs w) q = Some n" "\<not> prefix q (p @ [c])" for q n
      using that fs(4) create_keeps [OF fs'(1)] by (metis append_prefixD prefix_snoc)
    with False fs'(2) fs_create_lookup [OF fs'(1)] show ?thesis by auto
  qed
qed

text \<open>Publishing a new object in an existing directory adds that one entry.\<close>

lemma temporary_neq: "hd n \<noteq> CHR ''.'' \<or> n = [] \<Longrightarrow> ''.syncthing.'' @ nonce @ ''.tmp'' \<noteq> n"
  by auto

lemma atomic_publish_modify:
  assumes pub: "atomic_publish (d @ [c]) b w = (Inr (), w')"
    and d: "lookup (w_fs w) d = Some (Dir es)" and c: "map_of es c = None"
    and name: "hd c \<noteq> CHR ''.'' \<or> c = []"
  shows "\<exists>f n. w' = w\<lparr>w_fs := modify d f (w_fs w), w_next := n\<rparr> \<and> f es = es @ [(c, File b)]"
proof -
  have ex: "\<not> fs_exists (w_fs w) (d @ [c])" using d c by (simp add: fs_exists_def lookup_snoc)
  obtain nonce where "next_nonce w = (Inr nonce, w\<lparr>w_next := w_next w + 1\<rparr>)"
    by (auto simp: next_nonce_def)
  define tmp where "tmp = ''.syncthing.'' @ nonce @ ''.tmp''"
  have tp: "temporary_path d nonce = d @ [tmp]" by (simp add: temporary_path_def tmp_def)
  have tc: "tmp \<noteq> c" unfolding tmp_def by (rule temporary_neq [OF name])
  let ?w1 = "w\<lparr>w_next := w_next w + 1\<rparr>"
  obtain fs1 where fs1: "fs_create (d @ [tmp]) (File b) (w_fs w) = Inr fs1"
    and rest: "link_temporary (d @ [tmp]) (d @ [c]) b (?w1\<lparr>w_fs := fs1\<rparr>) = (Inr (), w')"
    using pub ex create_durable_dir_all_existing [OF d] \<open>next_nonce w = _\<close>
    unfolding atomic_publish_def
    by (auto simp: io_simps tp)
  obtain es1 where es1: "lookup (w_fs w) d = Some (Dir es1)" "map_of es1 tmp = None" "fs1 = modify d (dir_put tmp (File b)) (w_fs w)"
    using fs_create_Inr [OF fs1] by metis
  have [simp]: "es1 = es" using d es1(1) by simp
  have d1: "lookup fs1 d = Some (Dir (es @ [(tmp, File b)]))"
    using lookup_modify_same [OF d] es1(2,3) by (simp add: dir_put_fresh)
  then have link: "fs_hard_link (d @ [tmp]) (d @ [c]) fs1 = Inr (modify d (dir_put c (File b)) fs1)"
    using c es1(2) tc by (auto simp: fs_hard_link_def fs_create_def fs_exists_def lookup_snoc map_add_def split: option.splits)
  obtain fs3 where fs3: "fs_remove_file (d @ [tmp]) (modify d (dir_put c (File b)) fs1) = Inr fs3" "w' = ?w1\<lparr>w_fs := fs3\<rparr>"
    using rest link by (auto simp: link_temporary_def io_simps)
  have "fs3 = modify d (dir_del tmp) (modify d (dir_put c (File b)) fs1)" using fs_remove_file_Inr [OF fs3(1)] by metis
  then have fs3': "fs3 = modify d (dir_del tmp \<circ> dir_put c (File b) \<circ> dir_put tmp (File b)) (w_fs w)"
    by (simp add: es1(3) modify_modify o_assoc)
  have "map_of (es @ [(tmp, File b)]) c = None" using tc c by (simp add: map_add_def)
  then have "dir_del tmp (dir_put c (File b) (dir_put tmp (File b) es)) = es @ [(c, File b)]"
    using es1(2) tc by (auto simp: dir_put_fresh dir_del_def map_of_eq_None_iff filter_id_conv)
  then show ?thesis using fs3(2) fs3'
    by (intro exI [of _ "dir_del tmp \<circ> dir_put c (File b) \<circ> dir_put tmp (File b)"] exI [of _ "w_next w + 1"]) simp
qed

lemma atomic_publish_new:
  assumes "atomic_publish (d @ [c]) b w = (Inr (), w')"
    and d: "lookup (w_fs w) d = Some (Dir es)" and "map_of es c = None"
    and "hd c \<noteq> CHR ''.'' \<or> c = []"
  shows "\<exists>fs n. w' = w\<lparr>w_fs := fs, w_next := n\<rparr> \<and> lookup fs d = Some (Dir (es @ [(c, File b)]))
    \<and> (\<forall>q. apart d q \<longrightarrow> lookup fs q = lookup (w_fs w) q)"
proof -
  obtain f n where "w' = w\<lparr>w_fs := modify d f (w_fs w), w_next := n\<rparr>" "f es = es @ [(c, File b)]"
    using atomic_publish_modify [OF assms] by blast
  then show ?thesis using lookup_modify_same [OF d, of f] lookup_modify_apart [of d]
    by (intro exI [of _ "modify d f (w_fs w)"] exI [of _ n]) simp
qed

end
