(* ===== verification/Local_Commit.thy ===== *)
theory Local_Commit
  imports Local_Fs_Laws
begin

text \<open>
  What committing an upload does to the repository.  The main lemma shows that the rename of a staged
  operation into the app directory makes exactly one new manifest visible, whatever is
  already there: every check that a reader makes of a manifest directory (its two entries, the
  digest, the encoding, the validity of the manifest, the exact set of blobs) succeeds on what the
  commit wrote.  The locale \<open>manifest_codec\<close> is the contract of the JSON encoding.
\<close>

locale manifest_codec =
  fixes cd :: codec
  assumes manifest_roundtrip: "cd_manifest_to_vec cd m = Inr b \<Longrightarrow> cd_manifest_from_slice cd b = Some m"

section \<open>Definitions\<close>

text \<open>A staged operation: its directory holds the blob directory and nothing else.\<close>

definition operation_ready :: "folder_store \<Rightarrow> save_operation \<Rightarrow> world \<Rightarrow> bool" where
  "operation_ready store op w \<longleftrightarrow>
     apart (fo_work_root store) (app_dir store (so_app_id op))
     \<and> (\<exists>x. so_path op = fo_work_root store @ [x])
     \<and> (\<exists>bs. lookup (w_fs w) (so_path op) = Some (Dir [(''blobs'', Dir bs)]) \<and> distinct (map fst bs))"

text \<open>The blobs of a directory are exactly those that the files name, with their sizes.\<close>

definition blobs_exact :: "entries \<Rightarrow> (string, stored_file) btree \<Rightarrow> bool" where
  "blobs_exact bs files \<longleftrightarrow>
     distinct (map fst bs)
     \<and> (\<forall>(n, x) \<in> set bs. is_file x \<and> utf8_valid (as_bytes n) \<and> validate_blob_hash n = Inr ()
          \<and> n \<in> sf_sha1 ` snd ` set files)
     \<and> (\<forall>(p, file) \<in> set files. \<exists>b. map_of bs (sf_sha1 file) = Some (File b) \<and> length b = unat (sf_raw_size file))"

section \<open>Staged blobs\<close>

lemma remove_if_exists_Inr:
  assumes "remove_if_exists (d @ [c]) w = (Inr (), w')" and "lookup (w_fs w) d = Some (Dir es)"
  shows "\<exists>fs. w' = w\<lparr>w_fs := fs\<rparr> \<and> lookup fs d = Some (Dir (dir_del c es))
    \<and> (\<forall>q. apart d q \<longrightarrow> lookup fs q = lookup (w_fs w) q)
    \<and> (fs = w_fs w \<or> fs = modify d (dir_del c) (w_fs w))"
proof (cases "fs_remove_file (d @ [c]) (w_fs w)")
  case (Inr fs)
  then have "fs = modify d (dir_del c) (w_fs w)" using fs_remove_file_Inr by metis
  then show ?thesis
    using assms Inr by (intro exI [of _ fs])
      (auto simp: remove_if_exists_def lookup_modify_same lookup_modify_apart split: if_splits)
next
  case (Inl k)
  then have k: "k = NotFound" "w' = w" using assms(1) by (auto simp: remove_if_exists_def split: io_kind.splits)
  then have "map_of es c = None"
    using Inl assms(2) by (auto simp: fs_remove_file_def lookup_snoc split: option.splits node.splits)
  then have "dir_del c es = es" by (auto simp: dir_del_def map_of_eq_None_iff filter_id_conv)
  then show ?thesis using k assms(2) by (intro exI [of _ "w_fs w"]) simp
qed

definition prune_step :: "string list \<Rightarrow> path \<Rightarrow> string \<times> node \<Rightarrow> unit io" where
  "prune_step retained directory = (\<lambda>(name, n).
     if \<not> utf8_valid (as_bytes name) then io_fail (permanent ''local cloud blob name is not UTF-8'')
     else if \<not> is_file n \<or> \<not> is_ok (validate_blob_hash name)
     then io_fail (permanent ''invalid local cloud operation blob'')
     else if name \<notin> set retained then remove_if_exists (directory @ [name]) else io_ret ())"

lemma is_ok_iff: "is_ok m \<longleftrightarrow> (\<exists>x. m = Inr x)"
  by (cases m) simp_all

lemma prune_steps:
  assumes "io_for es (prune_step retained (p @ [c])) w = (Inr (), w')"
    and "lookup (w_fs w) (p @ [c]) = Some (Dir cur)" and "only_entry (w_fs w) p c"
  shows "(\<forall>(n, x) \<in> set es. utf8_valid (as_bytes n) \<and> is_file x \<and> validate_blob_hash n = Inr ())
    \<and> (\<exists>fs. w' = w\<lparr>w_fs := fs\<rparr>
         \<and> lookup fs (p @ [c]) = Some (Dir (filter (\<lambda>e. fst e \<in> fst ` set es \<longrightarrow> fst e \<in> set retained) cur))
         \<and> (\<forall>q. apart (p @ [c]) q \<longrightarrow> lookup fs q = lookup (w_fs w) q) \<and> only_entry fs p c)"
  using assms
proof (induction es arbitrary: w cur)
  case Nil
  then show ?case by (auto intro!: exI [of _ "w_fs w"])
next
  case (Cons e es)
  let ?d = "p @ [c]"
  obtain n x where e: "e = (n, x)" by fastforce
  obtain w1 where w1: "prune_step retained ?d (n, x) w = (Inr (), w1)" "io_for es (prune_step retained ?d) w1 = (Inr (), w')"
    using Cons.prems(1) e by (auto simp: io_bind_Inr)
  then have valid: "utf8_valid (as_bytes n)" "is_file x" "validate_blob_hash n = Inr ()"
    by (auto simp: prune_step_def is_ok_iff split: if_splits)
  define cur1 where "cur1 = (if n \<in> set retained then cur else dir_del n cur)"
  obtain fs1 where fs1: "w1 = w\<lparr>w_fs := fs1\<rparr>" "lookup fs1 ?d = Some (Dir cur1)"
    "\<And>q. apart ?d q \<Longrightarrow> lookup fs1 q = lookup (w_fs w) q" "only_entry fs1 p c"
  proof (cases "n \<in> set retained")
    case True
    then show thesis using that [of "w_fs w"] w1(1) valid Cons.prems(2,3)
      by (auto simp: prune_step_def is_ok_iff cur1_def)
  next
    case False
    then have "remove_if_exists (?d @ [n]) w = (Inr (), w1)"
      using w1(1) valid by (auto simp: prune_step_def is_ok_iff)
    from remove_if_exists_Inr [OF this Cons.prems(2)] that False only_entry_modify [OF Cons.prems(3)] Cons.prems(3)
    show thesis by (auto simp: cur1_def)
  qed
  have lk: "lookup (w_fs w1) ?d = Some (Dir cur1)" "only_entry (w_fs w1) p c" using fs1(1,2,4) by simp_all
  from Cons.IH [OF w1(2) lk] obtain fs where fs: "w' = w1\<lparr>w_fs := fs\<rparr>"
    "lookup fs ?d = Some (Dir (filter (\<lambda>e. fst e \<in> fst ` set es \<longrightarrow> fst e \<in> set retained) cur1))"
    "\<forall>q. apart ?d q \<longrightarrow> lookup fs q = lookup (w_fs w1) q" "only_entry fs p c"
    and all: "\<forall>(n, x) \<in> set es. utf8_valid (as_bytes n) \<and> is_file x \<and> validate_blob_hash n = Inr ()"
    by blast
  have "filter (\<lambda>e. fst e \<in> fst ` set es \<longrightarrow> fst e \<in> set retained) cur1
      = filter (\<lambda>e'. fst e' \<in> fst ` set (e # es) \<longrightarrow> fst e' \<in> set retained) cur"
    by (auto simp: cur1_def e dir_del_def intro!: filter_cong)
  with fs fs1 all valid e show ?case by (intro conjI exI [of _ fs]) auto
qed

lemma prune_operation_blobs_Inr:
  assumes "prune_operation_blobs op files w = (Inr (), w')"
    and "lookup (w_fs w) (so_path op) = Some (Dir [(''blobs'', Dir bs)])"
  shows "(\<forall>(n, x) \<in> set bs. utf8_valid (as_bytes n) \<and> is_file x \<and> validate_blob_hash n = Inr ())
    \<and> (\<exists>fs. w' = w\<lparr>w_fs := fs\<rparr>
         \<and> lookup fs (so_path op) = Some (Dir [(''blobs'', Dir (filter (\<lambda>e. fst e \<in> sf_sha1 ` snd ` set files) bs))])
         \<and> (\<forall>q. apart (so_path op @ [''blobs'']) q \<longrightarrow> lookup fs q = lookup (w_fs w) q))"
proof -
  have d: "lookup (w_fs w) (so_path op @ [''blobs'']) = Some (Dir bs)"
    using assms(2) by (simp add: lookup_snoc)
  have "io_for bs (prune_step (map (\<lambda>(_, file). sf_sha1 file) files) (so_path op @ [''blobs''])) w = (Inr (), w')"
    using assms(1) d by (simp add: prune_operation_blobs_def Let_def io_bind_Inr prune_step_def [abs_def])
  from prune_steps [OF this d] assms(2)
  obtain fs where fs: "w' = w\<lparr>w_fs := fs\<rparr>" "only_entry fs (so_path op) ''blobs''"
    "lookup fs (so_path op @ [''blobs'']) = Some (Dir (filter (\<lambda>e. fst e \<in> fst ` set bs \<longrightarrow>
       fst e \<in> set (map (\<lambda>(_, file). sf_sha1 file) files)) bs))"
    "\<forall>q. apart (so_path op @ [''blobs'']) q \<longrightarrow> lookup fs q = lookup (w_fs w) q"
    and all: "\<forall>(n, x) \<in> set bs. utf8_valid (as_bytes n) \<and> is_file x \<and> validate_blob_hash n = Inr ()"
    by (auto simp: only_entry_def)
  have "filter (\<lambda>e. fst e \<in> fst ` set bs \<longrightarrow> fst e \<in> set (map (\<lambda>(_, file). sf_sha1 file) files)) bs
      = filter (\<lambda>e. fst e \<in> sf_sha1 ` snd ` set files) bs"
    by (rule filter_cong) (auto simp: image_image split_def)
  with fs only_entryD [OF fs(2,3)] all show ?thesis by auto
qed

lemma rfold_unit_all:
  "rfold (\<lambda>x _. g x) xs () = Inr () \<longleftrightarrow> (\<forall>x \<in> set xs. g x = Inr ())"
  by (induction xs) (auto simp: rbind_eq_Inr)

lemma verify_operation_files_Inr:
  assumes "verify_operation_files cd op files fs = Inr ()"
    and "lookup fs (so_path op) = Some (Dir [(''blobs'', Dir bs)])" and "(p, file) \<in> set files"
  shows "\<exists>b. map_of bs (sf_sha1 file) = Some (File b) \<and> length b = unat (sf_raw_size file)
    \<and> hex_digest (cd_sha1 cd) b = sf_sha1 file"
proof -
  have "rbind (validate_cloud_path p) (\<lambda>_.
       rbind (operation_blob_path (so_path op) (sf_sha1 file)) (\<lambda>b. verify_blob_file cd b file fs)) = Inr ()"
    using assms(1,3) rfold_unit_all [of "\<lambda>(p, file). rbind (validate_cloud_path p) (\<lambda>_.
       rbind (operation_blob_path (so_path op) (sf_sha1 file)) (\<lambda>b. verify_blob_file cd b file fs))" files]
    by (fastforce simp: verify_operation_files_def split_def)
  then have "verify_blob_file cd (so_path op @ [''blobs'', sf_sha1 file]) file fs = Inr ()"
    by (auto simp: operation_blob_path_def rbind_eq_Inr)
  moreover have "lookup fs (so_path op @ [''blobs'', sf_sha1 file]) = map_of bs (sf_sha1 file)"
    using assms(2) by (simp add: lookup_append opt_bind_def split: option.splits)
  ultimately have "rbind (ok_or NotFound (map_of bs (sf_sha1 file))) (\<lambda>n. Inr n) \<noteq> Inl NotFound"
    and ver: "verify_blob_file cd (so_path op @ [''blobs'', sf_sha1 file]) file fs = Inr ()"
    and lk: "lookup fs (so_path op @ [''blobs'', sf_sha1 file]) = map_of bs (sf_sha1 file)"
    by (auto simp: verify_blob_file_def open_blob_file_def fs_node_def rbind_eq_Inr rbind_eq_Inl)
  then obtain n where n: "map_of bs (sf_sha1 file) = Some n"
    by (cases "map_of bs (sf_sha1 file)") auto
  show ?thesis
    using ver unfolding verify_blob_file_def open_blob_file_def fs_node_def lk n
    by (cases n) (auto simp: rbind_eq_Inr n split: if_splits)
qed

lemma blobs_exact_pruned:
  assumes all: "\<forall>(n, x) \<in> set bs. utf8_valid (as_bytes n) \<and> is_file x \<and> validate_blob_hash n = Inr ()"
    and d: "distinct (map fst bs)"
    and bs': "bs' = filter (\<lambda>e. fst e \<in> sf_sha1 ` snd ` set files) bs"
    and ver: "verify_operation_files cd op files fs = Inr ()"
    and lk: "lookup fs (so_path op) = Some (Dir [(''blobs'', Dir bs')])"
  shows "blobs_exact bs' files"
  unfolding blobs_exact_def
proof (intro conjI ballI)
  show "distinct (map fst bs')" unfolding bs' using d by (rule distinct_map_filter)
next
  fix e assume "e \<in> set bs'"
  then have e: "e \<in> set bs" "fst e \<in> sf_sha1 ` snd ` set files" unfolding bs' by simp_all
  with bspec [OF all e(1)]
  show "case e of (n, x) \<Rightarrow> is_file x \<and> utf8_valid (as_bytes n) \<and> validate_blob_hash n = Inr () \<and> n \<in> sf_sha1 ` snd ` set files"
    by (cases e) simp
next
  fix e assume e: "e \<in> set files"
  obtain p sf where pf: "e = (p, sf)" by fastforce
  from verify_operation_files_Inr [OF ver lk e [unfolded pf]]
  show "case e of (p, file) \<Rightarrow> \<exists>b. map_of bs' (sf_sha1 file) = Some (File b) \<and> length b = unat (sf_raw_size file)"
    unfolding pf by auto
qed

lemma validate_manifest_blobs_steps:
  assumes "\<forall>(n, x) \<in> set bs. is_file x \<and> utf8_valid (as_bytes n) \<and> validate_blob_hash n = Inr ()
      \<and> (\<exists>size. map_of expected n = Some size \<and> node_len x = unat size)"
  shows "rfold (validate_manifest_blob expected) bs acc = Inr (fold bts_insert (map fst bs) acc)"
  using assms
proof (induction bs arbitrary: acc)
  case (Cons e bs)
  then show ?case by (cases e) (auto simp: validate_manifest_blob_def validate_blob_hash_def)
qed simp

lemma fold_bts_insert:
  "sorted_wrt (<) acc \<Longrightarrow> sorted_wrt (<) (fold bts_insert xs acc) \<and> set (fold bts_insert xs acc) = set xs \<union> set acc"
  by (induction xs arbitrary: acc) (auto simp: bts_insert_sorted bts_insert_set)

lemma blobs_exact_entry:
  "blobs_exact bs files \<Longrightarrow> (n, x) \<in> set bs \<Longrightarrow>
     is_file x \<and> utf8_valid (as_bytes n) \<and> validate_blob_hash n = Inr () \<and> n \<in> sf_sha1 ` snd ` set files
     \<and> map_of bs n = Some x"
  unfolding blobs_exact_def by (clarify, drule (1) bspec) (simp add: map_of_is_SomeI)

lemma blobs_exact_file:
  "blobs_exact bs files \<Longrightarrow> (p, sf) \<in> set files \<Longrightarrow>
     \<exists>b. map_of bs (sf_sha1 sf) = Some (File b) \<and> length b = unat (sf_raw_size sf)"
  unfolding blobs_exact_def by blast

lemma validate_manifest_blobs_exact:
  assumes ex: "blobs_exact bs files" and lk: "lookup fs d = Some (Dir bs)"
  shows "validate_manifest_blobs d files fs = Inr ()"
proof -
  let ?expected = "bt_of_list (map (\<lambda>(_, file). (sf_sha1 file, sf_raw_size file)) files)"
  have keys: "fst ` set ?expected = sf_sha1 ` snd ` set files"
    by (simp add: bt_of_list_keys image_image split_def)
  have size: "\<exists>p file. (p, file) \<in> set files \<and> sf_sha1 file = n \<and> sf_raw_size file = sz"
    if "map_of ?expected n = Some sz" for n sz
    using map_of_SomeD [OF that [unfolded map_of_bt_of_list]] by auto
  have "\<forall>(n, x) \<in> set bs. is_file x \<and> utf8_valid (as_bytes n) \<and> validate_blob_hash n = Inr ()
      \<and> (\<exists>size. map_of ?expected n = Some size \<and> node_len x = unat size)"
  proof (clarify, intro conjI)
    fix n x assume nx: "(n, x) \<in> set bs"
    from blobs_exact_entry [OF ex nx]
    show "is_file x" "utf8_valid (as_bytes n)" "validate_blob_hash n = Inr ()" by simp_all
    have "n \<in> fst ` set ?expected" unfolding keys using blobs_exact_entry [OF ex nx] by blast
    then have "map_of ?expected n \<noteq> None" unfolding map_of_eq_None_iff by blast
    then obtain sz where sz: "map_of ?expected n = Some sz" by blast
    from size [OF sz] obtain p sf where f: "(p, sf) \<in> set files" "sf_sha1 sf = n" "sf_raw_size sf = sz" by blast
    have "map_of bs n = Some x" using blobs_exact_entry [OF ex nx] by blast
    moreover obtain b where "map_of bs (sf_sha1 sf) = Some (File b)" "length b = unat (sf_raw_size sf)"
      using blobs_exact_file [OF ex f(1)] by blast
    ultimately have "node_len x = unat sz" using f(2,3) by simp
    with sz show "\<exists>size. map_of ?expected n = Some size \<and> node_len x = unat size" by blast
  qed
  then have run: "rfold (validate_manifest_blob ?expected) bs [] = Inr (fold bts_insert (map fst bs) [])"
    by (rule validate_manifest_blobs_steps)
  have "fst ` set bs = fst ` set ?expected"
  proof
    show "fst ` set bs \<subseteq> fst ` set ?expected" unfolding keys using blobs_exact_entry [OF ex] by auto
    show "fst ` set ?expected \<subseteq> fst ` set bs"
    proof
      fix n assume "n \<in> fst ` set ?expected"
      then obtain p sf where "(p, sf) \<in> set files" "n = sf_sha1 sf" unfolding keys by auto
      then have "map_of bs n \<noteq> None" using blobs_exact_file [OF ex] by auto
      then show "n \<in> fst ` set bs" by (simp add: map_of_eq_None_iff)
    qed
  qed
  moreover have "sorted_wrt (<) (map fst ?expected)" using bt_wf_of_list by (simp only: bt_wf_def)
  ultimately have "fold bts_insert (map fst bs) [] = map fst ?expected"
    using fold_bts_insert [of "[]" "map fst bs"] by (intro sorted_wrt_less_unique) simp_all
  with run show ?thesis by (simp add: validate_manifest_blobs_def fs_read_dir_def lk)
qed

section \<open>Publishing\<close>

text \<open>Reading an entry of the app directory depends on that entry alone.\<close>

lemma collect_manifest_entry_cong:
  assumes "\<And>q. lookup fs' (d @ name # q) = lookup fs (d @ name # q)"
  shows "collect_manifest_entry cd d account app_id fs' (name, n) ms = collect_manifest_entry cd d account app_id fs (name, n) ms"
proof -
  have "lookup fs' (d @ [name]) = lookup fs (d @ [name])"
    "lookup fs' (d @ [name, ''manifest.json'']) = lookup fs (d @ [name, ''manifest.json''])"
    "lookup fs' (d @ [name, ''blobs'']) = lookup fs (d @ [name, ''blobs''])"
    using assms by simp_all
  then have "validate_manifest_directory (d @ [name]) fs' = validate_manifest_directory (d @ [name]) fs"
    "read_bounded_file ((d @ [name]) @ [''manifest.json'']) k l fs' = read_bounded_file ((d @ [name]) @ [''manifest.json'']) k l fs"
    "validate_manifest_blobs ((d @ [name]) @ [''blobs'']) files fs' = validate_manifest_blobs ((d @ [name]) @ [''blobs'']) files fs"
    for k l files
    by (simp_all add: validate_manifest_directory_def read_bounded_file_def
        validate_manifest_blobs_def fs_node_def fs_read_dir_def)
  then show ?thesis
    by (simp only: collect_manifest_entry_def split_conv Let_def)
qed

lemma rfold_cong:
  "(\<And>x acc. x \<in> set xs \<Longrightarrow> f x acc = g x acc) \<Longrightarrow> rfold f xs acc = rfold g xs acc"
  by (induction xs arbitrary: acc) (auto simp: rbind_def split: sum.splits)

lemma collect_new_entry:
  assumes es: "lookup fs d = Some (Dir (es @ [(i, n)]))" and fresh: "map_of es i = None"
    and old: "rfold (collect_manifest_entry cd d account app_id fs0) es [] = Inr ms"
    and same: "\<And>name q. name \<in> fst ` set es \<Longrightarrow> lookup fs (d @ name # q) = lookup fs0 (d @ name # q)"
    and step: "collect_manifest_entry cd d account app_id fs (i, n) ms = Inr ms'"
  shows "collect_manifest_objects cd d account app_id fs = Inr ms'"
proof -
  have "rfold (collect_manifest_entry cd d account app_id fs) es [] = Inr ms"
    using old rfold_cong [of es "collect_manifest_entry cd d account app_id fs" "collect_manifest_entry cd d account app_id fs0"]
      collect_manifest_entry_cong [where fs' = fs and fs = fs0] same by (metis fst_conv image_eqI surj_pair)
  with es step show ?thesis
    by (simp add: collect_manifest_objects_def fs_exists_def fs_read_dir_def rfold_append)
qed

text \<open>A collected manifest directory is not empty.\<close>

lemma collected_not_empty:
  assumes "rfold (collect_manifest_entry cd d account app_id fs) es acc = Inr ms"
    and "(name, n) \<in> set es" and "lookup fs (d @ [name]) = Some (Dir [])" and "\<not> is_non_manifest_app_entry name"
  shows False
  using assms
proof (induction es arbitrary: acc)
  case (Cons e es)
  then obtain acc1 where a: "collect_manifest_entry cd d account app_id fs e acc = Inr acc1"
    "rfold (collect_manifest_entry cd d account app_id fs) es acc1 = Inr ms"
    by (auto simp: rbind_eq_Inr)
  show ?case
  proof (cases "e = (name, n)")
    case True
    have "\<exists>e. validate_manifest_directory (d @ [name]) fs = Inl e"
      using Cons.prems(3) by (simp add: validate_manifest_directory_def fs_read_dir_def)
    then show ?thesis using a(1) Cons.prems(4) True
      by (auto simp: collect_manifest_entry_def Let_def split: if_splits)
  next
    case False
    then show ?thesis using Cons.IH [OF a(2)] Cons.prems by auto
  qed
qed simp

lemma published_entry_collects:
  assumes codec: "manifest_codec cd"
    and n: "n = Dir [(''blobs'', Dir bs), (''manifest.json'', File b)]"
    and lk: "lookup fs (d @ [i]) = Some n"
    and vec: "cd_manifest_to_vec cd m = Inr b" and len: "length b \<le> MAX_MANIFEST_BYTES"
    and i: "i = hex_digest (cd_sha256 cd) b" "validate_manifest_id i = Inr ()" "utf8_valid (as_bytes i)"
    and m: "validate_manifest i account app_id m = Inr ()" and ex: "blobs_exact bs (sm_files m)"
    and fresh: "map_of ms i = None" and room: "length ms < MAX_MANIFEST_OBJECTS"
  shows "collect_manifest_entry cd d account app_id fs (i, n) ms = Inr (bt_insert i m ms)"
proof -
  have "length i = 64" using i(2) by (simp add: validate_manifest_id_def)
  then have ne: "\<not> is_non_manifest_app_entry i" by (auto simp: is_non_manifest_app_entry_def)
  have lks: "lookup fs (d @ [i]) = Some (Dir [(''blobs'', Dir bs), (''manifest.json'', File b)])"
    "lookup fs (d @ [i, ''manifest.json'']) = Some (File b)" "lookup fs (d @ [i, ''blobs'']) = Some (Dir bs)"
    using lookup_append [of fs "d @ [i]"] lk n by simp_all
  have utf: "utf8_valid (as_bytes ''blobs'')" "utf8_valid (as_bytes ''manifest.json'')" by code_simp+
  have "validate_manifest_directory (d @ [i]) fs = Inr ()"
    using lks(1) utf by (simp add: validate_manifest_directory_def fs_read_dir_def)
  moreover have "read_bounded_file (d @ [i, ''manifest.json'']) MAX_MANIFEST_BYTES ''manifest'' fs = Inr b"
    using lks(2) len by (simp add: read_bounded_file_def fs_node_def)
  moreover have "validate_manifest_blobs (d @ [i, ''blobs'']) (sm_files m) fs = Inr ()"
    by (rule validate_manifest_blobs_exact [OF ex lks(3)])
  moreover have "cd_manifest_from_slice cd b = Some m"
    by (rule manifest_codec.manifest_roundtrip [OF codec vec])
  moreover have "is_dir n" "\<not> MAX_MANIFEST_OBJECTS \<le> length ms" using n room by simp_all
  ultimately show ?thesis
    using i(2,3) m fresh ne by (simp add: collect_manifest_entry_def is_ok_iff Let_def i(1) [symmetric])
qed

lemma hex_string_utf8: "list_all is_ascii_hexdigit s \<Longrightarrow> utf8_valid (as_bytes s)"
proof (induction s)
  case (Cons c s)
  then have "of_char c \<le> (127 :: nat)" by (auto simp: is_ascii_hexdigit_def char_in_def)
  then have "char_byte c \<le> 0x7F" by (simp add: char_byte_def word_le_nat_alt unat_of_nat)
  with Cons show ?case by (simp add: as_bytes_def)
qed (simp add: as_bytes_def)

text \<open>The successful run of \<open>publish_operation\<close>, step by step.\<close>

lemma publish_operation_Inr:
  assumes "publish_operation cd store op files identity max_revision w = (Inr revision, w')"
    and "fo_account store = Some account"
  defines "m \<equiv> \<lparr>sm_steam_id64 = account, sm_app_id = so_app_id op, sm_revision = revision,
                 sm_parents = so_parents op, sm_client_id = ci_client_id identity,
                 sm_machine_name = ci_machine_name identity, sm_created_at_ms = w_millis w,
                 sm_files = files\<rparr>"
  obtains b w1 w2 fs where "u64_checked_add max_revision 1 = Some revision"
    "cd_manifest_to_vec cd m = Inr b" "length b \<le> MAX_MANIFEST_BYTES"
    "validate_manifest (hex_digest (cd_sha256 cd) b) account (so_app_id op) m = Inr ()"
    "validate_manifest_id (hex_digest (cd_sha256 cd) b) = Inr ()"
    "atomic_publish (so_path op @ [''manifest.json'']) b w = (Inr (), w1)"
    "create_durable_dir_all (app_dir store (so_app_id op)) w1 = (Inr (), w2)"
    "fs_rename (so_path op) (app_dir store (so_app_id op) @ [hex_digest (cd_sha256 cd) b]) (w_fs w2) = Inr fs"
    "w' = w2\<lparr>w_fs := fs, w_closed := so_path op # w_closed w2\<rparr>"
  using assms(1,2)
  unfolding publish_operation_def m_def
  by (auto simp: io_simps manifest_account_def manifest_dir_def Let_def rbind_eq_Inr close_operation_def
      validate_app_id_def)

text \<open>The rename moves the staged directory below the app directory and changes nothing else there.\<close>

lemma rename_into_app:
  assumes ren: "fs_rename (W @ [x]) (A @ [i]) fs = Inr fs'" and ap: "apart W A"
    and P: "lookup fs (W @ [x]) = Some n" and dirn: "is_dir n"
    and A: "lookup fs A = Some (Dir es)" and fresh: "map_of es i \<noteq> Some (Dir [])"
  shows "map_of es i = None \<and> lookup fs' A = Some (Dir (es @ [(i, n)]))
    \<and> (\<forall>name q. map_of es name \<noteq> None \<longrightarrow> lookup fs' (A @ name # q) = lookup fs (A @ name # q))
    \<and> (\<exists>ws. lookup fs' W = Some (Dir ws) \<and> map_of ws x = None)"
proof -
  obtain y ws es' where r: "lookup fs W = Some (Dir ws)" "map_of ws x = Some y" "lookup fs A = Some (Dir es')"
    "map_of es' i = None \<or> map_of es' i = Some (Dir []) \<or> (\<exists>n. map_of es' i = Some n \<and> \<not> is_dir n \<and> \<not> is_dir y)"
    "fs' = modify A (dir_put i y) (modify W (dir_del x) fs)"
    by (rule fs_rename_Inr [OF ren])
  have y: "y = n" using P r(1,2) by (simp add: lookup_snoc)
  have es': "es' = es" using A r(3) by simp
  have none: "map_of es i = None" using r(4) fresh dirn y es' by auto
  have A1: "lookup (modify W (dir_del x) fs) A = Some (Dir es)"
    using lookup_modify_apart [OF ap] A by simp
  have A2: "lookup fs' A = Some (Dir (es @ [(i, n)]))"
    using lookup_modify_same [OF A1] none y by (simp add: r(5) dir_put_fresh)
  have "lookup fs' (A @ name # q) = lookup fs (A @ name # q)" if "map_of es name \<noteq> None" for name q
  proof -
    have "name \<noteq> i" using that none by auto
    then show ?thesis
      using A A2 by (simp add: lookup_append map_add_def split: option.splits)
  qed
  moreover have "lookup fs' W = Some (Dir (dir_del x ws))"
    using lookup_modify_apart [OF apart_sym [THEN iffD1, OF ap]] lookup_modify_same [OF r(1)] by (simp add: r(5))
  ultimately show ?thesis using none A2 by (simp add: map_of_dir_del)
qed

lemma collect_entry_cases:
  assumes "collect_manifest_entry cd d account app_id fs (name, n) acc = Inr ms"
  shows "(is_non_manifest_app_entry name \<and> ms = acc)
    \<or> (\<exists>m. ms = bt_insert name m acc \<and> map_of acc name = None \<and> length acc < MAX_MANIFEST_OBJECTS
         \<and> \<not> is_non_manifest_app_entry name \<and> is_dir n
         \<and> validate_manifest name account app_id m = Inr () \<and> validate_manifest_id name = Inr ())"
  using assms
  by (auto simp: collect_manifest_entry_def rbind_eq_Inr Let_def is_ok_iff split: if_splits)

lemma collect_keys:
  "rfold (collect_manifest_entry cd d account app_id fs) es acc = Inr ms \<Longrightarrow> bt_wf acc \<Longrightarrow>
     bt_wf ms \<and> fst ` set ms \<subseteq> fst ` set es \<union> fst ` set acc"
proof (induction es arbitrary: acc)
  case (Cons e es)
  obtain name n where e: "e = (name, n)" by fastforce
  obtain a where a: "collect_manifest_entry cd d account app_id fs (name, n) acc = Inr a"
    "rfold (collect_manifest_entry cd d account app_id fs) es a = Inr ms"
    using Cons.prems(1) e by (auto simp: rbind_eq_Inr)
  have k: "bt_wf a" "fst ` set a \<subseteq> insert name (fst ` set acc)"
    using collect_entry_cases [OF a(1)] Cons.prems(2) by (elim disjE exE conjE; simp add: bt_wf_insert bt_insert_keys; blast)+
  have "bt_wf ms" "fst ` set ms \<subseteq> fst ` set es \<union> fst ` set a"
    using Cons.IH [OF a(2) k(1)] by (rule conjunct1, rule conjunct2)
  moreover have "fst ` set (e # es) = insert name (fst ` set es)" by (simp add: e)
  ultimately show ?case using k(2) by blast
qed simp

lemma collect_manifest_objects_wf:
  "collect_manifest_objects cd d account app_id fs = Inr ms \<Longrightarrow> bt_wf ms"
  by (auto simp: collect_manifest_objects_def rbind_eq_Inr split: if_splits dest: collect_keys)

lemma app_dir_created:
  assumes "create_durable_dir_all A w = (Inr (), w')"
  shows "\<exists>es. lookup (w_fs w') A = Some (Dir es) \<and> (if fs_exists (w_fs w) A then w' = w else es = [])
    \<and> (\<forall>q n. lookup (w_fs w) q = Some n \<longrightarrow> \<not> prefix q A \<longrightarrow> lookup (w_fs w') q = Some n)"
proof -
  obtain fs es where r: "w' = w\<lparr>w_fs := fs\<rparr>" "lookup fs A = Some (Dir es)"
    "if fs_exists (w_fs w) A then w' = w else es = []"
    "\<forall>q n. lookup (w_fs w) q = Some n \<longrightarrow> \<not> prefix q A \<longrightarrow> lookup fs q = Some n"
    using create_durable_dir_all_Inr [OF assms] by blast
  have "w_fs w' = fs" using r(1) by simp
  with r(2-4) show ?thesis by (intro exI [of _ es]) simp
qed

text \<open>What the rename finds: the complete operation directory, and the app directory as it was.\<close>

lemma publish_stages:
  assumes ap: "apart (fo_work_root store) (app_dir store (so_app_id op))" and P: "so_path op = fo_work_root store @ [x]"
    and lk: "lookup (w_fs w) (so_path op) = Some (Dir [(''blobs'', Dir bs)])"
    and s1: "atomic_publish (so_path op @ [''manifest.json'']) b w = (Inr (), w1)"
    and s2: "create_durable_dir_all (app_dir store (so_app_id op)) w1 = (Inr (), w2)"
  defines "A \<equiv> app_dir store (so_app_id op)"
  shows "\<exists>es. lookup (w_fs w2) A = Some (Dir es)
    \<and> lookup (w_fs w2) (so_path op) = Some (Dir [(''blobs'', Dir bs), (''manifest.json'', File b)])
    \<and> (if fs_exists (w_fs w) A then lookup (w_fs w) A = Some (Dir es) \<and> (\<forall>q. lookup (w_fs w2) (A @ q) = lookup (w_fs w) (A @ q))
       else es = [])"
proof -
  obtain fs1 k where fs1: "w1 = w\<lparr>w_fs := fs1, w_next := k\<rparr>"
    "lookup fs1 (so_path op) = Some (Dir [(''blobs'', Dir bs), (''manifest.json'', File b)])"
    "\<And>q. apart (so_path op) q \<Longrightarrow> lookup fs1 q = lookup (w_fs w) q"
    using atomic_publish_new [OF s1 lk] by auto
  have apP: "apart (so_path op) (A @ q)" for q unfolding P A_def by (intro apart_append ap)
  have below: "lookup (w_fs w1) (A @ q) = lookup (w_fs w) (A @ q)" for q using fs1(1) fs1(3) [OF apP] by simp
  obtain es where es: "lookup (w_fs w2) A = Some (Dir es)" "if fs_exists (w_fs w1) A then w2 = w1 else es = []"
    "\<And>q n. lookup (w_fs w1) q = Some n \<Longrightarrow> \<not> prefix q A \<Longrightarrow> lookup (w_fs w2) q = Some n"
    using app_dir_created [OF s2 [folded A_def]] by blast
  have "\<not> prefix (so_path op) A" using apP [of "[]"] by (simp add: apart_def)
  then have "lookup (w_fs w2) (so_path op) = Some (Dir [(''blobs'', Dir bs), (''manifest.json'', File b)])"
    using es(3) fs1(1,2) by simp
  moreover have "fs_exists (w_fs w1) A = fs_exists (w_fs w) A" using below [of "[]"] by (simp add: fs_exists_def)
  ultimately show ?thesis using es(1,2) below below [of "[]"]
    by (intro exI [of _ es]) (cases "fs_exists (w_fs w) A"; simp)
qed

text \<open>A repository that reads as \<open>ms\<close> reads as \<open>ms\<close> with the new manifest after the rename.\<close>

lemma renamed_collects:
  assumes codec: "manifest_codec cd" and ap: "apart W A"
    and ren: "fs_rename (W @ [x]) (A @ [i]) fs2 = Inr fs3"
    and P: "lookup fs2 (W @ [x]) = Some (Dir [(''blobs'', Dir bs), (''manifest.json'', File b)])"
    and A: "lookup fs2 A = Some (Dir es)"
    and run: "rfold (collect_manifest_entry cd A account app_id fs) es [] = Inr ms"
    and same: "\<And>name q. map_of es name \<noteq> None \<Longrightarrow> lookup fs2 (A @ name # q) = lookup fs (A @ name # q)"
    and vec: "cd_manifest_to_vec cd m = Inr b" and len: "length b \<le> MAX_MANIFEST_BYTES"
    and i: "i = hex_digest (cd_sha256 cd) b" "validate_manifest_id i = Inr ()"
    and m: "validate_manifest i account app_id m = Inr ()" and ex: "blobs_exact bs (sm_files m)"
    and room: "length ms < MAX_MANIFEST_OBJECTS"
  shows "collect_manifest_objects cd A account app_id fs3 = Inr (bt_insert i m ms) \<and> map_of ms i = None
    \<and> lookup fs3 (A @ [i]) = Some (Dir [(''blobs'', Dir bs), (''manifest.json'', File b)])
    \<and> (\<exists>ws. lookup fs3 W = Some (Dir ws) \<and> map_of ws x = None)"
proof -
  let ?n = "Dir [(''blobs'', Dir bs), (''manifest.json'', File b)]"
  have hex: "list_all is_ascii_hexdigit i" "length i = 64" using i(2) by (simp_all add: validate_manifest_id_def)
  then have ne: "\<not> is_non_manifest_app_entry i" by (auto simp: is_non_manifest_app_entry_def)
  have fresh: "map_of es i \<noteq> Some (Dir [])"
  proof
    assume em: "map_of es i = Some (Dir [])"
    then have "lookup fs (A @ [i]) = Some (Dir [])" using same [of i "[]"] A by (simp add: lookup_snoc)
    from collected_not_empty [OF run map_of_SomeD [OF em] this ne] show False .
  qed
  from rename_into_app [OF ren ap P _ A fresh]
  have r: "map_of es i = None" "lookup fs3 A = Some (Dir (es @ [(i, ?n)]))"
    "\<And>name q. map_of es name \<noteq> None \<Longrightarrow> lookup fs3 (A @ name # q) = lookup fs2 (A @ name # q)"
    and ws: "\<exists>ws. lookup fs3 W = Some (Dir ws) \<and> map_of ws x = None"
    by simp_all
  have msi: "map_of ms i = None" using collect_keys [OF run] r(1) by (auto simp: map_of_eq_None_iff)
  have lk3: "lookup fs3 (A @ [i]) = Some ?n" using r(1,2) by (simp add: lookup_snoc map_add_def)
  have step: "collect_manifest_entry cd A account app_id fs3 (i, ?n) ms = Inr (bt_insert i m ms)"
    by (rule published_entry_collects [OF codec refl lk3 vec len i hex_string_utf8 [OF hex(1)] m ex msi room])
  have "collect_manifest_objects cd A account app_id fs3 = Inr (bt_insert i m ms)"
    by (rule collect_new_entry [OF r(2,1) run _ step]) (simp add: r(3) same map_of_eq_None_iff)
  with msi lk3 ws show ?thesis by blast
qed

lemma publish_collects:
  assumes codec: "manifest_codec cd" and ap: "apart (fo_work_root store) (app_dir store (so_app_id op))"
    and P: "so_path op = fo_work_root store @ [x]"
    and lk: "lookup (w_fs w) (so_path op) = Some (Dir [(''blobs'', Dir bs)])"
    and ex: "blobs_exact bs files" and acct: "fo_account store = Some account"
    and old: "collect_manifest_objects cd (app_dir store (so_app_id op)) account (so_app_id op) (w_fs w) = Inr ms"
    and room: "length ms < MAX_MANIFEST_OBJECTS"
    and pub: "publish_operation cd store op files identity max_revision w = (Inr revision, w')"
  defines "A \<equiv> app_dir store (so_app_id op)"
  shows "\<exists>i m b. u64_checked_add max_revision 1 = Some revision
    \<and> collect_manifest_objects cd A account (so_app_id op) (w_fs w') = Inr (bt_insert i m ms)
    \<and> map_of ms i = None \<and> validate_manifest i account (so_app_id op) m = Inr ()
    \<and> sm_revision m = revision \<and> sm_parents m = so_parents op \<and> sm_files m = files
    \<and> lookup (w_fs w') (A @ [i]) = Some (Dir [(''blobs'', Dir bs), (''manifest.json'', File b)])
    \<and> i = hex_digest (cd_sha256 cd) b \<and> cd_manifest_from_slice cd b = Some m"
proof -
  define m where "m = \<lparr>sm_steam_id64 = account, sm_app_id = so_app_id op, sm_revision = revision,
                 sm_parents = so_parents op, sm_client_id = ci_client_id identity,
                 sm_machine_name = ci_machine_name identity, sm_created_at_ms = w_millis w,
                 sm_files = files\<rparr>"
  obtain b w1 w2 fs3 where rev: "u64_checked_add max_revision 1 = Some revision"
    and vec: "cd_manifest_to_vec cd m = Inr b" and len: "length b \<le> MAX_MANIFEST_BYTES"
    and val: "validate_manifest (hex_digest (cd_sha256 cd) b) account (so_app_id op) m = Inr ()"
    and vid: "validate_manifest_id (hex_digest (cd_sha256 cd) b) = Inr ()"
    and s1: "atomic_publish (so_path op @ [''manifest.json'']) b w = (Inr (), w1)"
    and s2: "create_durable_dir_all (app_dir store (so_app_id op)) w1 = (Inr (), w2)"
    and s3: "fs_rename (so_path op) (app_dir store (so_app_id op) @ [hex_digest (cd_sha256 cd) b]) (w_fs w2) = Inr fs3"
    and w': "w' = w2\<lparr>w_fs := fs3, w_closed := so_path op # w_closed w2\<rparr>"
    unfolding m_def by (rule publish_operation_Inr [OF pub acct])
  obtain es where es: "lookup (w_fs w2) A = Some (Dir es)"
    "lookup (w_fs w2) (so_path op) = Some (Dir [(''blobs'', Dir bs), (''manifest.json'', File b)])"
    "if fs_exists (w_fs w) A then lookup (w_fs w) A = Some (Dir es) \<and> (\<forall>q. lookup (w_fs w2) (A @ q) = lookup (w_fs w) (A @ q))
       else es = []"
    using publish_stages [OF ap P lk s1 s2] unfolding A_def [symmetric] by blast
  have run: "rfold (collect_manifest_entry cd A account (so_app_id op) (w_fs w)) es [] = Inr ms"
    using old es(3) unfolding A_def [symmetric]
    by (cases "fs_exists (w_fs w) A") (simp_all add: collect_manifest_objects_def fs_read_dir_def)
  have same: "lookup (w_fs w2) (A @ name # q) = lookup (w_fs w) (A @ name # q)" if "map_of es name \<noteq> None" for name q
    using that es(3) by (cases "fs_exists (w_fs w) A") auto
  have ex': "blobs_exact bs (sm_files m)" using ex by (simp add: m_def)
  from renamed_collects [OF codec ap s3 [unfolded P] es(2) [unfolded P] es(1) [unfolded A_def] run [unfolded A_def]
      same [unfolded A_def] vec len refl vid val ex' room]
  have r: "collect_manifest_objects cd A account (so_app_id op) fs3 = Inr (bt_insert (hex_digest (cd_sha256 cd) b) m ms)"
    "map_of ms (hex_digest (cd_sha256 cd) b) = None"
    "lookup fs3 (A @ [hex_digest (cd_sha256 cd) b]) = Some (Dir [(''blobs'', Dir bs), (''manifest.json'', File b)])"
    unfolding A_def by blast+
  have "sm_revision m = revision" "sm_parents m = so_parents op" "sm_files m = files" by (simp_all add: m_def)
  moreover have "w_fs w' = fs3" using w' by simp
  moreover have "cd_manifest_from_slice cd b = Some m" by (rule manifest_codec.manifest_roundtrip [OF codec vec])
  ultimately show ?thesis using rev val r by blast
qed

end
