(* ===== verification/Local_Staging.thy ===== *)
theory Local_Staging
  imports Local_Commit
begin

text \<open>
  Staging: what \<open>begin_operation\<close> and \<open>stage_file\<close> put into the private directory of an upload
  operation, and that neither touches what readers of the repository see.  A directory under work holds
  exactly the blob directory; the blobs it links are those of the manifest it starts from, and a staged
  file adds its own blob.
\<close>

section \<open>Definitions\<close>

definition work_dir :: "path \<Rightarrow> entries \<Rightarrow> node \<Rightarrow> bool" where
  "work_dir P bs fs \<longleftrightarrow> lookup fs P = Some (Dir [(''blobs'', Dir bs)]) \<and> distinct (map fst bs)"

text \<open>The step leaves everything below \<open>A\<close> alone.\<close>

definition same_below :: "path \<Rightarrow> node \<Rightarrow> node \<Rightarrow> bool" where
  "same_below A fs fs' \<longleftrightarrow> (\<forall>q. lookup fs' (A @ q) = lookup fs (A @ q))"

section \<open>What readers see\<close>

lemma same_below_refl [simp]: "same_below A fs fs"
  by (simp add: same_below_def)

lemma same_below_trans: "same_below A fs fs1 \<Longrightarrow> same_below A fs1 fs2 \<Longrightarrow> same_below A fs fs2"
  by (simp add: same_below_def)

lemma same_below_modify: "apart p A \<Longrightarrow> same_below A fs (modify p f fs)"
  by (simp add: same_below_def lookup_modify_apart apart_append(2))

lemma collect_manifest_objects_cong:
  assumes "same_below A fs fs'"
  shows "collect_manifest_objects cd A account app_id fs' = collect_manifest_objects cd A account app_id fs"
proof -
  have q: "lookup fs' (A @ q) = lookup fs (A @ q)" for q using assms by (simp add: same_below_def)
  have "lookup fs' A = lookup fs A" using q [of "[]"] by simp
  moreover have "rfold (collect_manifest_entry cd A account app_id fs') es acc = rfold (collect_manifest_entry cd A account app_id fs) es acc"
    for es acc
    by (rule rfold_cong) (metis collect_manifest_entry_cong q surj_pair)
  ultimately show ?thesis by (simp add: collect_manifest_objects_def fs_exists_def fs_read_dir_def)
qed

lemma resolve_app_cong:
  "same_below (app_dir store app_id) fs fs' \<Longrightarrow> resolve_app cd store app_id fs' = resolve_app cd store app_id fs"
  by (simp add: resolve_app_def store_manifest_objects_def rbind_def collect_manifest_objects_cong split: sum.splits)

section \<open>The operation directory\<close>

lemma work_dir_put:
  assumes "work_dir P bs fs" "f bs = bs @ [(h, x)]" "map_of bs h = None"
  shows "work_dir P (bs @ [(h, x)]) (modify (P @ [''blobs'']) f fs)"
  using assms by (auto simp: work_dir_def lookup_modify_above map_of_eq_None_iff)

lemma work_dir_blobs: "work_dir P bs fs \<Longrightarrow> lookup fs (P @ [''blobs'']) = Some (Dir bs)"
  by (simp add: work_dir_def lookup_snoc)

lemma work_dir_blob: "work_dir P bs fs \<Longrightarrow> lookup fs (P @ [''blobs'', h]) = map_of bs h"
  using lookup_snoc [of fs "P @ [''blobs'']" h] work_dir_blobs by (simp split: option.splits)

lemma new_work_dir:
  assumes run: "create_durable_dir_all (W @ [x, ''blobs'']) w = (Inr (), w')"
    and W: "lookup (w_fs w) W = Some (Dir ws)" and x: "map_of ws x = None" and ap: "apart W A"
  shows "\<exists>fs. w' = w\<lparr>w_fs := fs\<rparr> \<and> work_dir (W @ [x]) [] fs \<and> same_below A (w_fs w) fs"
proof -
  have n1: "\<not> fs_exists (w_fs w) (W @ [x])" using W x by (simp add: fs_exists_def lookup_snoc)
  have n2: "\<not> fs_exists (w_fs w) ((W @ [x]) @ [''blobs''])"
    using W x by (simp add: fs_exists_def lookup_append)
  obtain w1 where w1: "create_durable_dir (W @ [x]) w = (Inr (), w1)" "create_durable_dir ((W @ [x]) @ [''blobs'']) w1 = (Inr (), w')"
  proof -
    have "create_durable_dir_all (W @ [x]) w = create_durable_dir (W @ [x]) w"
      using create_durable_dir_all_snoc [OF n1] create_durable_dir_all_existing [OF W] by (simp add: io_bind_def)
    moreover have "io_bind (create_durable_dir_all (W @ [x])) (\<lambda>_. create_durable_dir ((W @ [x]) @ [''blobs''])) w = (Inr (), w')"
      using run create_durable_dir_all_snoc [OF n2] by simp
    ultimately show thesis using that by (auto simp: io_bind_Inr)
  qed
  have "\<not> fs_is_dir (w_fs w) (W @ [x])" using n1 by (auto simp: fs_is_dir_iff fs_exists_def)
  then obtain fs1 where fs1: "fs_create (W @ [x]) (Dir []) (w_fs w) = Inr fs1" "w1 = w\<lparr>w_fs := fs1\<rparr>"
    using create_durable_dir_Inr [OF w1(1)] by auto
  have l1: "lookup fs1 (W @ [x]) = Some (Dir [])" by (rule fs_create_lookup [OF fs1(1)])
  then have "\<not> fs_is_dir (w_fs w1) ((W @ [x]) @ [''blobs''])" using fs1(2) lookup_snoc [of fs1 "W @ [x]"] by (simp add: fs_is_dir_iff)
  then obtain fs2 where fs2: "fs_create ((W @ [x]) @ [''blobs'']) (Dir []) fs1 = Inr fs2" "w' = w\<lparr>w_fs := fs2\<rparr>"
    using create_durable_dir_Inr [OF w1(2)] fs1(2) by auto
  have e1: "fs1 = modify W (dir_put x (Dir [])) (w_fs w)" by (rule fs_create_Inr [OF fs1(1)])
  have e2: "fs2 = modify (W @ [x]) (dir_put ''blobs'' (Dir [])) fs1" by (rule fs_create_Inr [OF fs2(1)])
  have "same_below A (w_fs w) fs1" unfolding e1 by (rule same_below_modify [OF ap])
  moreover have "same_below A fs1 fs2" unfolding e2 by (intro same_below_modify apart_append(1) ap)
  ultimately have "same_below A (w_fs w) fs2" by (rule same_below_trans)
  moreover have "work_dir (W @ [x]) [] fs2"
    using lookup_modify_same [OF l1, of "dir_put ''blobs'' (Dir [])"] by (simp add: e2 work_dir_def dir_put_def)
  ultimately show ?thesis using fs2(2) by blast
qed

lemma link_or_copy_Inr:
  assumes "link_or_copy source (P @ [''blobs'', h]) w = (Inr (), w')" "work_dir P bs (w_fs w)"
  shows "(w' = w \<and> map_of bs h \<noteq> None)
    \<or> (\<exists>b fs. map_of bs h = None \<and> lookup (w_fs w) source = Some (File b) \<and> w' = w\<lparr>w_fs := fs\<rparr>
         \<and> fs = modify (P @ [''blobs'']) (dir_put h (File b)) (w_fs w) \<and> work_dir P (bs @ [(h, File b)]) fs)"
proof (cases "map_of bs h")
  case None
  then have ex: "\<not> fs_exists (w_fs w) (P @ [''blobs'', h])" using work_dir_blob [OF assms(2)] by (simp add: fs_exists_def)
  have create: "fs_create (P @ [''blobs'', h]) y (w_fs w) = Inr (modify (P @ [''blobs'']) (dir_put h y) (w_fs w))" for y
    using ex work_dir_blobs [OF assms(2)] by (simp add: fs_create_def butlast_append)
  obtain b where b: "lookup (w_fs w) source = Some (File b)"
    using assms(1) ex by (auto simp: link_or_copy_def fs_hard_link_def fs_copy_def io_step_def split: option.splits node.splits)
  then have "w' = w\<lparr>w_fs := modify (P @ [''blobs'']) (dir_put h (File b)) (w_fs w)\<rparr>"
    using assms(1) ex by (simp add: link_or_copy_def fs_hard_link_def create)
  with None b show ?thesis using work_dir_put [OF assms(2), of "dir_put h (File b)"] by (simp add: dir_put_fresh)
next
  case (Some n)
  then show ?thesis using assms work_dir_blob [OF assms(2)] by (simp add: link_or_copy_def fs_exists_def)
qed

text \<open>Linking the blobs of a manifest: every file finds its blob with the bytes of the source.\<close>

definition linked :: "path \<Rightarrow> entries \<Rightarrow> string \<Rightarrow> node \<Rightarrow> bool" where
  "linked source bs h fs \<longleftrightarrow> (\<exists>b. map_of bs h = Some (File b) \<and> lookup fs (source @ [''blobs'', h]) = Some (File b))"

lemma map_of_append_kept: "map_of xs k = Some v \<Longrightarrow> map_of (xs @ ys) k = Some v"
  by (simp add: map_add_Some_iff)

lemma link_blobs_Inr:
  assumes "link_blobs store app_id i P files copied w = (Inr (), w')" "work_dir P bs (w_fs w)"
    and "apart P (app_dir store app_id)"
    and "\<And>h. h \<in> set copied \<Longrightarrow> linked (app_dir store app_id @ [i]) bs h (w_fs w)"
    and "\<And>h. map_of bs h \<noteq> None \<Longrightarrow> h \<in> set copied"
  shows "\<exists>fs bs'. w' = w\<lparr>w_fs := fs\<rparr> \<and> work_dir P bs' fs \<and> same_below (app_dir store app_id) (w_fs w) fs
    \<and> (\<forall>h \<in> set copied \<union> sf_sha1 ` set files. linked (app_dir store app_id @ [i]) bs' h fs)"
  using assms
proof (induction files arbitrary: w bs copied)
  case Nil
  then show ?case by (intro exI [of _ "w_fs w"] exI [of _ bs]) simp
next
  case (Cons f files)
  let ?A = "app_dir store app_id"
  show ?case
  proof (cases "sf_sha1 f \<in> set copied")
    case True
    then have "link_blobs store app_id i P files copied w = (Inr (), w')" using Cons.prems(1) by simp
    from Cons.IH [OF this Cons.prems(2-5)] show ?thesis using True by auto
  next
    case False
    let ?s = "?A @ [i, ''blobs'', sf_sha1 f]"
    obtain w1 where w1: "link_or_copy ?s (P @ [''blobs'', sf_sha1 f]) w = (Inr (), w1)"
      "link_blobs store app_id i P files (sf_sha1 f # copied) w1 = (Inr (), w')"
      using Cons.prems(1) False
      by (auto simp: io_bind_Inr manifest_blob_path_def operation_blob_path_def manifest_dir_def rbind_eq_Inr)
    have none: "map_of bs (sf_sha1 f) = None" using Cons.prems(5) False by blast
    then obtain b fs where b: "lookup (w_fs w) ?s = Some (File b)" "w1 = w\<lparr>w_fs := fs\<rparr>"
      "fs = modify (P @ [''blobs'']) (dir_put (sf_sha1 f) (File b)) (w_fs w)" "work_dir P (bs @ [(sf_sha1 f, File b)]) fs"
      using link_or_copy_Inr [OF w1(1) Cons.prems(2)] by auto
    have same: "same_below ?A (w_fs w) fs" unfolding b(3) by (intro same_below_modify apart_append(1) Cons.prems(3))
    then have src: "lookup fs (?A @ [i] @ q) = lookup (w_fs w) (?A @ [i] @ q)" for q unfolding same_below_def by blast
    have l1: "linked (?A @ [i]) (bs @ [(sf_sha1 f, File b)]) h (w_fs w1)" if "h \<in> set (sf_sha1 f # copied)" for h
      using that Cons.prems(4) [of h] none b(1) src [of "[''blobs'', h]"]
      by (cases "h = sf_sha1 f") (auto simp: linked_def b(2) map_add_def split: option.splits)
    have l2: "h \<in> set (sf_sha1 f # copied)" if "map_of (bs @ [(sf_sha1 f, File b)]) h \<noteq> None" for h
      using that Cons.prems(5) [of h] by (auto simp: map_add_def split: option.splits if_splits)
    have wd: "work_dir P (bs @ [(sf_sha1 f, File b)]) (w_fs w1)" using b(2,4) by simp
    from Cons.IH [OF w1(2) wd Cons.prems(3) l1 l2]
    obtain fs' bs' where r: "w' = w1\<lparr>w_fs := fs'\<rparr>" "work_dir P bs' fs'" "same_below ?A (w_fs w1) fs'"
      "\<forall>h \<in> set (sf_sha1 f # copied) \<union> sf_sha1 ` set files. linked (?A @ [i]) bs' h fs'" by blast
    have "same_below ?A (w_fs w) fs'" using same_below_trans [OF same] r(3) b(2) by simp
    with r b(2) show ?thesis by (intro exI [of _ fs'] exI [of _ bs']) auto
  qed
qed

section \<open>Beginning an operation\<close>

text \<open>The work directory exists and has no entry with the name that the next operation takes.\<close>

definition fresh_operation :: "folder_store \<Rightarrow> world \<Rightarrow> bool" where
  "fresh_operation store w \<longleftrightarrow>
     (\<exists>ws nonce w1. next_nonce w = (Inr nonce, w1) \<and> lookup (w_fs w) (fo_work_root store) = Some (Dir ws)
        \<and> map_of ws (''operation-'' @ nonce) = None)"

text \<open>What an operation promises about its directory: it lies in the work directory, and every file it
  starts from has its blob there, with the bytes that the selected manifest holds.\<close>

definition begun ::
  "folder_store \<Rightarrow> save_operation \<Rightarrow> string option \<Rightarrow> entries \<Rightarrow> world \<Rightarrow> bool" where
  "begun store op selected bs w \<longleftrightarrow>
     (\<exists>x. so_path op = fo_work_root store @ [x]) \<and> work_dir (so_path op) bs (w_fs w)
     \<and> (\<forall>i. selected = Some i \<longrightarrow> (\<forall>(p, f) \<in> set (so_original_files op).
            linked (app_dir store (so_app_id op) @ [i]) bs (sf_sha1 f) (w_fs w)))"

lemma begin_operation_Inr:
  assumes run: "begin_operation_with_revision cd store app_id base resolution minimum w = (Inr op, w')"
    and ap: "apart (fo_work_root store) (app_dir store app_id)" and fresh: "fresh_operation store w"
  shows "\<exists>r base' resolution' selected bs.
      resolve_app cd store app_id (w_fs w) = Inr r \<and> normalized_head_ids base = Inr base'
      \<and> (resolution = None \<longrightarrow> resolution' = None)
      \<and> (\<forall>hs. resolution = Some hs \<longrightarrow> (\<exists>hs'. resolution' = Some hs' \<and> normalized_head_ids hs = Inr hs'))
      \<and> operation_base r base' resolution' = Inr (so_parents op, selected, so_original_files op, so_force_publish op)
      \<and> so_app_id op = app_id \<and> so_minimum_revision op = minimum
      \<and> so_expected_heads op = (case resolution' of None \<Rightarrow> base' | Some hs \<Rightarrow> hs)
      \<and> begun store op selected bs w' \<and> same_below (app_dir store app_id) (w_fs w) (w_fs w')"
proof -
  let ?A = "app_dir store app_id" and ?W = "fo_work_root store"
  obtain ws nonce w1 where n: "next_nonce w = (Inr nonce, w1)" "lookup (w_fs w) ?W = Some (Dir ws)" "map_of ws (''operation-'' @ nonce) = None"
    using fresh unfolding fresh_operation_def by blast
  have w1: "w_fs w1 = w_fs w" using next_nonce_Inr [OF n(1)] by simp
  let ?P = "?W @ [''operation-'' @ nonce]"
  obtain r base' resolution' parents selected orig force w2 where
    r: "resolve_app cd store app_id (w_fs w) = Inr r" "normalized_head_ids base = Inr base'"
      "(case resolution of None \<Rightarrow> Inr None | Some hs \<Rightarrow> rbind (normalized_head_ids hs) (\<lambda>hs. Inr (Some hs))) = Inr resolution'"
      "operation_base r base' resolution' = Inr (parents, selected, orig, force)"
    and c: "create_durable_dir_all (?P @ [''blobs'']) w1 = (Inr (), w2)"
    and l: "(case selected of None \<Rightarrow> io_ret () | Some i \<Rightarrow>
        io_bind (link_blobs store app_id i ?P (map snd orig) []) (\<lambda>_. sync_directory (?P @ [''blobs'']))) w2 = (Inr (), w')"
    and op: "op = \<lparr>so_coordination = fo_coordination store, so_repository = fo_root store,
              so_manifest_scope = manifest_scope store app_id, so_app_id = app_id, so_path = ?P,
              so_expected_heads = (case resolution' of None \<Rightarrow> base' | Some hs \<Rightarrow> hs),
              so_parents = parents, so_original_files = orig,
              so_force_publish = force, so_minimum_revision = minimum\<rparr>"
    using run n(1) unfolding begin_operation_with_revision_def
    by (auto simp: io_bind_Inr Let_def simp del: append_assoc append.simps split: prod.splits)
  obtain fs2 where fs2: "w2 = w1\<lparr>w_fs := fs2\<rparr>" "work_dir ?P [] fs2" "same_below ?A (w_fs w) fs2"
    using new_work_dir [of ?W "''operation-'' @ nonce" w1 w2 ws ?A] c n w1 ap by auto
  obtain bs where bs: "work_dir ?P bs (w_fs w')" "same_below ?A (w_fs w) (w_fs w')"
    "\<forall>i. selected = Some i \<longrightarrow> (\<forall>(p, f) \<in> set orig. linked (?A @ [i]) bs (sf_sha1 f) (w_fs w'))"
  proof (cases selected)
    case None
    then show thesis using that [of "[]"] l fs2 by simp
  next
    case (Some i)
    have P: "apart ?P ?A" by (rule apart_append(1) [OF ap])
    have "link_blobs store app_id i ?P (map snd orig) [] w2 = (Inr (), w')" using l Some by (auto simp: io_bind_Inr)
    from link_blobs_Inr [OF this _ P, of "[]"] fs2
    obtain fs bs where b: "w' = w2\<lparr>w_fs := fs\<rparr>" "work_dir ?P bs fs" "same_below ?A (w_fs w2) fs"
      "\<forall>h \<in> sf_sha1 ` set (map snd orig). linked (?A @ [i]) bs h fs" by auto
    have "same_below ?A (w_fs w) fs" using same_below_trans [OF fs2(3)] b(3) fs2(1) by simp
    then show thesis using that [of bs] b(1,2,4) Some by force
  qed
  have "begun store op selected bs w'" using bs(1,3) by (simp add: begun_def op)
  moreover have "resolution = None \<longrightarrow> resolution' = None"
    "\<forall>hs. resolution = Some hs \<longrightarrow> (\<exists>hs'. resolution' = Some hs' \<and> normalized_head_ids hs = Inr hs')"
    using r(3) by (auto simp: rbind_eq_Inr)
  ultimately show ?thesis using r bs(2) op by (intro exI [of _ r] exI [of _ base'] exI [of _ resolution']
      exI [of _ selected] exI [of _ bs]) simp
qed

section \<open>Staging a file\<close>

lemma begun_mono:
  assumes "begun store op selected bs w" "work_dir (so_path op) bs' (w_fs w')"
    and "\<And>i h. linked (app_dir store (so_app_id op) @ [i]) bs h (w_fs w) \<Longrightarrow>
      linked (app_dir store (so_app_id op) @ [i]) bs' h (w_fs w')"
  shows "begun store op selected bs' w'"
  unfolding begun_def
proof (intro conjI allI impI ballI)
  fix i e assume i: "selected = Some i" and e: "e \<in> set (so_original_files op)"
  have "case e of (p, f) \<Rightarrow> linked (app_dir store (so_app_id op) @ [i]) bs (sf_sha1 f) (w_fs w)"
    using assms(1) i e unfolding begun_def by blast
  then show "case e of (p, f) \<Rightarrow> linked (app_dir store (so_app_id op) @ [i]) bs' (sf_sha1 f) (w_fs w')"
    using assms(3) by (cases e) simp
qed (use assms in \<open>simp_all add: begun_def\<close>)

lemma hash_name: "validate_blob_hash h = Inr () \<Longrightarrow> hd h \<noteq> CHR ''.'' \<or> h = []"
  by (cases h) (auto simp: validate_blob_hash_def is_ascii_hexdigit_def char_in_def)

lemma stage_file_Inr:
  assumes run: "stage_file cd store op p contents metadata w = (Inr st, w')"
    and begun: "begun store op selected bs w" and ap: "apart (fo_work_root store) (app_dir store (so_app_id op))"
  shows "\<exists>bs'. begun store op selected bs' w' \<and> same_below (app_dir store (so_app_id op)) (w_fs w) (w_fs w')
    \<and> map_of bs' (st_blob_sha1 st) = Some (File contents)
    \<and> st = \<lparr>st_path = p, st_blob_sha1 = to_ascii_lowercase (fm_sha1 metadata), st_metadata = metadata\<rparr>
    \<and> validate_cloud_path p = Inr () \<and> validate_metadata cd contents metadata = Inr ()"
proof -
  let ?h = "to_ascii_lowercase (fm_sha1 metadata)" and ?A = "app_dir store (so_app_id op)" and ?P = "so_path op"
  have r: "validate_cloud_path p = Inr ()" "validate_metadata cd contents metadata = Inr ()" "validate_blob_hash ?h = Inr ()"
    "atomic_publish (?P @ [''blobs'', ?h]) contents w = (Inr (), w')"
    "st = \<lparr>st_path = p, st_blob_sha1 = ?h, st_metadata = metadata\<rparr>"
    using run by (auto simp: stage_file_def io_bind_Inr Let_def operation_blob_path_def rbind_eq_Inr ensure_open_def split: if_splits)
  have wd: "work_dir ?P bs (w_fs w)" using begun by (simp add: begun_def)
  show ?thesis
  proof (cases "map_of bs ?h")
    case (Some n)
    then have "w' = w" "n = File contents" using r(4) work_dir_blob [OF wd, of ?h]
      by (auto simp: atomic_publish_def fs_exists_def file_matches_bytes_def fs_node_def rbind_eq_Inr split: node.splits if_splits)
    then show ?thesis using begun Some r by (intro exI [of _ bs]) simp
  next
    case None
    have pub: "atomic_publish ((?P @ [''blobs'']) @ [?h]) contents w = (Inr (), w')" using r(4) by simp
    obtain f k where f: "w' = w\<lparr>w_fs := modify (?P @ [''blobs'']) f (w_fs w), w_next := k\<rparr>" "f bs = bs @ [(?h, File contents)]"
      using atomic_publish_modify [OF pub work_dir_blobs [OF wd] None hash_name [OF r(3)]] by blast
    have P: "apart ?P ?A" using begun ap apart_append(1) by (auto simp: begun_def)
    have same: "same_below ?A (w_fs w) (w_fs w')" unfolding f(1) by (simp add: same_below_modify apart_append(1) P)
    have "linked (?A @ [i]) (bs @ [(?h, File contents)]) h (w_fs w')" if "linked (?A @ [i]) bs h (w_fs w)" for i h
      using that same unfolding linked_def same_below_def by (metis append.assoc map_of_append_kept)
    moreover have "work_dir ?P (bs @ [(?h, File contents)]) (w_fs w')"
      using work_dir_put [where f = f, OF wd f(2) None] f(1) by simp
    ultimately have "begun store op selected (bs @ [(?h, File contents)]) w'" by (intro begun_mono [OF begun])
    then show ?thesis using same None r by (intro exI [of _ "bs @ [(?h, File contents)]"]) (simp add: map_add_def)
  qed
qed

end
