(* ===== verification/Local_Contents.thy ===== *)
theory Local_Contents
  imports Local_Staging
begin

text \<open>
  The contract of the local store as its clients see it: a repository is a map from paths to bytes.
  The main lemma shows that an ordinary commit replaces that map by the one its files and its
  staged blobs describe.
\<close>

section \<open>Definitions\<close>

definition contents_of :: "codec \<Rightarrow> folder_store \<Rightarrow> u32 \<Rightarrow> node \<Rightarrow> string \<Rightarrow> bytes option" where
  "contents_of cd store app_id fs p = result_ok (byte_store_read cd store app_id p fs)"

text \<open>The bytes that files have when their blobs are \<open>bs\<close>.\<close>

definition blob_of :: "entries \<Rightarrow> (string, stored_file) btree \<Rightarrow> string \<Rightarrow> bytes option" where
  "blob_of bs files p = opt_bind (map_of files p)
     (\<lambda>f. case map_of bs (sf_sha1 f) of Some (File b) \<Rightarrow> Some b | _ \<Rightarrow> None)"

definition intact :: "codec \<Rightarrow> entries \<Rightarrow> string \<Rightarrow> stored_file \<Rightarrow> bool" where
  "intact cd bs p f \<longleftrightarrow> validate_cloud_path p = Inr () \<and> validate_blob_hash (sf_sha1 f) = Inr ()
     \<and> unat (sf_raw_size f) \<le> MAX_SAVE_FILE_BYTES
     \<and> (\<exists>b. map_of bs (sf_sha1 f) = Some (File b) \<and> length b = unat (sf_raw_size f)
          \<and> hex_digest (cd_sha1 cd) b = sf_sha1 f)"

text \<open>No manifest of a later revision has a digest that a present manifest names as a parent.\<close>

definition unreferenced_digests :: "codec \<Rightarrow> resolved_app \<Rightarrow> bool" where
  "unreferenced_digests cd r \<longleftrightarrow>
     (\<forall>b m. cd_manifest_from_slice cd b = Some m \<longrightarrow> ra_max_revision r < sm_revision m \<longrightarrow>
        hex_digest (cd_sha256 cd) b \<notin> set (parent_ids (ra_manifests r)))"

section \<open>Heads and revisions\<close>

lemma set_bt_insert_fresh: "map_of ms i = None \<Longrightarrow> set (bt_insert i m ms) = insert (i, m) (set ms)"
  by (induction i m ms rule: bt_insert.induct) (auto split: if_splits)

lemma parent_ids_set: "set (parent_ids ms) = (\<Union>(_, m) \<in> set ms. set (sm_parents m))"
  by (auto simp: parent_ids_def)

lemma head_ids_of_set: "set (head_ids_of ms) = fst ` set ms - set (parent_ids ms)"
  by (auto simp: head_ids_of_def)

lemma sort_singleton:
  assumes "distinct xs" "set xs = {x}" shows "sort xs = [x]"
proof -
  obtain y ys where xs: "xs = y # ys" using assms(2) by (cases xs) auto
  then have "y = x" "ys = []" using assms by (cases ys; auto)+
  then show ?thesis using xs by simp
qed

lemma head_ids_of_insert:
  assumes wf: "bt_wf ms" and fresh: "map_of ms i = None" and p: "sm_parents m = head_ids_of ms"
  shows "head_ids_of (bt_insert i m ms) = (if i \<in> set (parent_ids ms) then [] else [i])"
proof -
  let ?ms = "bt_insert i m ms" and ?hs = "filter (\<lambda>j. j \<notin> set (parent_ids (bt_insert i m ms))) (map fst (bt_insert i m ms))"
  have keys: "fst ` set ?ms = insert i (fst ` set ms)" by (rule bt_insert_keys)
  have "set (parent_ids ?ms) = set (parent_ids ms) \<union> set (head_ids_of ms)"
    by (auto simp: parent_ids_set set_bt_insert_fresh [OF fresh] p)
  moreover have "i \<notin> fst ` set ms" using fresh by (simp add: map_of_eq_None_iff)
  ultimately have set: "set ?hs = {i} - set (parent_ids ms)" by (auto simp: keys head_ids_of_set)
  have "distinct ?hs" using bt_wf_distinct [OF bt_wf_insert [OF wf]] by simp
  with set show ?thesis unfolding head_ids_of_def
    by (cases "i \<in> set (parent_ids ms)") (auto intro: sort_singleton)
qed

lemma max_revision_of_Max: "max_revision_of ms = Max (insert 0 ((\<lambda>(_, m). sm_revision m) ` set ms))"
proof -
  have "(\<lambda>(_ :: string, m :: save_manifest). max (sm_revision m)) = max \<circ> (\<lambda>(_, m). sm_revision m)" by auto
  then have "max_revision_of ms = fold max (map (\<lambda>(_, m). sm_revision m) ms) 0"
    by (simp add: max_revision_of_def fold_map)
  then show ?thesis using Max.set_eq_fold [of 0 "map (\<lambda>(_, m). sm_revision m) ms"] by simp
qed

lemma max_revision_of_insert:
  assumes "map_of ms i = None"
  shows "max_revision_of (bt_insert i m ms) = max (sm_revision m) (max_revision_of ms)"
proof -
  let ?S = "insert 0 ((\<lambda>(_, m). sm_revision m) ` set ms)"
  have "insert 0 ((\<lambda>(_, m). sm_revision m) ` set (bt_insert i m ms)) = insert (sm_revision m) ?S"
    by (auto simp: set_bt_insert_fresh [OF assms])
  moreover have "Max (insert (sm_revision m) ?S) = max (sm_revision m) (Max ?S)" by (rule Max_insert) auto
  ultimately show ?thesis by (simp only: max_revision_of_Max)
qed

section \<open>Commits\<close>

lemma verify_operation_files_intact:
  assumes ver: "verify_operation_files cd op files fs = Inr ()" and wd: "work_dir (so_path op) bs fs" and f: "(p, f) \<in> set files"
  shows "intact cd bs p f"
proof -
  have "rbind (validate_cloud_path p) (\<lambda>_.
       rbind (operation_blob_path (so_path op) (sf_sha1 f)) (\<lambda>b. verify_blob_file cd b f fs)) = Inr ()"
    using ver f rfold_unit_all [of "\<lambda>(p, file). rbind (validate_cloud_path p) (\<lambda>_.
       rbind (operation_blob_path (so_path op) (sf_sha1 file)) (\<lambda>b. verify_blob_file cd b file fs))" files]
    by (fastforce simp: verify_operation_files_def split_def)
  then have "validate_cloud_path p = Inr ()" "validate_blob_hash (sf_sha1 f) = Inr ()" "unat (sf_raw_size f) \<le> MAX_SAVE_FILE_BYTES"
    by (auto simp: operation_blob_path_def rbind_eq_Inr verify_blob_file_def open_blob_file_def)
  then show ?thesis
    using verify_operation_files_Inr [OF ver _ f] wd by (simp add: intact_def work_dir_def)
qed

lemma resolve_app_Inr:
  "resolve_app cd store app_id fs = Inr r \<longleftrightarrow>
     (\<exists>account ms. app_id \<noteq> 0 \<and> fo_account store = Some account
        \<and> collect_manifest_objects cd (app_dir store app_id) account app_id fs = Inr ms
        \<and> r = \<lparr>ra_manifests = ms, ra_heads = head_ids_of ms, ra_max_revision = max_revision_of ms\<rparr>)"
  by (auto simp: resolve_app_def rbind_eq_Inr validate_app_id_def store_manifest_objects_def manifest_account_def)

text \<open>The checks of a commit, and the world after its blobs are pruned.\<close>

lemma commit_operation_checks:
  assumes run: "commit_operation cd store op staged deleted identity w = (Inr revision, w')"
    and wd: "work_dir (so_path op) bs (w_fs w)"
    and ap: "apart (fo_work_root store) (app_dir store (so_app_id op))" and P: "so_path op = fo_work_root store @ [x]"
  shows "\<exists>r f1 files bs' w1. resolve_app cd store (so_app_id op) (w_fs w) = Inr r \<and> ra_heads r = so_expected_heads op
    \<and> remove_deleted deleted (so_original_files op) = Inr f1 \<and> insert_staged staged f1 = Inr files
    \<and> (\<forall>h v. map_of bs' h = Some v \<longrightarrow> map_of bs h = Some v) \<and> (\<forall>(p, f) \<in> set files. intact cd bs' p f)
    \<and> blobs_exact bs' files \<and> work_dir (so_path op) bs' (w_fs w1) \<and> same_below (app_dir store (so_app_id op)) (w_fs w) (w_fs w1)
    \<and> (if files = so_original_files op \<and> \<not> so_force_publish op
       then io_bind (io_lift (current r)) (\<lambda>c.
          io_bind (close_operation op) (\<lambda>_.
          io_bind (remove_dir_all_if_exists (so_path op)) (\<lambda>_.
          io_bind (sync_directory (fo_work_root store)) (\<lambda>_.
          io_ret (case c of None \<Rightarrow> 0 | Some (_, m) \<Rightarrow> sm_revision m))))) w1 = (Inr revision, w')
       else publish_operation cd store op files identity (max (ra_max_revision r) (so_minimum_revision op)) w1
              = (Inr revision, w'))"
proof -
  obtain r f1 files w1 where r: "resolve_app cd store (so_app_id op) (w_fs w) = Inr r" "ra_heads r = so_expected_heads op"
      "remove_deleted deleted (so_original_files op) = Inr f1" "insert_staged staged f1 = Inr files"
    and pr: "prune_operation_blobs op files w = (Inr (), w1)" and ver: "verify_operation_files cd op files (w_fs w1) = Inr ()"
    and last: "(if files = so_original_files op \<and> \<not> so_force_publish op
       then io_bind (io_lift (current r)) (\<lambda>c.
          io_bind (close_operation op) (\<lambda>_.
          io_bind (remove_dir_all_if_exists (so_path op)) (\<lambda>_.
          io_bind (sync_directory (fo_work_root store)) (\<lambda>_.
          io_ret (case c of None \<Rightarrow> 0 | Some (_, m) \<Rightarrow> sm_revision m)))))
       else publish_operation cd store op files identity (max (ra_max_revision r) (so_minimum_revision op))) w1 = (Inr revision, w')"
    using run unfolding commit_operation_def io_bind_Inr [of "io_lift _"] io_bind_Inr [of "io_read _"] io_bind_Inr [of "ensure_open _"]
      io_bind_Inr [of "prune_operation_blobs _ _"] by (auto simp: ensure_open_def split: if_splits)
  define bs' where "bs' = filter (\<lambda>e. fst e \<in> sf_sha1 ` snd ` set files) bs"
  from prune_operation_blobs_Inr [OF pr] wd obtain fs where
    fs: "w1 = w\<lparr>w_fs := fs\<rparr>" "lookup fs (so_path op) = Some (Dir [(''blobs'', Dir bs')])"
      "\<And>q. apart (so_path op @ [''blobs'']) q \<Longrightarrow> lookup fs q = lookup (w_fs w) q"
    and all: "\<forall>(n, x) \<in> set bs. utf8_valid (as_bytes n) \<and> is_file x \<and> validate_blob_hash n = Inr ()"
    unfolding work_dir_def bs'_def by blast
  have d: "distinct (map fst bs)" using wd by (simp add: work_dir_def)
  have ver': "verify_operation_files cd op files fs = Inr ()" using ver fs(1) by simp
  have ex: "blobs_exact bs' files" by (rule blobs_exact_pruned [OF all d bs'_def ver' fs(2)])
  have wd': "work_dir (so_path op) bs' (w_fs w1)" using fs(1,2) ex by (simp add: work_dir_def blobs_exact_def)
  have sub: "map_of bs h = Some v" if "map_of bs' h = Some v" for h v
    using map_of_SomeD [OF that] d by (simp add: bs'_def)
  have "apart (so_path op @ [''blobs'']) (app_dir store (so_app_id op) @ q)" for q
    unfolding P using ap apart_append by simp
  then have "same_below (app_dir store (so_app_id op)) (w_fs w) (w_fs w1)" using fs(1,3) by (simp add: same_below_def)
  moreover have "\<forall>(p, f) \<in> set files. intact cd bs' p f"
    using verify_operation_files_intact [OF ver wd'] by auto
  ultimately show ?thesis using r ex wd' sub last
    by - (rule exI [of _ r], rule exI [of _ f1], rule exI [of _ files], rule exI [of _ bs'], rule exI [of _ w1],
         (cases "files = so_original_files op \<and> \<not> so_force_publish op"; clarsimp))
qed

text \<open>What a successful commit leaves behind, in its two cases.\<close>

lemma commit_unchanged:
  assumes run: "io_bind (io_lift (current r)) (\<lambda>c.
          io_bind (close_operation op) (\<lambda>_.
          io_bind (remove_dir_all_if_exists (so_path op)) (\<lambda>_.
          io_bind (sync_directory (fo_work_root store)) (\<lambda>_.
          io_ret (case c of None \<Rightarrow> 0 | Some (_, m) \<Rightarrow> sm_revision m))))) w = (Inr revision, w')"
    and ap: "apart (fo_work_root store) A" and P: "so_path op = fo_work_root store @ [x]"
  shows "same_below A (w_fs w) (w_fs w') \<and> so_path op \<in> set (w_closed w')
    \<and> (\<exists>c. current r = Inr c \<and> revision = (case c of None \<Rightarrow> 0 | Some (_, m) \<Rightarrow> sm_revision m))"
proof -
  obtain c w1 where c: "current r = Inr c" "revision = (case c of None \<Rightarrow> 0 | Some (_, m) \<Rightarrow> sm_revision m)"
    and w1: "remove_dir_all_if_exists (so_path op) (w\<lparr>w_closed := so_path op # w_closed w\<rparr>) = (Inr (), w')"
    using run by (auto simp: io_bind_Inr close_operation_def)
  have "w_closed w' = so_path op # w_closed w \<and> (w_fs w' = w_fs w \<or> w_fs w' = modify (fo_work_root store) (dir_del x) (w_fs w))"
    using w1 unfolding P by (auto simp: remove_dir_all_if_exists_def fs_remove_dir_all_def split: option.splits node.splits sum.splits io_kind.splits)
  then show ?thesis using c same_below_modify [OF ap] by auto
qed

text \<open>The new manifest, as readers see it.\<close>

definition published ::
  "codec \<Rightarrow> folder_store \<Rightarrow> u32 \<Rightarrow> resolved_app \<Rightarrow> entries \<Rightarrow> string \<Rightarrow> save_manifest \<Rightarrow> node \<Rightarrow> bool" where
  "published cd store app_id r bs i m fs \<longleftrightarrow>
     resolve_app cd store app_id fs = Inr \<lparr>ra_manifests = bt_insert i m (ra_manifests r),
        ra_heads = (if i \<in> set (parent_ids (ra_manifests r)) then [] else [i]), ra_max_revision = sm_revision m\<rparr>
     \<and> map_of (ra_manifests r) i = None \<and> sm_parents m = ra_heads r \<and> ra_max_revision r < sm_revision m
     \<and> (\<exists>b. lookup fs (app_dir store app_id @ [i]) = Some (Dir [(''blobs'', Dir bs), (''manifest.json'', File b)])
          \<and> i = hex_digest (cd_sha256 cd) b \<and> cd_manifest_from_slice cd b = Some m)"

lemma u64_checked_add_one: "u64_checked_add a 1 = Some b \<longleftrightarrow> b = a + 1 \<and> a < b"
  by (auto simp: u64_checked_add_def word_less_nat_alt unat_add_lem unat_word_ariths split: if_splits)

lemma publish_published:
  assumes codec: "manifest_codec cd" and ap: "apart (fo_work_root store) (app_dir store (so_app_id op))"
    and P: "so_path op = fo_work_root store @ [x]" and wd: "work_dir (so_path op) bs (w_fs w)" and ex: "blobs_exact bs files"
    and res: "resolve_app cd store (so_app_id op) (w_fs w) = Inr r" and room: "length (ra_manifests r) < MAX_MANIFEST_OBJECTS"
    and parents: "so_parents op = ra_heads r"
    and pub: "publish_operation cd store op files identity (max (ra_max_revision r) minimum) w = (Inr revision, w')"
  shows "\<exists>i m. published cd store (so_app_id op) r bs i m (w_fs w') \<and> sm_files m = files \<and> sm_revision m = revision
    \<and> revision = max (ra_max_revision r) minimum + 1 \<and> max (ra_max_revision r) minimum < revision"
proof -
  obtain account ms where a: "so_app_id op \<noteq> 0" "fo_account store = Some account"
      "collect_manifest_objects cd (app_dir store (so_app_id op)) account (so_app_id op) (w_fs w) = Inr ms"
    and r: "r = \<lparr>ra_manifests = ms, ra_heads = head_ids_of ms, ra_max_revision = max_revision_of ms\<rparr>"
    using res unfolding resolve_app_Inr by blast
  have lk: "lookup (w_fs w) (so_path op) = Some (Dir [(''blobs'', Dir bs)])" using wd by (simp add: work_dir_def)
  obtain i m b where m: "u64_checked_add (max (ra_max_revision r) minimum) 1 = Some revision"
    "collect_manifest_objects cd (app_dir store (so_app_id op)) account (so_app_id op) (w_fs w') = Inr (bt_insert i m ms)"
    "map_of ms i = None" "sm_revision m = revision" "sm_parents m = so_parents op" "sm_files m = files"
    "lookup (w_fs w') (app_dir store (so_app_id op) @ [i]) = Some (Dir [(''blobs'', Dir bs), (''manifest.json'', File b)])"
    "i = hex_digest (cd_sha256 cd) b" "cd_manifest_from_slice cd b = Some m"
    using publish_collects [OF codec ap P lk ex a(2,3) _ pub] room r by auto
  have rev: "revision = max (ra_max_revision r) minimum + 1" "max (ra_max_revision r) minimum < revision" "max_revision_of ms < revision"
    using m(1) r unfolding u64_checked_add_one by auto
  have "head_ids_of (bt_insert i m ms) = (if i \<in> set (parent_ids ms) then [] else [i])"
    by (rule head_ids_of_insert [OF collect_manifest_objects_wf [OF a(3)] m(3)]) (simp add: m(5) parents r)
  moreover have "max_revision_of (bt_insert i m ms) = revision"
    using max_revision_of_insert [OF m(3)] m(4) rev(3) by simp
  ultimately have "resolve_app cd store (so_app_id op) (w_fs w') = Inr \<lparr>ra_manifests = bt_insert i m ms,
      ra_heads = (if i \<in> set (parent_ids ms) then [] else [i]), ra_max_revision = sm_revision m\<rparr>"
    using a m(2,4) unfolding resolve_app_Inr by simp
  then have "published cd store (so_app_id op) r bs i m (w_fs w')"
    unfolding published_def using m parents rev r by simp
  then show ?thesis using m(4,6) rev(1,2) by blast
qed

section \<open>Reading\<close>

lemma collect_valid_ids:
  "rfold (collect_manifest_entry cd d account app_id fs) es acc = Inr ms \<Longrightarrow>
     (\<And>i m. map_of acc i = Some m \<Longrightarrow> validate_manifest_id i = Inr ()) \<Longrightarrow>
     map_of ms i = Some m \<Longrightarrow> validate_manifest_id i = Inr ()"
proof (induction es arbitrary: acc)
  case (Cons e es)
  obtain name n where e: "e = (name, n)" by fastforce
  obtain a where a: "collect_manifest_entry cd d account app_id fs (name, n) acc = Inr a"
    "rfold (collect_manifest_entry cd d account app_id fs) es a = Inr ms"
    using Cons.prems(1) e by (auto simp: rbind_eq_Inr)
  have "validate_manifest_id j = Inr ()" if j: "map_of a j = Some m'" for j m'
    using collect_entry_cases [OF a(1)]
  proof (elim disjE exE conjE)
    assume "a = acc"
    then show ?thesis using j Cons.prems(2) by simp
  next
    fix m0 assume "a = bt_insert name m0 acc" "validate_manifest_id name = Inr ()"
    then show ?thesis using j Cons.prems(2) [of j m'] by (auto simp: map_of_bt_insert split: if_splits)
  qed
  then show ?case by (rule Cons.IH [OF a(2) _ Cons.prems(3)])
qed simp

lemma resolved_head:
  assumes "resolve_app cd store app_id fs = Inr r" "map_of (ra_manifests r) i = Some m"
  shows "app_id \<noteq> 0 \<and> validate_manifest_id i = Inr ()"
proof -
  obtain account where a: "app_id \<noteq> 0"
    "collect_manifest_objects cd (app_dir store app_id) account app_id fs = Inr (ra_manifests r)"
    using assms(1) unfolding resolve_app_Inr by auto
  have "validate_manifest_id i = Inr ()"
    using a(2) assms(2) collect_valid_ids [where acc = "[]"]
    by (fastforce simp: collect_manifest_objects_def rbind_eq_Inr split: if_splits)
  with a(1) show ?thesis ..
qed

lemma heads_have_manifests:
  assumes "resolve_app cd store app_id fs = Inr r" "i \<in> set (ra_heads r)"
  shows "\<exists>m. map_of (ra_manifests r) i = Some m"
proof -
  have "i \<in> fst ` set (ra_manifests r)" using assms unfolding resolve_app_Inr by (auto simp: head_ids_of_set)
  then show ?thesis by (metis map_of_eq_None_iff not_None_eq)
qed

lemma contents_of_no_head:
  "resolve_app cd store app_id fs = Inr r \<Longrightarrow> ra_heads r = [] \<Longrightarrow> contents_of cd store app_id fs p = None"
  by (cases "validate_cloud_path p"; cases "lock_app app_id")
     (simp_all add: contents_of_def byte_store_read_def bind_download_def current_manifest_def current_def)

lemma contents_of_head:
  assumes res: "resolve_app cd store app_id fs = Inr r" and i: "ra_heads r = [i]" "map_of (ra_manifests r) i = Some m"
  shows "map_of (sm_files m) p = None \<Longrightarrow> contents_of cd store app_id fs p = None"
    and "map_of (sm_files m) p = Some f \<Longrightarrow> intact cd bs p f \<Longrightarrow>
      lookup fs (app_dir store app_id @ [i, ''blobs'', sf_sha1 f]) = map_of bs (sf_sha1 f) \<Longrightarrow>
      contents_of cd store app_id fs p = blob_of bs (sm_files m) p"
proof -
  have cur: "current_manifest cd store app_id fs = Inr (Some (i, m))"
    using res i by (simp add: current_manifest_def current_def the_manifest_def)
  show "contents_of cd store app_id fs p = None" if "map_of (sm_files m) p = None"
    using that cur by (cases "validate_cloud_path p"; cases "lock_app app_id")
      (simp_all add: contents_of_def byte_store_read_def bind_download_def)
  show "contents_of cd store app_id fs p = blob_of bs (sm_files m) p"
    if f: "map_of (sm_files m) p = Some f" and ok: "intact cd bs p f"
      and lk: "lookup fs (app_dir store app_id @ [i, ''blobs'', sf_sha1 f]) = map_of bs (sf_sha1 f)"
  proof -
    obtain b where b: "map_of bs (sf_sha1 f) = Some (File b)" "length b = unat (sf_raw_size f)"
      "hex_digest (cd_sha1 cd) b = sf_sha1 f" using ok by (auto simp: intact_def)
    have "manifest_blob_path store app_id i (sf_sha1 f) = Inr (app_dir store app_id @ [i, ''blobs'', sf_sha1 f])"
      using resolved_head [OF res i(2)] ok by (simp add: manifest_blob_path_def manifest_dir_def validate_app_id_def intact_def)
    moreover have "open_blob_file (app_dir store app_id @ [i, ''blobs'', sf_sha1 f]) f fs = Inr b"
      using ok b lk by (simp add: open_blob_file_def fs_node_def intact_def)
    moreover have "lock_app app_id = Inr ()" using resolved_head [OF res i(2)] by (simp add: lock_app_def validate_app_id_def)
    ultimately show ?thesis
      using ok f b cur by (simp add: contents_of_def byte_store_read_def bind_download_def intact_def bound_download_read_def
        metadata_from_stored_file_def stored_file_from_metadata_def verify_blob_bytes_def blob_of_def)
  qed
qed

lemma open_manifest_blob_cong:
  assumes "same_below (app_dir store app_id) fs fs'"
  shows "rbind (manifest_blob_path store app_id i h) (\<lambda>b. rbind (open_blob_file b f fs') k)
      = rbind (manifest_blob_path store app_id i h) (\<lambda>b. rbind (open_blob_file b f fs) k)"
proof -
  have "open_blob_file (app_dir store app_id @ [i, ''blobs'', h]) f fs' = open_blob_file (app_dir store app_id @ [i, ''blobs'', h]) f fs"
    using assms by (simp add: open_blob_file_def fs_node_def same_below_def)
  then show ?thesis by (auto simp: manifest_blob_path_def manifest_dir_def rbind_def split: sum.splits)
qed

lemma contents_of_cong:
  assumes "same_below (app_dir store app_id) fs fs'"
  shows "contents_of cd store app_id fs' = contents_of cd store app_id fs"
  by (simp add: fun_eq_iff contents_of_def byte_store_read_def bind_download_def current_manifest_def
      resolve_app_cong [OF assms] open_manifest_blob_cong [OF assms])

text \<open>An ordinary commit replaces the contents by what its files and blobs describe; the files that it
  keeps had those bytes before.\<close>

lemma ordinary_base:
  assumes "operation_base r base None = Inr (parents, selected, orig, force)"
  shows "base = ra_heads r \<and> parents = ra_heads r \<and> \<not> force
    \<and> (ra_heads r = [] \<and> orig = [] \<and> selected = None
       \<or> (\<exists>i. ra_heads r = [i] \<and> orig = sm_files (the_manifest (ra_manifests r) i) \<and> selected = Some i))"
proof -
  have b: "ra_heads r = base" "\<not> 1 < length (ra_heads r)" "parents = base" "\<not> force"
    "selected = (case base of [] \<Rightarrow> None | i # _ \<Rightarrow> Some i)"
    "\<exists>c. current r = Inr c \<and> orig = (case c of None \<Rightarrow> [] | Some (_, m) \<Rightarrow> sm_files m)"
    using assms by (auto simp: operation_base_def rbind_eq_Inr)
  show ?thesis
  proof (cases "ra_heads r")
    case Nil
    then show ?thesis using b by (auto simp: current_def)
  next
    case (Cons i js)
    then have "js = []" using b(2) by simp
    then show ?thesis using b Cons by (auto simp: current_def)
  qed
qed

lemma blob_of_intact:
  assumes "\<forall>(p, f) \<in> set files. intact cd bs' p f" "\<And>h v. map_of bs' h = Some v \<Longrightarrow> map_of bs h = Some v"
  shows "blob_of bs' files p = blob_of bs files p"
proof (cases "map_of files p")
  case (Some f)
  then have "intact cd bs' p f" using assms(1) map_of_SomeD by fastforce
  then obtain b where "map_of bs' (sf_sha1 f) = Some (File b)" by (auto simp: intact_def)
  with assms(2) [OF this] Some show ?thesis by (simp add: blob_of_def)
qed (simp add: blob_of_def)

lemma intact_mono:
  "intact cd bs' p f \<Longrightarrow> (\<And>h v. map_of bs' h = Some v \<Longrightarrow> map_of bs h = Some v) \<Longrightarrow> intact cd bs p f"
  unfolding intact_def by blast

lemma contents_before:
  assumes res: "resolve_app cd store app_id fs = Inr r"
    and base: "operation_base r base None = Inr (parents, selected, orig, force)"
    and linked: "\<And>i p f. selected = Some i \<Longrightarrow> (p, f) \<in> set orig \<Longrightarrow> linked (app_dir store app_id @ [i]) bs (sf_sha1 f) fs"
    and ok: "\<And>f. map_of files p = Some f \<Longrightarrow> intact cd bs p f" and same: "map_of files p = map_of orig p"
  shows "contents_of cd store app_id fs p = blob_of bs files p"
proof -
  consider "ra_heads r = []" "orig = []" | i where "ra_heads r = [i]" "orig = sm_files (the_manifest (ra_manifests r) i)" "selected = Some i"
    using ordinary_base [OF base] by blast
  then show ?thesis
  proof cases
    case 1
    then show ?thesis using contents_of_no_head [OF res] same by (simp add: blob_of_def)
  next
    case 2
    obtain m where m: "map_of (ra_manifests r) i = Some m" using heads_have_manifests [OF res] 2(1) by auto
    have orig: "orig = sm_files m" using 2(2) m by (simp add: the_manifest_def)
    show ?thesis
    proof (cases "map_of files p")
      case None
      then show ?thesis using contents_of_head(1) [OF res 2(1) m] same orig by (simp add: blob_of_def)
    next
      case (Some f)
      then have f: "map_of (sm_files m) p = Some f" using same orig by simp
      have "linked (app_dir store app_id @ [i]) bs (sf_sha1 f) fs"
        using linked [OF 2(3)] map_of_SomeD [OF f] orig by simp
      then have "lookup fs (app_dir store app_id @ [i, ''blobs'', sf_sha1 f]) = map_of bs (sf_sha1 f)"
        by (auto simp: linked_def)
      from contents_of_head(2) [OF res 2(1) m f ok [OF Some] this]
      show ?thesis using Some f by (simp add: blob_of_def)
    qed
  qed
qed

lemma contents_published:
  assumes pub: "published cd store app_id r bs i m fs" and un: "unreferenced_digests cd r"
    and ok: "\<forall>(p, f) \<in> set (sm_files m). intact cd bs p f"
  shows "contents_of cd store app_id fs p = blob_of bs (sm_files m) p"
proof -
  obtain b where b: "lookup fs (app_dir store app_id @ [i]) = Some (Dir [(''blobs'', Dir bs), (''manifest.json'', File b)])"
    "i = hex_digest (cd_sha256 cd) b" "cd_manifest_from_slice cd b = Some m"
    using pub by (auto simp: published_def)
  have "i \<notin> set (parent_ids (ra_manifests r))"
    using un b(2,3) pub unfolding unreferenced_digests_def published_def by blast
  then have res: "resolve_app cd store app_id fs = Inr \<lparr>ra_manifests = bt_insert i m (ra_manifests r), ra_heads = [i], ra_max_revision = sm_revision m\<rparr>"
    using pub by (simp add: published_def)
  have m: "map_of (ra_manifests \<lparr>ra_manifests = bt_insert i m (ra_manifests r), ra_heads = [i], ra_max_revision = sm_revision m\<rparr>) i = Some m"
    by (simp add: map_of_bt_insert)
  have h: "ra_heads \<lparr>ra_manifests = bt_insert i m (ra_manifests r), ra_heads = [i], ra_max_revision = sm_revision m\<rparr> = [i]" by simp
  show ?thesis
  proof (cases "map_of (sm_files m) p")
    case None
    then show ?thesis using contents_of_head(1) [OF res h m] by (simp add: blob_of_def)
  next
    case (Some f)
    have "lookup fs (app_dir store app_id @ [i, ''blobs'', sf_sha1 f]) = map_of bs (sf_sha1 f)"
      using lookup_append [of fs "app_dir store app_id @ [i]" "[''blobs'', sf_sha1 f]"] b(1)
      by (simp add: opt_bind_def split: option.splits)
    then show ?thesis using contents_of_head(2) [OF res h m Some, of bs] ok map_of_SomeD [OF Some] by blast
  qed
qed

lemma commit_contents:
  assumes codec: "manifest_codec cd" and ap: "apart (fo_work_root store) (app_dir store (so_app_id op))"
    and res: "resolve_app cd store (so_app_id op) (w_fs w) = Inr r"
    and base: "operation_base r base None = Inr (so_parents op, selected, so_original_files op, so_force_publish op)"
    and begun: "begun store op selected bs w"
    and room: "length (ra_manifests r) < MAX_MANIFEST_OBJECTS" and un: "unreferenced_digests cd r"
    and run: "commit_operation cd store op staged deleted identity w = (Inr revision, w')"
  shows "\<exists>f1 files. remove_deleted deleted (so_original_files op) = Inr f1 \<and> insert_staged staged f1 = Inr files
    \<and> (\<forall>p. contents_of cd store (so_app_id op) (w_fs w') p = blob_of bs files p)
    \<and> (\<forall>p. map_of files p = map_of (so_original_files op) p \<longrightarrow>
          contents_of cd store (so_app_id op) (w_fs w) p = blob_of bs files p)"
proof -
  let ?A = "app_dir store (so_app_id op)"
  obtain x where P: "so_path op = fo_work_root store @ [x]" and wd: "work_dir (so_path op) bs (w_fs w)"
    using begun by (auto simp: begun_def)
  obtain f1 files bs' w1 where c: "remove_deleted deleted (so_original_files op) = Inr f1" "insert_staged staged f1 = Inr files"
    and sub: "\<And>h v. map_of bs' h = Some v \<Longrightarrow> map_of bs h = Some v" and ok: "\<forall>(p, f) \<in> set files. intact cd bs' p f"
    and ex: "blobs_exact bs' files" and wd1: "work_dir (so_path op) bs' (w_fs w1)" and same: "same_below ?A (w_fs w) (w_fs w1)"
    and last: "if files = so_original_files op \<and> \<not> so_force_publish op
       then io_bind (io_lift (current r)) (\<lambda>c.
          io_bind (close_operation op) (\<lambda>_.
          io_bind (remove_dir_all_if_exists (so_path op)) (\<lambda>_.
          io_bind (sync_directory (fo_work_root store)) (\<lambda>_.
          io_ret (case c of None \<Rightarrow> 0 | Some (_, m) \<Rightarrow> sm_revision m))))) w1 = (Inr revision, w')
       else publish_operation cd store op files identity (max (ra_max_revision r) (so_minimum_revision op)) w1 = (Inr revision, w')"
    using commit_operation_checks [OF run wd ap P] res by auto
  have lk: "linked (?A @ [i]) bs (sf_sha1 f) (w_fs w)" if "selected = Some i" "(p, f) \<in> set (so_original_files op)" for i p f
    using begun that unfolding begun_def by fastforce
  have okf: "intact cd bs p f" if "map_of files p = Some f" for p f
    using intact_mono [OF _ sub] ok map_of_SomeD [OF that] by blast
  have before: "contents_of cd store (so_app_id op) (w_fs w) p = blob_of bs files p"
    if "map_of files p = map_of (so_original_files op) p" for p
    by (rule contents_before [OF res base lk okf that])
  have "contents_of cd store (so_app_id op) (w_fs w') p = blob_of bs files p" for p
  proof (cases "files = so_original_files op \<and> \<not> so_force_publish op")
    case True
    then have "same_below ?A (w_fs w1) (w_fs w')" using commit_unchanged [OF _ ap P] last by presburger
    then show ?thesis using contents_of_cong [OF same_below_trans [OF same]] before True by simp
  next
    case False
    have parents: "so_parents op = ra_heads r" using ordinary_base [OF base] by blast
    have res1: "resolve_app cd store (so_app_id op) (w_fs w1) = Inr r" using resolve_app_cong [OF same] res by simp
    have pub: "publish_operation cd store op files identity (max (ra_max_revision r) (so_minimum_revision op)) w1 = (Inr revision, w')"
      using last False by presburger
    obtain i m where "published cd store (so_app_id op) r bs' i m (w_fs w')" "sm_files m = files"
      using publish_published [OF codec ap P wd1 ex res1 room parents pub] by blast
    then show ?thesis using contents_published [OF _ un] ok blob_of_intact [OF ok sub] by auto
  qed
  with before c show ?thesis by blast
qed

text \<open>A commit that changes the files, or that must publish, makes its manifest the one that covers the heads.\<close>

lemma commit_publishes:
  assumes codec: "manifest_codec cd" and ap: "apart (fo_work_root store) (app_dir store (so_app_id op))"
    and res: "resolve_app cd store (so_app_id op) (w_fs w) = Inr r" and begun: "begun store op selected bs w"
    and parents: "so_parents op = ra_heads r" and room: "length (ra_manifests r) < MAX_MANIFEST_OBJECTS"
    and run: "commit_operation cd store op staged deleted identity w = (Inr revision, w')"
    and f: "remove_deleted deleted (so_original_files op) = Inr f1" "insert_staged staged f1 = Inr files"
    and changed: "files \<noteq> so_original_files op \<or> so_force_publish op"
  shows "\<exists>bs' i m. published cd store (so_app_id op) r bs' i m (w_fs w') \<and> sm_files m = files \<and> sm_revision m = revision
    \<and> revision = max (ra_max_revision r) (so_minimum_revision op) + 1
    \<and> max (ra_max_revision r) (so_minimum_revision op) < revision"
proof -
  let ?A = "app_dir store (so_app_id op)"
  obtain x where P: "so_path op = fo_work_root store @ [x]" and wd: "work_dir (so_path op) bs (w_fs w)"
    using begun by (auto simp: begun_def)
  obtain bs' w1 where ex: "blobs_exact bs' files" and wd1: "work_dir (so_path op) bs' (w_fs w1)"
    and same: "same_below ?A (w_fs w) (w_fs w1)"
    and pub: "publish_operation cd store op files identity (max (ra_max_revision r) (so_minimum_revision op)) w1 = (Inr revision, w')"
    using commit_operation_checks [OF run wd ap P] res f changed by auto
  have "resolve_app cd store (so_app_id op) (w_fs w1) = Inr r" using resolve_app_cong [OF same] res by simp
  from publish_published [OF codec ap P wd1 ex this room parents pub] show ?thesis by blast
qed

lemma published_heads:
  assumes "published cd store app_id r bs i m fs" "unreferenced_digests cd r"
  shows "resolve_app cd store app_id fs = Inr \<lparr>ra_manifests = bt_insert i m (ra_manifests r), ra_heads = [i], ra_max_revision = sm_revision m\<rparr>"
  using assms unfolding published_def unreferenced_digests_def by auto

section \<open>The contract\<close>

lemma with_operation_Inr:
  "with_operation op m w = (Inr x, w') \<longleftrightarrow> (\<exists>w1. m w = (Inr x, w1) \<and> w' = snd (drop_operation op w1))"
  by (cases "m w") (auto simp: with_operation_def)

lemma drop_operation_same:
  assumes "so_path op = fo_work_root store @ [x]" "apart (fo_work_root store) A"
  shows "same_below A (w_fs w) (w_fs (snd (drop_operation op w)))"
proof (cases "operation_closed op w")
  case False
  let ?m = "remove_dir_all_if_exists (so_path op)"
  have w1: "w_fs (snd (?m w)) = w_fs w \<or> w_fs (snd (?m w)) = modify (fo_work_root store) (dir_del x) (w_fs w)"
    by (auto simp: assms(1) remove_dir_all_if_exists_def fs_remove_dir_all_def split: option.splits node.splits sum.splits io_kind.splits)
  have "snd (drop_operation op w) = snd (?m w)"
    using False assms(1) by (simp add: drop_operation_def io_bind_def io_ignore_def sync_directory_def io_read_def)
  with w1 show ?thesis using same_below_modify [OF assms(2)] by auto
qed (simp add: drop_operation_def)

text \<open>What an edit of the repository relies on: the encoding round trips, the work directory is apart and
  has a free name, the repository can be read and has room, and digests do not collide.\<close>

definition editable :: "codec \<Rightarrow> folder_store \<Rightarrow> u32 \<Rightarrow> world \<Rightarrow> bool" where
  "editable cd store app_id w \<longleftrightarrow> manifest_codec cd \<and> apart (fo_work_root store) (app_dir store app_id)
     \<and> fresh_operation store w
     \<and> (\<exists>r. resolve_app cd store app_id (w_fs w) = Inr r \<and> length (ra_manifests r) < MAX_MANIFEST_OBJECTS
          \<and> unreferenced_digests cd r)"

lemma edit_contents:
  assumes ed: "editable cd store app_id w"
    and op: "begin_operation cd store app_id base None w = (Inr op, w1)"
    and stage: "\<forall>selected bs. begun store op selected bs w1 \<longrightarrow>
      (\<exists>bs'. begun store op selected bs' w2 \<and> same_below (app_dir store app_id) (w_fs w1) (w_fs w2) \<and> Q bs')"
    and run: "commit_operation cd store op staged deleted identity w2 = (Inr revision, w3)"
  shows "\<exists>bs f1 files. Q bs \<and> remove_deleted deleted (so_original_files op) = Inr f1 \<and> insert_staged staged f1 = Inr files
    \<and> (\<forall>p. contents_of cd store app_id (w_fs (snd (drop_operation op w3))) p = blob_of bs files p)
    \<and> (\<forall>p. map_of files p = map_of (so_original_files op) p \<longrightarrow> contents_of cd store app_id (w_fs w) p = blob_of bs files p)"
proof -
  obtain r where cd: "manifest_codec cd" and ap: "apart (fo_work_root store) (app_dir store app_id)" and fresh: "fresh_operation store w"
    and r: "resolve_app cd store app_id (w_fs w) = Inr r" "length (ra_manifests r) < MAX_MANIFEST_OBJECTS" "unreferenced_digests cd r"
    using ed unfolding editable_def by blast
  obtain base' selected bs where b: "operation_base r base' None = Inr (so_parents op, selected, so_original_files op, so_force_publish op)"
    "so_app_id op = app_id" "begun store op selected bs w1" "same_below (app_dir store app_id) (w_fs w) (w_fs w1)"
    using begin_operation_Inr [OF op [unfolded begin_operation_def] ap fresh] r(1) by auto
  obtain bs' where s: "begun store op selected bs' w2" "same_below (app_dir store app_id) (w_fs w1) (w_fs w2)" "Q bs'"
    using stage b(3) by blast
  have same: "same_below (app_dir store app_id) (w_fs w) (w_fs w2)" by (rule same_below_trans [OF b(4) s(2)])
  have res: "resolve_app cd store (so_app_id op) (w_fs w2) = Inr r" using resolve_app_cong [OF same] r(1) b(2) by simp
  have ap': "apart (fo_work_root store) (app_dir store (so_app_id op))" using ap b(2) by simp
  obtain x where "so_path op = fo_work_root store @ [x]" using s(1) by (auto simp: begun_def)
  from contents_of_cong [OF drop_operation_same [OF this ap]]
  have "contents_of cd store app_id (w_fs (snd (drop_operation op w3))) = contents_of cd store app_id (w_fs w3)" .
  then show ?thesis
    using commit_contents [OF cd ap' res b(1) s(1) r(2,3) run] s(3) contents_of_cong [OF same] b(2) by auto
qed

lemma byte_store_write_contents:
  assumes ed: "editable cd store app_id w"
    and run: "byte_store_write cd store descriptor app_id p contents metadata w = (Inr revision, w')"
  shows "contents_of cd store app_id (w_fs w') = (contents_of cd store app_id (w_fs w))(p \<mapsto> contents)"
proof -
  obtain v identity op w1 st w2 w3 where
    op: "begin_operation cd store app_id (head_ids v) None w = (Inr op, w1)"
    and st: "stage_file cd store op p contents metadata w1 = (Inr st, w2)"
    and cm: "commit_operation cd store op [st] [] identity w2 = (Inr revision, w3)" and w': "w' = snd (drop_operation op w3)"
    using run by (auto simp: byte_store_write_def io_bind_Inr with_operation_Inr)
  have ap: "apart (fo_work_root store) (app_dir store app_id)" "fresh_operation store w" using ed by (auto simp: editable_def)
  have app: "so_app_id op = app_id" using begin_operation_Inr [OF op [unfolded begin_operation_def] ap] by blast
  have stage: "\<forall>selected bs. begun store op selected bs w1 \<longrightarrow>
      (\<exists>bs'. begun store op selected bs' w2 \<and> same_below (app_dir store app_id) (w_fs w1) (w_fs w2)
         \<and> map_of bs' (st_blob_sha1 st) = Some (File contents))"
    using stage_file_Inr [OF st] ap(1) app by fastforce
  have path: "st_path st = p" using st by (auto simp: stage_file_def io_bind_Inr Let_def)
  from edit_contents [OF ed op stage cm]
  obtain bs f1 files where bs: "map_of bs (st_blob_sha1 st) = Some (File contents)"
    and f: "remove_deleted [] (so_original_files op) = Inr f1" "insert_staged [st] f1 = Inr files"
    and after: "\<And>q. contents_of cd store app_id (w_fs w') q = blob_of bs files q"
    and before: "\<And>q. map_of files q = map_of (so_original_files op) q \<Longrightarrow> contents_of cd store app_id (w_fs w) q = blob_of bs files q"
    unfolding w' by blast
  define sf where "sf = \<lparr>sf_sha1 = st_blob_sha1 st, sf_raw_size = fm_raw_size (st_metadata st),
    sf_mtime = fm_mtime (st_metadata st), sf_platforms_to_sync = fm_platforms_to_sync (st_metadata st)\<rparr>"
  have files: "files = bt_insert p sf (so_original_files op)"
    using f path by (auto simp: remove_deleted_def insert_staged_def rbind_eq_Inr sf_def)
  show ?thesis
  proof
    fix q
    show "contents_of cd store app_id (w_fs w') q = ((contents_of cd store app_id (w_fs w))(p \<mapsto> contents)) q"
    proof (cases "q = p")
      case True
      then show ?thesis using after bs by (simp add: files blob_of_def map_of_bt_insert sf_def)
    next
      case False
      then show ?thesis using after before [of q] by (simp add: files map_of_bt_insert)
    qed
  qed
qed

lemma file_store_delete_contents:
  assumes ed: "editable cd store app_id w"
    and run: "file_store_delete cd store descriptor app_id p w = (Inr revision, w')"
  shows "contents_of cd store app_id (w_fs w') = (contents_of cd store app_id (w_fs w))(p := None)"
proof -
  obtain v identity op w1 w3 where
    op: "begin_operation cd store app_id (head_ids v) None w = (Inr op, w1)"
    and cm: "commit_operation cd store op [] [p] identity w1 = (Inr revision, w3)" and w': "w' = snd (drop_operation op w3)"
    using run by (auto simp: file_store_delete_def io_bind_Inr with_operation_Inr)
  have stage: "\<forall>selected bs. begun store op selected bs w1 \<longrightarrow>
      (\<exists>bs'. begun store op selected bs' w1 \<and> same_below (app_dir store app_id) (w_fs w1) (w_fs w1) \<and> True)"
    by auto
  from edit_contents [OF ed op stage cm]
  obtain bs f1 files where f: "remove_deleted [p] (so_original_files op) = Inr f1" "insert_staged [] f1 = Inr files"
    and after: "\<And>q. contents_of cd store app_id (w_fs w') q = blob_of bs files q"
    and before: "\<And>q. map_of files q = map_of (so_original_files op) q \<Longrightarrow> contents_of cd store app_id (w_fs w) q = blob_of bs files q"
    unfolding w' by blast
  have files: "files = bt_remove p (so_original_files op)"
    using f by (auto simp: remove_deleted_def insert_staged_def rbind_eq_Inr)
  show ?thesis
  proof
    fix q
    show "contents_of cd store app_id (w_fs w') q = ((contents_of cd store app_id (w_fs w))(p := None)) q"
      using after [of q] before [of q] by (cases "q = p") (simp_all add: files blob_of_def map_of_bt_remove)
  qed
qed

text \<open>A store of files is a state with contents and edits that change them as a map is changed.\<close>

datatype edit = Put string bytes file_metadata | Remove string

fun apply_edit :: "edit \<Rightarrow> (string \<Rightarrow> bytes option) \<Rightarrow> string \<Rightarrow> bytes option" where
  "apply_edit (Put p b _) c = c(p \<mapsto> b)"
| "apply_edit (Remove p) c = c(p := None)"

fun run_edits :: "(edit \<Rightarrow> 's \<Rightarrow> 's option) \<Rightarrow> ('s \<Rightarrow> bool) \<Rightarrow> edit list \<Rightarrow> 's \<Rightarrow> 's option" where
  "run_edits step ok [] s = Some s"
| "run_edits step ok (e # es) s = (if ok s then opt_bind (step e s) (run_edits step ok es) else None)"

locale file_map =
  fixes contents :: "'s \<Rightarrow> string \<Rightarrow> bytes option" and step :: "edit \<Rightarrow> 's \<Rightarrow> 's option" and ok :: "'s \<Rightarrow> bool"
  assumes step_contents: "ok s \<Longrightarrow> step e s = Some s' \<Longrightarrow> contents s' = apply_edit e (contents s)"
begin

lemma run_contents: "run_edits step ok es s = Some s' \<Longrightarrow> contents s' = fold apply_edit es (contents s)"
proof (induction es arbitrary: s)
  case (Cons e es)
  then show ?case by (auto simp: opt_bind_eq_Some step_contents split: if_splits)
qed simp

end

fun store_edit :: "codec \<Rightarrow> folder_store \<Rightarrow> device_descriptor option \<Rightarrow> u32 \<Rightarrow> edit \<Rightarrow> world \<Rightarrow> world option" where
  "store_edit cd store descriptor app_id (Put p b metadata) w =
     (case byte_store_write cd store descriptor app_id p b metadata w of (Inr _, w') \<Rightarrow> Some w' | _ \<Rightarrow> None)"
| "store_edit cd store descriptor app_id (Remove p) w =
     (case file_store_delete cd store descriptor app_id p w of (Inr _, w') \<Rightarrow> Some w' | _ \<Rightarrow> None)"

interpretation local_files: file_map
  "\<lambda>w. contents_of cd store app_id (w_fs w)" "store_edit cd store descriptor app_id" "editable cd store app_id"
  for cd store descriptor app_id
proof
  fix s e s'
  assume ok: "editable cd store app_id s" and step: "store_edit cd store descriptor app_id e s = Some s'"
  show "contents_of cd store app_id (w_fs s') = apply_edit e (contents_of cd store app_id (w_fs s))"
  proof (cases e)
    case (Put p b metadata)
    then obtain revision where "byte_store_write cd store descriptor app_id p b metadata s = (Inr revision, s')"
      using step by (auto split: prod.splits sum.splits)
    from byte_store_write_contents [OF ok this] show ?thesis by (simp add: Put)
  next
    case (Remove p)
    then obtain revision where "file_store_delete cd store descriptor app_id p s = (Inr revision, s')"
      using step by (auto split: prod.splits sum.splits)
    from file_store_delete_contents [OF ok this] show ?thesis by (simp add: Remove)
  qed
qed

end
