(* ===== verification/Local_Gc.thy ===== *)
theory Local_Gc
  imports Local_Contents
begin

text \<open>
  Garbage collection of the local store.  Reading the repository is first restated without the order of the
  directory: a directory reads as the map from the names of its manifest entries to their manifests.
  From that follow what a sweep leaves behind and that restoring it gives back what was there.
\<close>

section \<open>Reading without the order of entries\<close>

definition entry_manifest :: "codec \<Rightarrow> path \<Rightarrow> string \<Rightarrow> u32 \<Rightarrow> node \<Rightarrow> string \<times> node \<Rightarrow> backend_error + save_manifest" where
  "entry_manifest cd app_directory steam_id64 app_id fs = (\<lambda>(name, n).
     let p = app_directory @ [name] in
     if \<not> is_dir n \<or> \<not> is_ok (validate_manifest_id name)
     then Inl (incomplete ''local cloud manifest namespace is incomplete'')
     else rbind (validate_manifest_directory p fs) (\<lambda>_.
       rbind (read_bounded_file (p @ [''manifest.json'']) MAX_MANIFEST_BYTES ''manifest'' fs) (\<lambda>bs.
       rbind (ensure (hex_digest (cd_sha256 cd) bs = name)
                (incomplete ''local cloud manifest identity is invalid'')) (\<lambda>_.
       rbind (ok_or (incomplete ''local cloud manifest is incomplete'') (cd_manifest_from_slice cd bs)) (\<lambda>manifest.
       rbind (validate_manifest name steam_id64 app_id manifest) (\<lambda>_.
       rbind (validate_manifest_blobs (p @ [''blobs'']) (sm_files manifest) fs) (\<lambda>_. Inr manifest)))))))"

definition manifest_entries :: "entries \<Rightarrow> entries" where
  "manifest_entries es = filter (\<lambda>e. \<not> is_non_manifest_app_entry (fst e)) es"

text \<open>The entries that a reader accepts, on top of what it already has.\<close>

definition readable ::
  "codec \<Rightarrow> path \<Rightarrow> string \<Rightarrow> u32 \<Rightarrow> node \<Rightarrow> entries \<Rightarrow> bool" where
  "readable cd d account app_id fs es \<longleftrightarrow>
     (\<forall>e \<in> set es. utf8_valid (as_bytes (fst e))) \<and> distinct (map fst (manifest_entries es))
     \<and> length (manifest_entries es) \<le> MAX_MANIFEST_OBJECTS
     \<and> (\<forall>e \<in> set (manifest_entries es). is_ok (entry_manifest cd d account app_id fs e))"

definition manifest_of :: "codec \<Rightarrow> path \<Rightarrow> string \<Rightarrow> u32 \<Rightarrow> node \<Rightarrow> entries \<Rightarrow> string \<Rightarrow> save_manifest option" where
  "manifest_of cd d account app_id fs es =
     map_of (map (\<lambda>e. (fst e, projr (entry_manifest cd d account app_id fs e))) (manifest_entries es))"

text \<open>The entries of a directory without those named in \<open>R\<close>, in any order.\<close>

definition kept :: "path \<Rightarrow> string set \<Rightarrow> node \<Rightarrow> node \<Rightarrow> bool" where
  "kept A R fs fs' \<longleftrightarrow> (\<exists>es es'. lookup fs A = Some (Dir es) \<and> lookup fs' A = Some (Dir es')
     \<and> mset es' = mset (filter (\<lambda>e. fst e \<notin> R) es) \<and> map_of es' = map_of es |` (- R))"

text \<open>The entries \<open>es0\<close> of the app directory while the manifests of \<open>mv\<close> wait in the work directory.\<close>

definition parked :: "path \<Rightarrow> path \<Rightarrow> entries \<Rightarrow> (string \<times> path) list \<Rightarrow> node \<Rightarrow> bool" where
  "parked A W es0 mv fs \<longleftrightarrow> (\<exists>es ws. lookup fs A = Some (Dir es) \<and> lookup fs W = Some (Dir ws)
     \<and> mset es = mset (filter (\<lambda>e. fst e \<notin> fst ` set mv) es0) \<and> map_of es = map_of es0 |` (- fst ` set mv)
     \<and> distinct (map fst mv) \<and> distinct (map snd mv)
     \<and> (\<forall>(j, t) \<in> set mv. validate_manifest_id j = Inr () \<and>
          (\<exists>c n. t = W @ [c] \<and> map_of ws c = Some (Dir n) \<and> n \<noteq> [] \<and> map_of es0 j = Some (Dir n))))"

definition unambiguous :: "entries \<Rightarrow> string list \<Rightarrow> bool" where
  "unambiguous es is \<longleftrightarrow> (\<forall>i \<in> set is. validate_manifest_id i = Inr ()
     \<and> (\<exists>n. n \<noteq> [] \<and> filter (\<lambda>e. fst e = i) es = [(i, Dir n)]))"

lemma collect_manifest_entry_Inr:
  "collect_manifest_entry cd d account app_id fs (name, n) acc = Inr ms \<longleftrightarrow>
     utf8_valid (as_bytes name) \<and>
     (if is_non_manifest_app_entry name then ms = acc
      else length acc < MAX_MANIFEST_OBJECTS \<and> map_of acc name = None
        \<and> (\<exists>m. entry_manifest cd d account app_id fs (name, n) = Inr m \<and> ms = bt_insert name m acc))"
  by (auto simp: collect_manifest_entry_def entry_manifest_def Let_def rbind_eq_Inr split: if_splits)

lemma bt_insert_length_fresh: "map_of ms i = None \<Longrightarrow> length (bt_insert i m ms) = Suc (length ms)"
  by (induction i m ms rule: bt_insert.induct) (auto split: if_splits)

lemma manifest_entries_simps [simp]:
  "manifest_entries [] = []"
  "manifest_entries (e # es) = (if is_non_manifest_app_entry (fst e) then manifest_entries es else e # manifest_entries es)"
  by (simp_all add: manifest_entries_def)

lemma bt_ext:
  fixes xs ys :: "('k::linorder \<times> 'v) list"
  assumes "bt_wf xs" "bt_wf ys" "map_of xs = map_of ys" shows "xs = ys"
proof -
  have keys: "map fst xs = map fst ys"
    using assms by (intro sorted_wrt_less_unique) (auto simp: bt_wf_def dom_map_of_conv_image_fst [symmetric])
  have v: "map_of zs k = Some v" if "(k, v) \<in> set zs" "bt_wf zs" for k v and zs :: "('k \<times> 'v) list"
    using that(1) bt_wf_distinct [OF that(2)] by simp
  show ?thesis
  proof (rule nth_equalityI)
    show len: "length xs = length ys" using keys by (metis length_map)
    fix i assume i: "i < length xs"
    have k: "fst (xs ! i) = fst (ys ! i)" using keys i len by (metis nth_map)
    have "map_of xs (fst (xs ! i)) = Some (snd (xs ! i))" using v [OF _ assms(1)] nth_mem [OF i] by simp
    moreover have "map_of ys (fst (ys ! i)) = Some (snd (ys ! i))" using v [OF _ assms(2)] nth_mem i len by simp
    ultimately show "xs ! i = ys ! i" using k assms(3) by (simp add: prod_eq_iff)
  qed
qed

lemma collect_fold:
  "rfold (collect_manifest_entry cd d account app_id fs) es acc = Inr ms \<longleftrightarrow>
     (\<forall>e \<in> set es. utf8_valid (as_bytes (fst e))) \<and> distinct (map fst (manifest_entries es))
     \<and> (\<forall>e \<in> set (manifest_entries es). map_of acc (fst e) = None)
     \<and> (manifest_entries es = [] \<or> length acc + length (manifest_entries es) \<le> MAX_MANIFEST_OBJECTS)
     \<and> (\<forall>e \<in> set (manifest_entries es). is_ok (entry_manifest cd d account app_id fs e))
     \<and> ms = fold (\<lambda>e. bt_insert (fst e) (projr (entry_manifest cd d account app_id fs e))) (manifest_entries es) acc"
proof (induction es arbitrary: acc)
  case Nil
  then show ?case by (auto simp: manifest_entries_def)
next
  case (Cons e es)
  obtain name n where e: "e = (name, n)" by fastforce
  show ?case
  proof (cases "is_non_manifest_app_entry name")
    case True
    then show ?thesis using Cons [of acc] by (auto simp: rbind_eq_Inr e collect_manifest_entry_Inr)
  next
    case False
    let ?m = "entry_manifest cd d account app_id fs (name, n)"
    have step: "rfold (collect_manifest_entry cd d account app_id fs) (e # es) acc = Inr ms \<longleftrightarrow>
        utf8_valid (as_bytes name) \<and> length acc < MAX_MANIFEST_OBJECTS \<and> map_of acc name = None \<and> is_ok ?m
        \<and> rfold (collect_manifest_entry cd d account app_id fs) es (bt_insert name (projr ?m) acc) = Inr ms"
      using False by (auto simp: rbind_eq_Inr e collect_manifest_entry_Inr is_ok_iff)
    show ?thesis
    proof (cases "map_of acc name = None")
      case True
      then have len: "length (bt_insert name (projr ?m) acc) = Suc (length acc)" by (rule bt_insert_length_fresh)
      have fresh: "(\<forall>x \<in> set xs. map_of (bt_insert name (projr ?m) acc) (fst x) = None)
          \<longleftrightarrow> name \<notin> fst ` set xs \<and> (\<forall>x \<in> set xs. map_of acc (fst x) = None)" for xs :: entries
        by (force simp: map_of_bt_insert)
      show ?thesis
        unfolding step Cons.IH len fresh using False True by (auto simp: e)
    next
      case ne: False
      then have "\<not> rfold (collect_manifest_entry cd d account app_id fs) (e # es) acc = Inr ms" unfolding step by blast
      with ne False show ?thesis by (auto simp: e)
    qed
  qed
qed

lemma fold_bt_insert:
  assumes "bt_wf acc" "distinct (map fst es)" "\<forall>e \<in> set es. map_of acc (fst e) = None"
  shows "bt_wf (fold (\<lambda>e. bt_insert (fst e) (g e)) es acc)
    \<and> map_of (fold (\<lambda>e. bt_insert (fst e) (g e)) es acc) = map_of acc ++ map_of (map (\<lambda>e. (fst e, g e)) es)"
  using assms
proof (induction es arbitrary: acc)
  case (Cons e es)
  have "\<forall>x \<in> set es. map_of (bt_insert (fst e) (g e) acc) (fst x) = None"
  proof
    fix x assume "x \<in> set es"
    then have "fst x \<in> fst ` set es" "map_of acc (fst x) = None" using Cons.prems(3) by simp_all
    moreover have "fst e \<notin> fst ` set es" using Cons.prems(2) by simp
    ultimately have "fst x \<noteq> fst e" "map_of acc (fst x) = None" by metis+
    then show "map_of (bt_insert (fst e) (g e) acc) (fst x) = None" by (simp add: map_of_bt_insert)
  qed
  from Cons.IH [OF bt_wf_insert [OF Cons.prems(1)] _ this] Cons.prems
  have IH: "bt_wf (fold (\<lambda>e. bt_insert (fst e) (g e)) es (bt_insert (fst e) (g e) acc))"
    "map_of (fold (\<lambda>e. bt_insert (fst e) (g e)) es (bt_insert (fst e) (g e) acc))
      = map_of (bt_insert (fst e) (g e) acc) ++ map_of (map (\<lambda>e. (fst e, g e)) es)" by auto
  have "fst e \<notin> dom (map_of (map (\<lambda>e. (fst e, g e)) es))"
    using Cons.prems(2) unfolding dom_map_of_conv_image_fst by (auto simp: image_image)
  then have "map_of (bt_insert (fst e) (g e) acc) ++ map_of (map (\<lambda>e. (fst e, g e)) es)
      = map_of acc ++ map_of (map (\<lambda>e. (fst e, g e)) (e # es))"
    by (auto simp: fun_eq_iff map_of_bt_insert map_add_def split: option.splits)
  with IH show ?case by (simp only: fold.simps o_apply simp_thms)
qed simp

lemma collect_iff:
  "rfold (collect_manifest_entry cd d account app_id fs) es [] = Inr ms \<longleftrightarrow>
     readable cd d account app_id fs es \<and> bt_wf ms \<and> map_of ms = manifest_of cd d account app_id fs es"
proof -
  let ?g = "\<lambda>e. projr (entry_manifest cd d account app_id fs e)"
  let ?f = "fold (\<lambda>e. bt_insert (fst e) (?g e)) (manifest_entries es) []"
  have f: "bt_wf ?f \<and> map_of ?f = manifest_of cd d account app_id fs es" if "readable cd d account app_id fs es"
    using fold_bt_insert [of "[]" "manifest_entries es" ?g] that by (simp add: readable_def manifest_of_def)
  have "rfold (collect_manifest_entry cd d account app_id fs) es [] = Inr ms \<longleftrightarrow>
      readable cd d account app_id fs es \<and> ms = ?f"
    unfolding collect_fold readable_def by auto
  also have "\<dots> \<longleftrightarrow> readable cd d account app_id fs es \<and> bt_wf ms \<and> map_of ms = manifest_of cd d account app_id fs es"
  proof (cases "readable cd d account app_id fs es")
    case True
    have "ms = ?f" if "bt_wf ms" "map_of ms = manifest_of cd d account app_id fs es"
      using that f [OF True] by (intro bt_ext) simp_all
    with f [OF True] True show ?thesis by (simp only:) blast
  qed simp
  finally show ?thesis .
qed

section \<open>Removing entries\<close>

lemma kept_lookup:
  assumes "kept A R fs fs'" "name \<notin> R" shows "lookup fs' (A @ name # q) = lookup fs (A @ name # q)"
  using assms by (auto simp: kept_def lookup_append restrict_map_def)

lemma entry_manifest_cong:
  assumes "\<And>q. lookup fs' (d @ name # q) = lookup fs (d @ name # q)"
  shows "entry_manifest cd d account app_id fs' (name, n) = entry_manifest cd d account app_id fs (name, n)"
proof -
  have "lookup fs' (d @ [name]) = lookup fs (d @ [name])"
    "lookup fs' (d @ [name, ''manifest.json'']) = lookup fs (d @ [name, ''manifest.json''])"
    "lookup fs' (d @ [name, ''blobs'']) = lookup fs (d @ [name, ''blobs''])"
    using assms by simp_all
  then have "validate_manifest_directory (d @ [name]) fs' = validate_manifest_directory (d @ [name]) fs"
    "read_bounded_file ((d @ [name]) @ [''manifest.json'']) MAX_MANIFEST_BYTES ''manifest'' fs'
       = read_bounded_file ((d @ [name]) @ [''manifest.json'']) MAX_MANIFEST_BYTES ''manifest'' fs"
    "validate_manifest_blobs ((d @ [name]) @ [''blobs'']) files fs' = validate_manifest_blobs ((d @ [name]) @ [''blobs'']) files fs" for files
    by (simp_all add: validate_manifest_directory_def validate_manifest_blobs_def read_bounded_file_def fs_read_dir_def fs_node_def)
  then show ?thesis by (simp only: entry_manifest_def prod.case Let_def)
qed

lemma map_of_filter_notin: "map_of (filter (\<lambda>e. fst e \<notin> R) xs) = map_of xs |` (- R)"
  by (induction xs) (auto simp: fun_eq_iff restrict_map_def)

lemma kept_collect:
  assumes k: "kept A R fs fs'" and c: "collect_manifest_objects cd A account app_id fs = Inr ms"
  shows "collect_manifest_objects cd A account app_id fs' = Inr (filter (\<lambda>e. fst e \<notin> R) ms)"
proof -
  obtain es es' where es: "lookup fs A = Some (Dir es)" "lookup fs' A = Some (Dir es')"
    "mset es' = mset (filter (\<lambda>e. fst e \<notin> R) es)" using k by (auto simp: kept_def)
  let ?h = "\<lambda>fs e. (fst e, projr (entry_manifest cd A account app_id fs e))"
  have r: "readable cd A account app_id fs es" "bt_wf ms" "map_of ms = manifest_of cd A account app_id fs es"
    using c es(1) by (auto simp: collect_manifest_objects_def fs_exists_def fs_read_dir_def collect_iff)
  have "mset (manifest_entries es') = mset (filter (\<lambda>e. fst e \<notin> R) (manifest_entries es))"
    using arg_cong [OF es(3), of "filter_mset (\<lambda>e. \<not> is_non_manifest_app_entry (fst e))"]
    by (simp add: manifest_entries_def conj_commute flip: mset_filter)
  note me = mset_eq_setD [OF this] mset_eq_length [OF this] arg_cong [OF this, of "image_mset fst"]
  have m: "set (manifest_entries es') = {e \<in> set (manifest_entries es). fst e \<notin> R}"
    "length (manifest_entries es') \<le> length (manifest_entries es)"
    "distinct (map fst (manifest_entries es')) = distinct (map fst (filter (\<lambda>e. fst e \<notin> R) (manifest_entries es)))"
    subgoal using me(1) by simp
    subgoal using me(2) by simp
    subgoal using mset_eq_imp_distinct_iff [of "map fst (manifest_entries es')"] me(3) by simp
    done
  have same: "entry_manifest cd A account app_id fs' e = entry_manifest cd A account app_id fs e" if "fst e \<notin> R" for e
    using entry_manifest_cong [OF kept_lookup [OF k that]] by (cases e) simp
  have d: "distinct (map fst (manifest_entries es'))" "distinct (map fst (filter (\<lambda>e. fst e \<notin> R) (manifest_entries es)))"
    using r(1) m(3) by (auto simp: readable_def distinct_map_filter)
  have "set es' \<subseteq> set es" using mset_eq_setD [OF es(3)] by auto
  then have r': "readable cd A account app_id fs' es'"
    using r(1) m d(1) same by (fastforce simp: readable_def)
  have "manifest_of cd A account app_id fs' es' = map_of (map (?h fs) (filter (\<lambda>e. fst e \<notin> R) (manifest_entries es)))"
    unfolding manifest_of_def
  proof (subst map_of_inject_set)
    show "set (map (?h fs') (manifest_entries es')) = set (map (?h fs) (filter (\<lambda>e. fst e \<notin> R) (manifest_entries es)))"
      using m(1) same by force
  qed (use d in \<open>simp_all add: comp_def\<close>)
  also have "\<dots> = map_of (filter (\<lambda>e. fst e \<notin> R) ms)"
    by (simp add: map_of_filter_notin r(3) manifest_of_def filter_map [unfolded comp_def, of "\<lambda>e. fst e \<notin> R" "?h fs", simplified, symmetric])
  finally have "map_of (filter (\<lambda>e. fst e \<notin> R) ms) = manifest_of cd A account app_id fs' es'" by simp
  moreover have "bt_wf (filter (\<lambda>e. fst e \<notin> R) ms)"
    using r(2) by (rule bt_wf_filter)
  ultimately show ?thesis using r' es(2)
    by (simp add: collect_manifest_objects_def fs_exists_def fs_read_dir_def collect_iff)
qed

section \<open>Moving manifests away and back\<close>

lemma manifest_dir_Inr:
  "manifest_dir store app_id i = Inr p \<longleftrightarrow> app_id \<noteq> 0 \<and> validate_manifest_id i = Inr () \<and> p = app_dir store app_id @ [i]"
  by (auto simp: manifest_dir_def rbind_eq_Inr validate_app_id_def)

lemma rename_apart:
  assumes ap: "apart p q" and p: "lookup fs p = Some (Dir es)" and q: "lookup fs q = Some (Dir ws)"
  shows "lookup (modify q g (modify p f fs)) p = Some (Dir (f es))" "lookup (modify q g (modify p f fs)) q = Some (Dir (g ws))"
proof -
  show "lookup (modify q g (modify p f fs)) p = Some (Dir (f es))"
    using lookup_modify_apart [of q p] ap lookup_modify_same [OF p] by (simp add: apart_sym)
  show "lookup (modify q g (modify p f fs)) q = Some (Dir (g ws))"
    using lookup_modify_apart [OF ap] q by (intro lookup_modify_same) simp
qed

lemma fs_rename_ok:
  assumes "lookup fs p = Some (Dir es)" "map_of es c = Some x" "lookup fs q = Some (Dir ws)" "map_of ws d = None"
  shows "fs_rename (p @ [c]) (q @ [d]) fs = Inr (modify q (dir_put d x) (modify p (dir_del c) fs))"
  using assms by (simp add: fs_rename_def lookup_snoc fs_is_dir_def)

lemma parkedE:
  assumes "parked A W es0 mv fs"
  obtains es ws where "lookup fs A = Some (Dir es)" "lookup fs W = Some (Dir ws)"
    "mset es = mset (filter (\<lambda>e. fst e \<notin> fst ` set mv) es0)" "map_of es = map_of es0 |` (- fst ` set mv)"
    "distinct (map fst mv)" "distinct (map snd mv)"
    "\<forall>(j, t) \<in> set mv. validate_manifest_id j = Inr () \<and>
      (\<exists>c n. t = W @ [c] \<and> map_of ws c = Some (Dir n) \<and> n \<noteq> [] \<and> map_of es0 j = Some (Dir n))"
  using assms unfolding parked_def by (elim exE conjE) (rule that)

lemma parked_add:
  assumes p: "parked A W es0 mv fs" and ap: "apart W A" and i: "i \<notin> fst ` set mv" "validate_manifest_id i = Inr ()" 
    and n: "map_of es0 i = Some (Dir n)" "n \<noteq> []"
    and es: "lookup fs A = Some (Dir es)" "lookup fs W = Some (Dir ws)" and c: "map_of ws c = None \<or> map_of ws c = Some (Dir [])"
  shows "parked A W es0 (mv @ [(i, W @ [c])]) (modify W (dir_put c (Dir n)) (modify A (dir_del i) fs))"
proof -
  have es': "mset es = mset (filter (\<lambda>e. fst e \<notin> fst ` set mv) es0)" "map_of es = map_of es0 |` (- fst ` set mv)"
    and mv: "distinct (map fst mv)" "distinct (map snd mv)"
    and ws: "\<And>j t. (j, t) \<in> set mv \<Longrightarrow> validate_manifest_id j = Inr () \<and>
          (\<exists>c n. t = W @ [c] \<and> map_of ws c = Some (Dir n) \<and> n \<noteq> [] \<and> map_of es0 j = Some (Dir n))"
    using p es unfolding parked_def by (auto 0 3)
  have "W @ [c] \<notin> snd ` set mv" using ws c by fastforce
  moreover have "mset (dir_del i es) = mset (filter (\<lambda>e. fst e \<notin> fst ` set (mv @ [(i, W @ [c])])) es0)"
    using arg_cong [OF es'(1), of "filter_mset (\<lambda>e. fst e \<noteq> i)"] by (simp add: dir_del_def conj_commute flip: mset_filter)
  moreover have "map_of (dir_del i es) = map_of es0 |` (- fst ` set (mv @ [(i, W @ [c])]))"
    by (auto simp: map_of_dir_del es'(2) fun_eq_iff restrict_map_def)
  moreover have "\<forall>(j, t) \<in> set (mv @ [(i, W @ [c])]). validate_manifest_id j = Inr () \<and>
      (\<exists>d m. t = W @ [d] \<and> map_of (dir_put c (Dir n) ws) d = Some (Dir m) \<and> m \<noteq> [] \<and> map_of es0 j = Some (Dir m))"
    using ws c i(2) n by (fastforce simp: map_of_dir_put)
  ultimately show ?thesis
    unfolding parked_def using rename_apart [OF _ es] ap mv i(1) by (auto simp: apart_sym)
qed

lemma move_manifest_parks:
  assumes p: "parked A W es0 mv (w_fs w)" and A: "A = app_dir store app_id" and W: "W = fo_work_root store" and ap: "apart W A"
    and u: "unambiguous es0 [i]" and i: "i \<notin> fst ` set mv" and app: "app_id \<noteq> 0"
    and run: "move_manifest_to_trash store app_id i w = (x, w')"
  shows "case x of Inl _ \<Rightarrow> parked A W es0 mv (w_fs w') | Inr t \<Rightarrow> (\<exists>trash. t = Some trash \<and> parked A W es0 (mv @ [(i, trash)]) (w_fs w'))"
proof -
  obtain n where valid: "validate_manifest_id i = Inr ()" and n: "n \<noteq> []" "filter (\<lambda>e. fst e = i) es0 = [(i, Dir n)]"
    using u by (auto simp: unambiguous_def)
  have n0: "map_of es0 i = Some (Dir n)" using n(2) by (induction es0) (auto split: if_splits)
  obtain es ws where es: "lookup (w_fs w) A = Some (Dir es)" "lookup (w_fs w) W = Some (Dir ws)" "map_of es i = Some (Dir n)"
    using p i n0 by (auto simp: parked_def)
  define c where "c = ''gc-'' @ hex_of_nat (unat (w_pid w)) @ ''-'' @ hex_of_nat (unat (w_millis w)) @ ''-'' @ hex_of_nat (unat (w_next w))"
  let ?w = "w\<lparr>w_next := w_next w + 1\<rparr>"
  have step: "move_manifest_to_trash store app_id i w =
      io_bind (io_step (fs_rename (A @ [i]) (W @ [c]))) (\<lambda>_.
          io_bind (sync_directory A) (\<lambda>_.
          io_bind (sync_directory W) (\<lambda>_. io_ret (Some (W @ [c]))))) ?w"
    using app valid es(1,3)
    by (simp add: move_manifest_to_trash_def io_bind_def io_lift_def manifest_dir_def validate_app_id_def fs_exists_def lookup_snoc
        next_nonce_def c_def A W Let_def)
  show ?thesis
  proof (cases "fs_rename (A @ [i]) (W @ [c]) (w_fs w)")
    case (Inl k)
    then show ?thesis using run step p by (auto simp: io_bind_def io_step_def)
  next
    case (Inr fs)
    then obtain y es1 ws1 where r: "lookup (w_fs w) A = Some (Dir es1)" "map_of es1 i = Some y" "lookup (w_fs w) W = Some (Dir ws1)"
      "map_of ws1 c = None \<or> map_of ws1 c = Some (Dir []) \<or> (\<exists>n. map_of ws1 c = Some n \<and> \<not> is_dir n \<and> \<not> is_dir y)"
      "fs = modify W (dir_put c y) (modify A (dir_del i) (w_fs w))"
      by (rule fs_rename_Inr)
    then have c: "map_of ws c = None \<or> map_of ws c = Some (Dir [])" and fs: "fs = modify W (dir_put c (Dir n)) (modify A (dir_del i) (w_fs w))"
      using es by auto
    have new: "parked A W es0 (mv @ [(i, W @ [c])]) fs"
      unfolding fs by (rule parked_add [OF p ap i valid n0 n(1) es(1,2) c])
    then have "fs_exists fs A" "fs_exists fs W" by (auto simp: parked_def fs_exists_def)
    then show ?thesis using run step new Inr by (auto simp: io_bind_def io_step_def sync_directory_def io_read_def io_ret_def)
  qed
qed

lemma restore_manifest_parks:
  assumes p: "parked A W es0 (mv @ [(i, t)]) (w_fs w)" and A: "A = app_dir store app_id" and W: "W = fo_work_root store" and ap: "apart W A"
    and u: "unambiguous es0 [i]" and app: "app_id \<noteq> 0"
  shows "\<exists>w'. restore_manifest store app_id (i, t) w = (Inr (), w') \<and> parked A W es0 mv (w_fs w')"
proof -
  obtain n where n: "filter (\<lambda>e. fst e = i) es0 = [(i, Dir n)]" using u by (auto simp: unambiguous_def)
  have n0: "map_of es0 i = Some (Dir n)" using n by (induction es0) (auto split: if_splits)
  obtain es ws where es: "lookup (w_fs w) A = Some (Dir es)" "lookup (w_fs w) W = Some (Dir ws)"
      "mset es = mset (filter (\<lambda>e. fst e \<notin> fst ` set (mv @ [(i, t)])) es0)" "map_of es = map_of es0 |` (- fst ` set (mv @ [(i, t)]))"
    and d: "distinct (map fst (mv @ [(i, t)]))" "distinct (map snd (mv @ [(i, t)]))"
    and ws: "\<forall>(j, t) \<in> set (mv @ [(i, t)]). validate_manifest_id j = Inr () \<and>
          (\<exists>c n. t = W @ [c] \<and> map_of ws c = Some (Dir n) \<and> n \<noteq> [] \<and> map_of es0 j = Some (Dir n))"
    by (rule parkedE [OF p])
  have mv: "distinct (map fst mv)" "distinct (map snd mv)" "i \<notin> fst ` set mv" "t \<notin> snd ` set mv" using d by auto
  obtain c where c: "t = W @ [c]" "map_of ws c = Some (Dir n)" "validate_manifest_id i = Inr ()" using ws n0 by auto
  let ?fs = "modify A (dir_put i (Dir n)) (modify W (dir_del c) (w_fs w))"
  have i: "map_of es i = None" by (simp add: es(4))
  have ren: "fs_rename t (A @ [i]) (w_fs w) = Inr ?fs"
    unfolding c(1) by (rule fs_rename_ok [OF es(2) c(2) es(1) i])
  have run: "restore_manifest store app_id (i, t) w = (Inr (), w\<lparr>w_fs := ?fs\<rparr>)"
    using app c(3) es(1) i ren
    by (simp add: restore_manifest_def io_bind_def io_lift_def manifest_dir_def validate_app_id_def fs_exists_def lookup_snoc io_step_def A)
  have look: "lookup ?fs A = Some (Dir (es @ [(i, Dir n)]))" "lookup ?fs W = Some (Dir (dir_del c ws))"
    using rename_apart [OF ap es(2,1)] i by (simp_all add: dir_put_fresh)
  have "mset (filter (\<lambda>e. fst e \<notin> fst ` set mv) es0)
      = mset (filter (\<lambda>e. fst e \<notin> fst ` set (mv @ [(i, t)])) es0) + mset (filter (\<lambda>e. fst e = i) es0)"
    using mv(3) by (induction es0) auto
  then have "mset (es @ [(i, Dir n)]) = mset (filter (\<lambda>e. fst e \<notin> fst ` set mv) es0)" using es(3) n by simp
  moreover have "map_of (es @ [(i, Dir n)]) = map_of es0 |` (- fst ` set mv)"
    using n0 mv(3) by (auto simp: fun_eq_iff map_add_def es(4) restrict_map_def split: option.splits)
  moreover have "\<forall>(j, t) \<in> set mv. validate_manifest_id j = Inr () \<and>
      (\<exists>d m. t = W @ [d] \<and> map_of (dir_del c ws) d = Some (Dir m) \<and> m \<noteq> [] \<and> map_of es0 j = Some (Dir m))"
  proof clarify
    fix j u assume j: "(j, u) \<in> set mv"
    then obtain d m where d: "validate_manifest_id j = Inr ()" "u = W @ [d]" "map_of ws d = Some (Dir m)" "m \<noteq> []" "map_of es0 j = Some (Dir m)"
      using ws by fastforce
    moreover have "d \<noteq> c" using j mv(4) d(2) c(1) by force
    ultimately show "validate_manifest_id j = Inr () \<and>
      (\<exists>d m. u = W @ [d] \<and> map_of (dir_del c ws) d = Some (Dir m) \<and> m \<noteq> [] \<and> map_of es0 j = Some (Dir m))"
      by (simp add: map_of_dir_del)
  qed
  ultimately have "parked A W es0 mv ?fs" unfolding parked_def using look mv(1,2) by (intro exI conjI)
  with run show ?thesis by simp
qed

lemma restore_sweep_parks:
  assumes p: "parked A W es0 mv (w_fs w)" and A: "A = app_dir store app_id" and W: "W = fo_work_root store" and ap: "apart W A"
    and u: "unambiguous es0 (map fst mv)" and app: "app_id \<noteq> 0" and mv: "gs_moved_manifests sweep = mv"
  shows "\<exists>w'. restore_gc_sweep_locked store app_id sweep w = (Inr (), w') \<and> parked A W es0 [] (w_fs w')"
proof -
  have "\<exists>w'. io_for (rev mv) (restore_manifest store app_id) w = (Inr (), w') \<and> parked A W es0 [] (w_fs w')"
    using p u
  proof (induction mv arbitrary: w rule: rev_induct)
    case (snoc e mv)
    obtain i t where e: "e = (i, t)" by fastforce
    obtain w1 where w1: "restore_manifest store app_id (i, t) w = (Inr (), w1)" "parked A W es0 mv (w_fs w1)"
      using restore_manifest_parks [OF snoc.prems(1) [unfolded e] A W ap _ app] snoc.prems(2) by (auto simp: e unambiguous_def)
    with snoc.IH [OF w1(2)] snoc.prems(2) show ?case by (auto simp: e io_bind_Inr unambiguous_def)
  qed (simp add: io_ret_def)
  then obtain w' where w': "io_for (rev mv) (restore_manifest store app_id) w = (Inr (), w')" "parked A W es0 [] (w_fs w')" by blast
  then have "fs_exists (w_fs w') A" "fs_exists (w_fs w') W" by (auto simp: parked_def fs_exists_def)
  with w' show ?thesis by (auto simp: restore_gc_sweep_locked_def io_bind_Inr mv A W)
qed

lemma sweep_manifests_parks:
  assumes A: "A = app_dir store app_id" and W: "W = fo_work_root store" and ap: "apart W A" and app: "app_id \<noteq> 0"
  shows "parked A W es0 mv (w_fs w) \<Longrightarrow> unambiguous es0 (map fst mv @ is) \<Longrightarrow> distinct (map fst mv @ is) \<Longrightarrow>
    sweep_manifests store app_id is mv w = (x, w') \<Longrightarrow>
    case x of Inl _ \<Rightarrow> parked A W es0 [] (w_fs w')
    | Inr sweep \<Rightarrow> map fst (gs_moved_manifests sweep) = map fst mv @ is \<and> parked A W es0 (gs_moved_manifests sweep) (w_fs w')"
proof (induction "is" arbitrary: mv w)
  case (Cons i "is")
  obtain y w1 where m: "move_manifest_to_trash store app_id i w = (y, w1)" by fastforce
  have y: "case y of Inl _ \<Rightarrow> parked A W es0 mv (w_fs w1) | Inr t \<Rightarrow> (\<exists>trash. t = Some trash \<and> parked A W es0 (mv @ [(i, trash)]) (w_fs w1))"
    using move_manifest_parks [OF Cons.prems(1) A W ap _ _ app m] Cons.prems(2,3) by (auto simp: unambiguous_def)
  show ?case
  proof (cases y)
    case (Inl e)
    then have "parked A W es0 mv (w_fs w1)" using y by simp
    from restore_sweep_parks [OF this A W ap _ app, of "\<lparr>gs_deleted_manifests = length mv, gs_moved_manifests = mv\<rparr>"] Cons.prems(2)
    obtain w2 where "restore_gc_sweep_locked store app_id \<lparr>gs_deleted_manifests = length mv, gs_moved_manifests = mv\<rparr> w1 = (Inr (), w2)"
      "parked A W es0 [] (w_fs w2)" by (auto simp: unambiguous_def)
    then show ?thesis using Cons.prems(4) m Inl by (auto simp: io_bind_def io_ignore_def io_fail_def)
  next
    case (Inr t)
    then obtain trash where t: "t = Some trash" "parked A W es0 (mv @ [(i, trash)]) (w_fs w1)" using y by auto
    from Cons.IH [OF t(2)] Cons.prems(2-4) m Inr t(1) show ?thesis by (cases x) simp_all
  qed
qed (auto simp: io_ret_def)

section \<open>What readers see\<close>

lemma parked_kept: "lookup fs0 A = Some (Dir es0) \<Longrightarrow> parked A W es0 mv fs \<Longrightarrow> kept A (fst ` set mv) fs0 fs"
  unfolding kept_def by (erule parkedE, intro exI conjI)

lemma kept_resolve:
  assumes "kept (app_dir store app_id) R fs fs'" "resolve_app cd store app_id fs = Inr r"
  shows "resolve_app cd store app_id fs' = (let ms = filter (\<lambda>e. fst e \<notin> R) (ra_manifests r) in
     Inr \<lparr>ra_manifests = ms, ra_heads = head_ids_of ms, ra_max_revision = max_revision_of ms\<rparr>)"
  using assms(2) kept_collect [OF assms(1)] unfolding Let_def resolve_app_Inr by auto

lemma kept_contents:
  assumes k: "kept (app_dir store app_id) R fs fs'"
    and r: "resolve_app cd store app_id fs = Inr r" "resolve_app cd store app_id fs' = Inr r'"
    and h: "ra_heads r' = ra_heads r" "\<forall>i \<in> set (ra_heads r). i \<notin> R \<and> map_of (ra_manifests r') i = map_of (ra_manifests r) i"
  shows "contents_of cd store app_id fs' = contents_of cd store app_id fs"
proof
  fix p
  have cur: "current r' = current r" using h by (auto simp: current_def the_manifest_def split: list.splits)
  have "rbind (manifest_blob_path store app_id i x) (\<lambda>b. rbind (open_blob_file b f fs') g)
      = rbind (manifest_blob_path store app_id i x) (\<lambda>b. rbind (open_blob_file b f fs) g)"
    if "current r = Inr (Some (i, m))" for i m x f and g :: "bytes \<Rightarrow> backend_error + (file_entry \<times> bound_download)"
  proof -
    have "i \<notin> R" using that h(2) by (auto simp: current_def split: list.splits)
    then have "open_blob_file (app_dir store app_id @ [i, ''blobs'', x]) f fs' = open_blob_file (app_dir store app_id @ [i, ''blobs'', x]) f fs"
      using kept_lookup [OF k] by (simp add: open_blob_file_def fs_node_def)
    then show ?thesis by (auto simp: manifest_blob_path_def manifest_dir_def rbind_def split: sum.splits)
  qed
  then have "bind_download cd store app_id p fs' = bind_download cd store app_id p fs"
    using r cur by (auto simp: bind_download_def current_manifest_def rbind_def split: sum.splits option.splits)
  then show "contents_of cd store app_id fs' p = contents_of cd store app_id fs p"
    by (simp add: contents_of_def byte_store_read_def)
qed

lemma kept_all:
  assumes "kept (app_dir store app_id) {} fs fs'" "resolve_app cd store app_id fs = Inr r"
  shows "resolve_app cd store app_id fs' = Inr r \<and> contents_of cd store app_id fs' = contents_of cd store app_id fs"
proof -
  have "resolve_app cd store app_id fs' = Inr r" using kept_resolve [OF assms] assms(2) unfolding resolve_app_Inr Let_def by auto
  with kept_contents [OF assms this] show ?thesis by simp
qed

lemma gc_retained_heads:
  assumes wf: "bt_wf ms" and ms': "ms' = filter (\<lambda>e. fst e \<in> set (gc_retained_ids ms)) ms"
  shows "head_ids_of ms' = head_ids_of ms"
    and "i \<in> set (head_ids_of ms) \<Longrightarrow> i \<in> set (gc_retained_ids ms)"
proof -
  have hd: "set (head_ids_of ms) \<subseteq> set (gc_retained_ids ms)"
    by (auto simp: gc_retained_ids_def gc_head_ids_def head_ids_of_def)
  then show "i \<in> set (head_ids_of ms) \<Longrightarrow> i \<in> set (gc_retained_ids ms)" by blast
  have ret: "i \<in> set (head_ids_of ms) \<or> (\<exists>h m. h \<in> set (head_ids_of ms) \<and> map_of ms h = Some m \<and> i \<in> set (sm_parents m))"
    if "i \<in> set (gc_retained_ids ms)" for i
  proof -
    have "\<exists>m. map_of ms h = Some m" if "h \<in> set (gc_head_ids ms)" for h
      using that by (auto simp: gc_head_ids_def intro: weak_map_of_SomeI)
    then show ?thesis using that
      by (fastforce simp: gc_retained_ids_def gc_head_ids_def head_ids_of_def the_manifest_def)
  qed
  have keys: "fst ` set ms' = fst ` set ms \<inter> set (gc_retained_ids ms)" by (auto simp: ms')
  have sub: "set (parent_ids ms') \<subseteq> set (parent_ids ms)" by (auto simp: ms' parent_ids_set)
  have "set (head_ids_of ms') = set (head_ids_of ms)"
  proof
    show "set (head_ids_of ms) \<subseteq> set (head_ids_of ms')" using hd sub keys by (auto simp: head_ids_of_set)
    show "set (head_ids_of ms') \<subseteq> set (head_ids_of ms)"
    proof
      fix i assume i: "i \<in> set (head_ids_of ms')"
      then have "i \<in> set (gc_retained_ids ms)" using keys by (auto simp: head_ids_of_set)
      from ret [OF this] show "i \<in> set (head_ids_of ms)"
      proof (elim disjE exE conjE)
        fix h m assume h: "h \<in> set (head_ids_of ms)" "map_of ms h = Some m" "i \<in> set (sm_parents m)"
        then have "(h, m) \<in> set ms'" using hd map_of_SomeD by (force simp: ms')
        then have "i \<in> set (parent_ids ms')" using h(3) by (auto simp: parent_ids_set)
        then show ?thesis using i by (simp add: head_ids_of_set)
      qed
    qed
  qed
  moreover have "bt_wf ms'" using wf unfolding ms' by (rule bt_wf_filter)
  ultimately show "head_ids_of ms' = head_ids_of ms"
    unfolding head_ids_of_def using bt_wf_distinct [OF wf] bt_wf_distinct [of ms']
    by (intro sorted_distinct_set_unique) (auto simp: head_ids_of_def)
qed

lemma filter_distinct_key:
  "distinct (map fst es) \<Longrightarrow> (i, n) \<in> set es \<Longrightarrow> filter (\<lambda>e. fst e = i) es = [(i, n)]"
proof (induction es)
  case (Cons e es)
  have "filter (\<lambda>e. fst e = i) es = []" if "i \<notin> fst ` set es" using that by (induction es) auto
  with Cons show ?case by force
qed simp

lemma collect_unambiguous:
  assumes c: "collect_manifest_objects cd A account app_id fs = Inr ms" and es: "lookup fs A = Some (Dir es)"
    and sub: "set is \<subseteq> fst ` set ms"
  shows "unambiguous es is"
  unfolding unambiguous_def
proof
  fix i assume "i \<in> set is"
  have r: "readable cd A account app_id fs es" "map_of ms = manifest_of cd A account app_id fs es"
    using c es by (auto simp: collect_manifest_objects_def fs_exists_def fs_read_dir_def collect_iff)
  have "map_of ms i \<noteq> None" using sub \<open>i \<in> set is\<close> by (auto simp: map_of_eq_None_iff)
  then have "i \<in> fst ` set (manifest_entries es)" by (auto simp: r(2) manifest_of_def map_of_eq_None_iff image_image)
  then obtain n where n: "(i, n) \<in> set (manifest_entries es)" by auto
  then have ne: "\<not> is_non_manifest_app_entry i" by (simp add: manifest_entries_def)
  have "filter (\<lambda>e. fst e = i) es = filter (\<lambda>e. fst e = i) (manifest_entries es)"
    using ne unfolding manifest_entries_def filter_filter by (intro filter_cong) auto
  also have "\<dots> = [(i, n)]"
    using r(1) n by (intro filter_distinct_key) (simp_all add: readable_def)
  finally have f: "filter (\<lambda>e. fst e = i) es = [(i, n)]" .
  then have m: "map_of es i = Some n" by (induction es) (auto split: if_splits)
  have "is_ok (entry_manifest cd A account app_id fs (i, n))" using r(1) n by (simp add: readable_def)
  then have v: "validate_manifest_id i = Inr ()" "is_dir n" "validate_manifest_directory (A @ [i]) fs = Inr ()"
    by (auto simp: is_ok_iff entry_manifest_def Let_def rbind_eq_Inr split: if_splits)
  moreover have "n \<noteq> Dir []" using v(3) es m by (auto simp: validate_manifest_directory_def fs_read_dir_def lookup_snoc)
  ultimately show "validate_manifest_id i = Inr () \<and> (\<exists>n. n \<noteq> [] \<and> filter (\<lambda>e. fst e = i) es = [(i, Dir n)])"
    using f by (cases n) auto
qed

lemma inspect_gc_Inr:
  assumes "inspect_gc cd store app_id fs = Inr report" "resolve_app cd store app_id fs = Inr r"
  shows "app_id \<noteq> 0 \<and> gr_app_id report = app_id \<and> gr_retained_manifests report = gc_retained_ids (ra_manifests r)
    \<and> gr_candidate_manifests report = filter (\<lambda>i. i \<notin> set (gc_retained_ids (ra_manifests r))) (map fst (ra_manifests r))"
  using assms by (auto simp: inspect_gc_def resolve_app_def rbind_eq_Inr Let_def validate_app_id_def)

lemma prepare_gc_sweep_Inr:
  assumes "prepare_gc_sweep store report fs = Inr (Some plan)"
  shows "gp_app_id plan = gr_app_id report \<and> gp_root plan = app_dir store (gr_app_id report)
    \<and> set (gp_candidate_manifests plan) = set (gr_candidate_manifests report) \<and> distinct (gp_candidate_manifests plan)"
  using assms
  by (auto simp: prepare_gc_sweep_def rbind_eq_Inr unique_items_def Let_def split: if_splits)

lemma parked_readers:
  assumes es: "lookup fs (app_dir store app_id) = Some (Dir es)" and res: "resolve_app cd store app_id fs = Inr r"
    and wf: "bt_wf (ra_manifests r)" and p: "parked (app_dir store app_id) W es mv fs'"
    and R: "fst ` set mv = fst ` set (ra_manifests r) - set (gc_retained_ids (ra_manifests r))"
  shows "(let ms = filter (\<lambda>e. fst e \<in> set (gc_retained_ids (ra_manifests r))) (ra_manifests r) in
         resolve_app cd store app_id fs' = Inr \<lparr>ra_manifests = ms, ra_heads = ra_heads r, ra_max_revision = max_revision_of ms\<rparr>)
     \<and> contents_of cd store app_id fs' = contents_of cd store app_id fs"
proof -
  let ?R = "fst ` set mv" and ?keep = "set (gc_retained_ids (ra_manifests r))"
  let ?ms = "filter (\<lambda>e. fst e \<in> ?keep) (ra_manifests r)"
  let ?r = "\<lparr>ra_manifests = ?ms, ra_heads = ra_heads r, ra_max_revision = max_revision_of ?ms\<rparr>"
  have heads: "ra_heads r = head_ids_of (ra_manifests r)" using res unfolding resolve_app_Inr by auto
  have fl: "filter (\<lambda>e. fst e \<notin> ?R) (ra_manifests r) = ?ms" unfolding R by (intro filter_cong) auto
  have k: "kept (app_dir store app_id) ?R fs fs'" by (rule parked_kept [OF es p])
  have r1: "resolve_app cd store app_id fs' = Inr ?r"
    using kept_resolve [OF k res] gc_retained_heads(1) [OF wf refl] by (simp add: fl heads Let_def)
  have "\<forall>i \<in> set (ra_heads r). i \<notin> ?R \<and> map_of (ra_manifests ?r) i = map_of (ra_manifests r) i"
    using gc_retained_heads(2) [OF wf refl] unfolding R heads
    by (auto simp: map_of_filter_notin [of "- ?keep", simplified])
  then have "contents_of cd store app_id fs' = contents_of cd store app_id fs"
    by (intro kept_contents [OF k res r1]) simp_all
  with r1 show ?thesis by (simp add: Let_def)
qed

lemma apply_gc_sweep_cases:
  assumes "apply_gc_sweep store plan w = (x, w')" "gp_app_id plan = app_id" "gp_root plan = app_dir store app_id"
    "sweep_manifests store app_id (gp_candidate_manifests plan) [] w = (y, w1)"
  shows "x = Inr None \<and> w' = w \<or> (\<exists>e. x = Inl e \<and> w' = w) \<or> x = map_sum id Some y \<and> w' = w1"
  using assms by (cases "collect_manifest_paths (app_dir store app_id) (w_fs w)"; cases y)
    (auto simp: apply_gc_sweep_def io_bind_def io_read_def io_ret_def split: if_splits)

text \<open>The outcome of a sweep, with what its reports rest on: the removed manifests wait in the work directory.\<close>

lemma gc_sweep_outcome:
  assumes ap: "apart (fo_work_root store) (app_dir store app_id)"
    and dirs: "fs_is_dir (w_fs w) (fo_work_root store)" "fs_is_dir (w_fs w) (app_dir store app_id)"
    and res: "resolve_app cd store app_id (w_fs w) = Inr r"
    and insp: "inspect_gc cd store app_id (w_fs w) = Inr report" and prep: "prepare_gc_sweep store report (w_fs w) = Inr (Some plan)"
    and run: "apply_gc_sweep store plan w = (x, w')"
  shows "case x of
      Inl _ \<Rightarrow> resolve_app cd store app_id (w_fs w') = Inr r \<and> contents_of cd store app_id (w_fs w') = contents_of cd store app_id (w_fs w)
    | Inr None \<Rightarrow> w' = w
    | Inr (Some sweep) \<Rightarrow> (\<forall>(i, t) \<in> set (gs_moved_manifests sweep). \<exists>c. t = fo_work_root store @ [c]) \<and>
        (let ms = filter (\<lambda>e. fst e \<in> set (gr_retained_manifests report)) (ra_manifests r) in
         resolve_app cd store app_id (w_fs w')
           = Inr \<lparr>ra_manifests = ms, ra_heads = ra_heads r, ra_max_revision = max_revision_of ms\<rparr>)
        \<and> contents_of cd store app_id (w_fs w') = contents_of cd store app_id (w_fs w)
        \<and> (\<exists>w2. restore_gc_sweep store app_id sweep w' = (Inr (), w2) \<and> resolve_app cd store app_id (w_fs w2) = Inr r
              \<and> contents_of cd store app_id (w_fs w2) = contents_of cd store app_id (w_fs w))"
proof -
  let ?A = "app_dir store app_id" and ?W = "fo_work_root store" and ?c = "gp_candidate_manifests plan"
  let ?ms = "ra_manifests r" and ?keep = "gc_retained_ids (ra_manifests r)"
  have i: "app_id \<noteq> 0" "gr_retained_manifests report = ?keep"
    and pl: "gp_app_id plan = app_id" "gp_root plan = ?A" "set ?c = fst ` set ?ms - set ?keep" "distinct ?c"
    using inspect_gc_Inr [OF insp res] prepare_gc_sweep_Inr [OF prep] by auto
  obtain es ws where es: "lookup (w_fs w) ?A = Some (Dir es)" "lookup (w_fs w) ?W = Some (Dir ws)" using dirs by (auto simp: fs_is_dir_iff)
  obtain account where c: "collect_manifest_objects cd ?A account app_id (w_fs w) = Inr ?ms" using res unfolding resolve_app_Inr by auto
  have wf: "bt_wf ?ms" using c es(1) by (auto simp: collect_manifest_objects_def fs_exists_def fs_read_dir_def collect_iff)
  have u: "unambiguous es ?c" by (rule collect_unambiguous [OF c es(1)]) (simp add: pl(3) Diff_subset)
  have p0: "parked ?A ?W es [] (w_fs w)" using es by (simp add: parked_def restrict_map_def)
  have undone: "resolve_app cd store app_id fs = Inr r \<and> contents_of cd store app_id fs = contents_of cd store app_id (w_fs w)"
    if "parked ?A ?W es [] fs" for fs using kept_all [OF _ res] parked_kept [OF es(1) that] by simp
  obtain y w1 where sweep: "sweep_manifests store app_id ?c [] w = (y, w1)" by fastforce
  have sw: "case y of Inl _ \<Rightarrow> parked ?A ?W es [] (w_fs w1) | Inr sweep \<Rightarrow>
      map fst (gs_moved_manifests sweep) = ?c \<and> parked ?A ?W es (gs_moved_manifests sweep) (w_fs w1)"
    using sweep_manifests_parks [OF refl refl ap i(1) p0 _ _ sweep] u pl(4) by (cases y) simp_all
  from apply_gc_sweep_cases [OF run pl(1,2) sweep] show ?thesis
  proof (elim disjE exE conjE)
    assume x: "x = map_sum id Some y" "w' = w1"
    show ?thesis
    proof (cases y)
      case (Inr sweep)
      then have p: "parked ?A ?W es (gs_moved_manifests sweep) (w_fs w1)" and mv: "map fst (gs_moved_manifests sweep) = ?c" using sw by auto
      have trash: "\<forall>(i, t) \<in> set (gs_moved_manifests sweep). \<exists>c. t = ?W @ [c]" using p unfolding parked_def by fast
      have "fst ` set (gs_moved_manifests sweep) = fst ` set ?ms - set ?keep" using pl(3) mv by (simp flip: set_map)
      from parked_readers [OF es(1) res wf p this] restore_sweep_parks [OF p refl refl ap u [folded mv] i(1) refl]
      show ?thesis using undone i x Inr trash
        by (auto simp: restore_gc_sweep_def io_bind_Inr lock_app_def validate_app_id_def Let_def)
    qed (use sw undone x in simp)
  qed (use res in simp_all)
qed

end
