(* ===== verification/Local_Coordination.thy ===== *)
theory Local_Coordination
  imports Local_Commit
begin

text \<open>
  Opening a repository (\<open>crates/cloud-local/src/store.rs\<close>) and the life of its coordination.  All handles
  of one repository in a process share a coordination, which owns the private work directory
  beside the repository.  A process-wide table maps a root to a weak reference to its coordination:
  \<open>w_coordinators\<close>.  The handles that are alive are the occurrences of the coordination, a pair of a root and
  an identity, in \<open>w_strong\<close>.  When the last handle goes away the destructor runs, but only after it has
  taken the lock of the table, so that another thread can open a repository in between; the step
  relation below has the release of a handle and the destructor as separate steps.  The reference that
  an upload operation holds on its coordination is not counted.
\<close>

section \<open>Definitions\<close>

definition initialize :: "codec \<Rightarrow> folder_store \<Rightarrow> unit io" where
  "initialize cd store =
     (let format_path = fo_root store @ [FORMAT_FILE] in (\<lambda>w.
      if fs_exists (w_fs w) format_path
      then io_bind (io_read (read_bounded_file format_path MAX_FORMAT_BYTES ''repository format'')) (\<lambda>bs.
           io_bind (io_lift (map_err json_error (cd_format_from_slice cd bs))) (\<lambda>version.
           io_lift (ensure (version = FORMAT_VERSION)
             (permanent ''unsupported local cloud repository format'')))) w
      else io_bind (io_lift (map_err json_error (cd_format_to_vec_pretty cd FORMAT_VERSION))) (\<lambda>bs.
           atomic_publish format_path bs) w))"

definition path_text :: "path \<Rightarrow> string" where
  "path_text p = (if p = [] then ''/'' else concat (map (\<lambda>c. ''/'' @ c) p))"

definition work_root_of :: "codec \<Rightarrow> path \<Rightarrow> path" where
  "work_root_of cd root =
     butlast root @ [''.vapor-local-'' @ take 16 (hex_digest (cd_sha256 cd) (as_bytes (path_text root))) @ ''.work'']"

text \<open>\<open>Weak::upgrade\<close>: the coordination that the table has for a root, when a handle of it is alive.\<close>

definition upgrade :: "path \<Rightarrow> world \<Rightarrow> nat option" where
  "upgrade root w = opt_filter (\<lambda>i. (root, i) \<in> set (w_strong w)) (map_of (w_coordinators w) root)"

definition retain_live :: "world \<Rightarrow> world" where
  "retain_live w = w\<lparr>w_coordinators := filter (\<lambda>c. c \<in> set (w_strong w)) (w_coordinators w)\<rparr>"

definition new_coordination :: "path \<Rightarrow> nat io" where
  "new_coordination root w =
     (Inr (w_fresh w),
      w\<lparr>w_coordinators := (root, w_fresh w) # filter (\<lambda>(r, _). r \<noteq> root) (w_coordinators w),
        w_strong := (root, w_fresh w) # w_strong w, w_fresh := Suc (w_fresh w)\<rparr>)"

definition repository_coordination :: "codec \<Rightarrow> path \<Rightarrow> nat io" where
  "repository_coordination cd root = (\<lambda>w.
     case upgrade root w of
       Some i \<Rightarrow> (Inr i, w\<lparr>w_strong := (root, i) # w_strong w\<rparr>)
     | None \<Rightarrow>
         (if root = [] then io_fail (permanent ''local cloud repository has no parent directory'')
          else io_bind (create_durable_dir_all (work_root_of cd root)) (\<lambda>_.
               io_bind (clear_work_root (work_root_of cd root)) (\<lambda>_. new_coordination root))) (retain_live w))"

text \<open>\<open>Drop for RepositoryCoordination\<close>.\<close>

definition drop_coordination :: "codec \<Rightarrow> path \<times> nat \<Rightarrow> world \<Rightarrow> world" where
  "drop_coordination cd = (\<lambda>(root, i) w.
     if is_some_and (map_of (w_coordinators w) root) (\<lambda>j. j \<noteq> i) then w
     else snd (io_bind (io_ignore (io_step (fs_remove_dir_all (work_root_of cd root)))) (\<lambda>_.
               io_ignore (sync_directory (butlast (work_root_of cd root))))
               (w\<lparr>w_coordinators := filter (\<lambda>(r, _). r \<noteq> root) (w_coordinators w)\<rparr>)))"

definition release :: "path \<times> nat \<Rightarrow> world \<Rightarrow> world" where
  "release c w = w\<lparr>w_strong := remove1 c (w_strong w)\<rparr>"

definition release_and_drop :: "codec \<Rightarrow> path \<times> nat \<Rightarrow> world \<Rightarrow> world" where
  "release_and_drop cd c w =
     (if c \<in> set (w_strong (release c w)) then release c w else drop_coordination cd c (release c w))"

definition open_inner :: "codec \<Rightarrow> path \<Rightarrow> string option \<Rightarrow> folder_store io" where
  "open_inner cd root account =
     io_bind (create_durable_dir_all root) (\<lambda>_.
     io_bind (repository_coordination cd root) (\<lambda>coordination w.
     let store = \<lparr>fo_root = root, fo_account = account, fo_work_root = work_root_of cd root,
                  fo_coordination = coordination\<rparr> in
     case initialize cd store w of
       (Inr _, w') \<Rightarrow> (Inr store, w')
     | (Inl e, w') \<Rightarrow> (Inl e, release_and_drop cd (root, coordination) w')))"

definition open_store :: "codec \<Rightarrow> path \<Rightarrow> folder_store io" where
  "open_store cd root = open_inner cd root None"

definition open_account :: "codec \<Rightarrow> path \<Rightarrow> u64 \<Rightarrow> folder_store io" where
  "open_account cd root steam_id64 =
     (if steam_id64 = 0 then io_fail (permanent ''local cloud account is unavailable'')
      else open_inner cd root (Some (nat_to_string (unat steam_id64))))"

text \<open>
  The handles of a process at work.  A state is the world with the coordinations whose destructor is
  due.  Besides opening, cloning, releasing and destroying, a step may change what is below the
  work directory of a live coordination, as upload operations and the collector do.
\<close>

inductive coordination_step :: "codec \<Rightarrow> path set \<Rightarrow> world \<times> (path \<times> nat) list \<Rightarrow> world \<times> (path \<times> nat) list \<Rightarrow> bool"
  for cd :: codec and roots :: "path set" where
  open_root: "root \<in> roots \<Longrightarrow> repository_coordination cd root w = (r, w') \<Longrightarrow> coordination_step cd roots (w, due) (w', due)"
| cloning: "c \<in> set (w_strong w) \<Longrightarrow> coordination_step cd roots (w, due) (w\<lparr>w_strong := c # w_strong w\<rparr>, due)"
| releasing: "c \<in> set (w_strong w) \<Longrightarrow>
    coordination_step cd roots (w, due) (release c w, if c \<in> set (w_strong (release c w)) then due else c # due)"
| destroying: "c \<in> set due \<Longrightarrow> coordination_step cd roots (w, due) (drop_coordination cd c w, remove1 c due)"
| working: "(root, i) \<in> set (w_strong w) \<Longrightarrow>
    coordination_step cd roots (w, due) (w\<lparr>w_fs := modify (work_root_of cd root @ q) f (w_fs w)\<rparr>, due)"

inductive coordination_reachable :: "codec \<Rightarrow> path set \<Rightarrow> world \<times> (path \<times> nat) list \<Rightarrow> bool"
  for cd :: codec and roots :: "path set" where
  start: "w_coordinators w = [] \<Longrightarrow> w_strong w = [] \<Longrightarrow> coordination_reachable cd roots (w, [])"
| step: "coordination_reachable cd roots s \<Longrightarrow> coordination_step cd roots s t \<Longrightarrow> coordination_reachable cd roots t"

text \<open>Different roots have work directories that do not lie inside each other.\<close>

definition separate_roots :: "codec \<Rightarrow> path set \<Rightarrow> bool" where
  "separate_roots cd roots \<longleftrightarrow>
     (\<forall>r \<in> roots. \<forall>s \<in> roots. r \<noteq> s \<longrightarrow> apart (work_root_of cd r) (work_root_of cd s))"

definition coordination_inv :: "codec \<Rightarrow> path set \<Rightarrow> world \<times> (path \<times> nat) list \<Rightarrow> bool" where
  "coordination_inv cd roots = (\<lambda>(w, due).
     (\<forall>(r, i) \<in> set (w_strong w). r \<in> roots \<and> map_of (w_coordinators w) r = Some i
        \<and> fs_is_dir (w_fs w) (work_root_of cd r))
     \<and> (\<forall>(r, i) \<in> set due. (r, i) \<notin> set (w_strong w) \<and> i < w_fresh w \<and> r \<in> roots)
     \<and> (\<forall>(r, i) \<in> set (w_coordinators w) \<union> set (w_strong w). i < w_fresh w))"

section \<open>Directories survive\<close>

lemma modify_dir: "\<exists>es'. modify s f (Dir es) = Dir es'"
  by (cases s) auto

lemma lookup_below_dir:
  assumes "lookup fs (p @ d # r) = Some n" shows "\<exists>es. lookup fs p = Some (Dir es)"
proof (cases "lookup fs p")
  case (Some m)
  then show ?thesis using assms by (cases m) (auto simp: lookup_append)
qed (use assms in \<open>simp add: lookup_append\<close>)

lemma fs_is_dir_modify:
  assumes "fs_is_dir fs q"
    and "\<And>es d r. lookup fs p = Some (Dir es) \<Longrightarrow> q = p @ d # r \<Longrightarrow> map_of (f es) d = map_of es d"
  shows "fs_is_dir (modify p f fs) q"
proof -
  consider "apart p q" | s where "p = q @ s" | d r where "q = p @ d # r"
    unfolding apart_def by (metis append.right_neutral neq_Nil_conv prefixE)
  then show ?thesis
  proof cases
    case 1
    then show ?thesis using assms(1) by (simp add: fs_is_dir_def lookup_modify_apart)
  next
    case 2
    obtain es where "lookup fs q = Some (Dir es)" using assms(1) by (auto simp: fs_is_dir_iff)
    then show ?thesis using modify_dir [of s f es] unfolding 2 fs_is_dir_iff lookup_modify_above by simp
  next
    case 3
    obtain n where n: "lookup fs (p @ d # r) = Some (Dir n)" using assms(1) 3 by (auto simp: fs_is_dir_iff)
    obtain es where es: "lookup fs p = Some (Dir es)" using lookup_below_dir [OF n] by blast
    have "map_of (f es) d = map_of es d" by (rule assms(2) [OF es 3])
    then show ?thesis using n lookup_modify_below [OF es, of f d r] es by (simp add: 3 fs_is_dir_iff lookup_append)
  qed
qed

text \<open>A step of the world that loses no directory but those strictly below \<open>p\<close>.\<close>

definition keeps_dirs :: "path \<Rightarrow> world \<Rightarrow> world \<Rightarrow> bool" where
  "keeps_dirs p w w' \<longleftrightarrow> (\<exists>fs. w' = w\<lparr>w_fs := fs\<rparr>
     \<and> (\<forall>q. fs_is_dir (w_fs w) q \<longrightarrow> \<not> strict_prefix p q \<longrightarrow> fs_is_dir fs q))"

lemma keeps_dirs_refl [simp]: "keeps_dirs p w w"
  unfolding keeps_dirs_def by (rule exI [of _ "w_fs w"]) simp

lemma keeps_dirs_trans: "keeps_dirs p w w1 \<Longrightarrow> keeps_dirs p w1 w2 \<Longrightarrow> keeps_dirs p w w2"
  unfolding keeps_dirs_def by auto

lemma keeps_dirs_update:
  "(\<And>q. fs_is_dir (w_fs w) q \<Longrightarrow> \<not> strict_prefix p q \<Longrightarrow> fs_is_dir fs q) \<Longrightarrow> keeps_dirs p w (w\<lparr>w_fs := fs\<rparr>)"
  unfolding keeps_dirs_def by blast

lemma keeps_dirs_bind:
  assumes "io_bind m f w = (r, w')" "\<And>r1 w1. m w = (r1, w1) \<Longrightarrow> keeps_dirs p w w1"
    and "\<And>x w1. f x w1 = (r, w') \<Longrightarrow> keeps_dirs p w1 w'"
  shows "keeps_dirs p w w'"
proof (cases "m w")
  case (Pair r1 w1)
  then have "keeps_dirs p w w1" by (rule assms(2))
  moreover have "keeps_dirs p w1 w'"
    using assms(1,3) Pair by (cases r1) (auto simp: io_bind_def)
  ultimately show ?thesis by (rule keeps_dirs_trans)
qed

lemma keeps_dirs_for:
  assumes "io_for xs body w = (r, w')" "\<And>x r1 w1 w2. body x w1 = (r1, w2) \<Longrightarrow> keeps_dirs p w1 w2"
  shows "keeps_dirs p w w'"
  using assms(1)
proof (induction xs arbitrary: w)
  case (Cons x xs)
  from Cons.prems [unfolded io_for.simps] show ?case by (rule keeps_dirs_bind) (erule assms(2), erule Cons.IH)
qed (simp add: io_ret_def)

lemma keeps_dirs_sync: "sync_directory q w = (r, w') \<Longrightarrow> keeps_dirs p w w'"
  by (simp add: sync_directory_def io_read_def)

lemma keeps_dirs_sync_if: "(if b then io_ret () else sync_directory q) w = (r, w') \<Longrightarrow> keeps_dirs p w w'"
  by (cases b) (simp_all add: sync_directory_def io_read_def io_ret_def)

lemma fs_create_keeps_dirs:
  assumes "fs_create c x fs = Inr fs'" "fs_is_dir fs q" shows "fs_is_dir fs' q"
proof (cases c rule: rev_cases)
  case Nil
  then show ?thesis using assms(1) by (simp add: fs_create_def fs_exists_def)
next
  case (snoc p n)
  obtain es where es: "lookup fs p = Some (Dir es)" "map_of es n = None" "fs' = modify p (dir_put n x) fs"
    by (rule fs_create_Inr [OF assms(1) [unfolded snoc]])
  have "d \<noteq> n" if "q = p @ d # r" for d r
    using that assms(2) es(1,2) by (auto simp: fs_is_dir_iff lookup_append)
  then show ?thesis
    unfolding es(3) by (intro fs_is_dir_modify [OF assms(2)]) (auto simp: map_of_dir_put)
qed

lemma fs_delete_keeps_dirs:
  assumes "fs_is_dir fs q" "\<not> prefix (p @ [c]) q" shows "fs_is_dir (modify p (dir_del c) fs) q"
  by (rule fs_is_dir_modify [OF assms(1)]) (use assms(2) in \<open>auto simp: map_of_dir_del\<close>)

lemma create_durable_dir_keeps: "create_durable_dir c w = (r, w') \<Longrightarrow> keeps_dirs p w w'"
  unfolding create_durable_dir_def
proof (erule keeps_dirs_bind)
  fix r1 w1
  assume "(case fs_create c (Dir []) (w_fs w) of Inr fs \<Rightarrow> (Inr (), w\<lparr>w_fs := fs\<rparr>)
     | Inl AlreadyExists \<Rightarrow> (if fs_is_dir (w_fs w) c then Inr () else Inl (io_error AlreadyExists), w)
     | Inl k \<Rightarrow> (Inl (io_error k), w)) = (r1, w1)"
  then show "keeps_dirs p w w1"
    by (cases "fs_create c (Dir []) (w_fs w)")
       (auto split: io_kind.splits intro!: keeps_dirs_update elim: fs_create_keeps_dirs)
qed (rule keeps_dirs_sync_if)

lemma create_durable_dir_all_keeps:
  assumes "create_durable_dir_all q w = (r, w')" shows "keeps_dirs p w w'"
proof -
  obtain ms c where mc: "missing_dirs (w_fs w) (rev q) = (ms, c)" by fastforce
  show ?thesis
  proof (cases "fs_is_dir (w_fs w) c")
    case True
    then have "io_for ms create_durable_dir w = (r, w')" using assms mc by (simp add: create_durable_dir_all_def)
    then show ?thesis by (rule keeps_dirs_for) (rule create_durable_dir_keeps)
  next
    case False
    then show ?thesis using assms mc by (simp add: create_durable_dir_all_def)
  qed
qed

lemma remove_keeps:
  "fs_is_dir fs q \<Longrightarrow> \<not> strict_prefix p q \<Longrightarrow> fs_remove_file (p @ [c]) fs = Inr fs' \<Longrightarrow> fs_is_dir fs' q"
  "fs_is_dir fs q \<Longrightarrow> \<not> strict_prefix p q \<Longrightarrow> fs_remove_dir_all (p @ [c]) fs = Inr fs' \<Longrightarrow> fs_is_dir fs' q"
  by (auto simp: fs_remove_file_def fs_remove_dir_all_def strict_prefix_def append_prefixD
      split: option.splits node.splits intro!: fs_delete_keeps_dirs)

lemma remove_if_exists_keeps:
  assumes "remove_if_exists (p @ [c]) w = (r, w')" shows "keeps_dirs p w w'"
proof (cases "fs_remove_file (p @ [c]) (w_fs w)")
  case (Inl k)
  then show ?thesis using assms by (cases k) (simp_all add: remove_if_exists_def)
next
  case (Inr fs)
  then have "sync_directory p (w\<lparr>w_fs := fs\<rparr>) = (r, w')" using assms by (simp add: remove_if_exists_def)
  from keeps_dirs_sync [OF this] show ?thesis
    by (rule keeps_dirs_trans [rotated]) (intro keeps_dirs_update remove_keeps(1) [OF _ _ Inr])
qed

lemma remove_dir_all_if_exists_keeps:
  assumes "remove_dir_all_if_exists (p @ [c]) w = (r, w')" shows "keeps_dirs p w w'"
proof (cases "fs_remove_dir_all (p @ [c]) (w_fs w)")
  case (Inl k)
  then show ?thesis using assms by (cases k) (simp_all add: remove_dir_all_if_exists_def)
next
  case (Inr fs)
  then have "w' = w\<lparr>w_fs := fs\<rparr>" using assms by (simp add: remove_dir_all_if_exists_def)
  then show ?thesis by (simp add: keeps_dirs_update remove_keeps(2) [OF _ _ Inr])
qed

lemma clear_entry_keeps:
  "(case e of (name, n) \<Rightarrow> if is_dir n then remove_dir_all_if_exists (p @ [name]) else remove_if_exists (p @ [name])) w = (r, w')
     \<Longrightarrow> keeps_dirs p w w'"
  by (cases e; cases "is_dir (snd e)") (auto elim: remove_if_exists_keeps remove_dir_all_if_exists_keeps)

lemma clear_work_root_keeps:
  assumes "clear_work_root p w = (r, w')" shows "keeps_dirs p w w'"
  using assms unfolding clear_work_root_def
proof (rule keeps_dirs_bind)
  fix r1 w1 assume "io_read (\<lambda>fs. map_err io_error (fs_read_dir fs p)) w = (r1, w1)"
  then show "keeps_dirs p w w1" by (simp add: io_read_def)
next
  fix es w1
  assume "io_bind (io_for es (\<lambda>(name, n). if is_dir n then remove_dir_all_if_exists (p @ [name])
            else remove_if_exists (p @ [name]))) (\<lambda>_. sync_directory p) w1 = (r, w')"
  then show "keeps_dirs p w1 w'"
  proof (rule keeps_dirs_bind)
    fix r1 w2
    assume "io_for es (\<lambda>(name, n). if is_dir n then remove_dir_all_if_exists (p @ [name])
              else remove_if_exists (p @ [name])) w1 = (r1, w2)"
    then show "keeps_dirs p w1 w2" by (rule keeps_dirs_for) (rule clear_entry_keeps)
  qed (rule keeps_dirs_sync)
qed

section \<open>The invariant of coordinations\<close>

lemma coordination_invI:
  assumes "\<And>r i. (r, i) \<in> set (w_strong w) \<Longrightarrow>
      r \<in> roots \<and> map_of (w_coordinators w) r = Some i \<and> fs_is_dir (w_fs w) (work_root_of cd r)"
    and "\<And>r i. (r, i) \<in> set due \<Longrightarrow> (r, i) \<notin> set (w_strong w) \<and> i < w_fresh w \<and> r \<in> roots"
    and "\<And>r i. (r, i) \<in> set (w_coordinators w) \<or> (r, i) \<in> set (w_strong w) \<Longrightarrow> i < w_fresh w"
  shows "coordination_inv cd roots (w, due)"
  unfolding coordination_inv_def using assms by (simp add: Ball_def, blast)

lemma coordination_invD:
  assumes "coordination_inv cd roots (w, due)"
  shows "(r, i) \<in> set (w_strong w) \<Longrightarrow>
      r \<in> roots \<and> map_of (w_coordinators w) r = Some i \<and> fs_is_dir (w_fs w) (work_root_of cd r)"
    and "(r, i) \<in> set due \<Longrightarrow> (r, i) \<notin> set (w_strong w) \<and> i < w_fresh w \<and> r \<in> roots"
    and "(r, i) \<in> set (w_coordinators w) \<or> (r, i) \<in> set (w_strong w) \<Longrightarrow> i < w_fresh w"
  using assms unfolding coordination_inv_def by auto

lemma map_of_filter_kept: "map_of xs k = Some v \<Longrightarrow> P (k, v) \<Longrightarrow> map_of (filter P xs) k = Some v"
  by (induction xs) (auto split: if_splits)

lemma map_of_filter_other: "k \<noteq> c \<Longrightarrow> map_of (filter (\<lambda>(r, _). r \<noteq> c) xs) k = map_of xs k"
  by (induction xs) auto

text \<open>Preparing the work directory of a root keeps the ones of the other roots.\<close>

lemma prepared_keeps:
  assumes "io_bind (create_durable_dir_all p) (\<lambda>_. clear_work_root p) w = (r, w')"
  shows "keeps_dirs p w w' \<and> (r = Inr () \<longrightarrow> fs_is_dir (w_fs w') p)"
proof -
  have k: "keeps_dirs p w w'"
    using assms by (rule keeps_dirs_bind) (erule create_durable_dir_all_keeps, erule clear_work_root_keeps)
  have "fs_is_dir (w_fs w') p" if ok: "r = Inr ()"
  proof -
    obtain w1 where w1: "create_durable_dir_all p w = (Inr (), w1)" "clear_work_root p w1 = (Inr (), w')"
      using assms [unfolded ok io_bind_Inr] by auto
    have "fs_is_dir (w_fs w1) p" using app_dir_created [OF w1(1)] by (auto simp: fs_is_dir_iff)
    then show ?thesis using clear_work_root_keeps [OF w1(2)] by (auto simp: keeps_dirs_def)
  qed
  with k show ?thesis by blast
qed

lemma io_bind_assoc: "io_bind m (\<lambda>x. io_bind (f x) g) = io_bind (io_bind m f) g"
  by (auto simp: fun_eq_iff io_bind_def split: prod.splits sum.splits)

lemma coordination_prepared:
  assumes inv: "coordination_inv cd roots (w, due)" and sep: "separate_roots cd roots"
    and root: "root \<in> roots" "upgrade root w = None"
    and k: "keeps_dirs (work_root_of cd root) (retain_live w) w1"
  shows "coordination_inv cd roots (w1, due) \<and> (\<forall>i. (root, i) \<notin> set (w_strong w1))"
proof -
  obtain fs where w1: "w1 = (retain_live w)\<lparr>w_fs := fs\<rparr>"
    "\<And>q. fs_is_dir (w_fs w) q \<Longrightarrow> \<not> strict_prefix (work_root_of cd root) q \<Longrightarrow> fs_is_dir fs q"
    using k unfolding keeps_dirs_def retain_live_def by auto
  have other: "r \<noteq> root" if "(r, i) \<in> set (w_strong w)" for r i
    using coordination_invD(1) [OF inv that] root(2) that by (auto simp: upgrade_def opt_filter_def)
  have "coordination_inv cd roots (w1, due)"
  proof (rule coordination_invI)
    fix r i assume "(r, i) \<in> set (w_strong w1)"
    then have ri: "(r, i) \<in> set (w_strong w)" by (simp add: w1(1) retain_live_def)
    have "apart (work_root_of cd root) (work_root_of cd r)"
      using sep root(1) coordination_invD(1) [OF inv ri] other [OF ri] by (auto simp: separate_roots_def)
    then have "\<not> strict_prefix (work_root_of cd root) (work_root_of cd r)" by (auto simp: apart_def strict_prefix_def)
    then show "r \<in> roots \<and> map_of (w_coordinators w1) r = Some i \<and> fs_is_dir (w_fs w1) (work_root_of cd r)"
      using coordination_invD(1) [OF inv ri] w1(2) ri by (simp add: w1(1) retain_live_def map_of_filter_kept)
  next
    fix r i assume "(r, i) \<in> set due"
    then show "(r, i) \<notin> set (w_strong w1) \<and> i < w_fresh w1 \<and> r \<in> roots"
      using coordination_invD(2) [OF inv] by (simp add: w1(1) retain_live_def)
  next
    fix r i assume "(r, i) \<in> set (w_coordinators w1) \<or> (r, i) \<in> set (w_strong w1)"
    then show "i < w_fresh w1" using coordination_invD(3) [OF inv] by (auto simp: w1(1) retain_live_def)
  qed
  moreover have "(root, i) \<notin> set (w_strong w1)" for i
    using other [of root i] by (auto simp: w1(1) retain_live_def)
  ultimately show ?thesis by blast
qed

lemma coordination_created:
  assumes inv: "coordination_inv cd roots (w, due)" and root: "root \<in> roots" "\<And>i. (root, i) \<notin> set (w_strong w)"
    and dir: "fs_is_dir (w_fs w) (work_root_of cd root)" and new: "new_coordination root w = (r, w')"
  shows "coordination_inv cd roots (w', due)"
proof -
  have w': "w' = w\<lparr>w_coordinators := (root, w_fresh w) # filter (\<lambda>(r, _). r \<noteq> root) (w_coordinators w),
        w_strong := (root, w_fresh w) # w_strong w, w_fresh := Suc (w_fresh w)\<rparr>"
    using new by (simp add: new_coordination_def)
  have fresh: "(r, w_fresh w) \<notin> set due" for r using coordination_invD(2) [OF inv, of r "w_fresh w"] by auto
  show ?thesis
  proof (rule coordination_invI)
    fix r i assume "(r, i) \<in> set (w_strong w')"
    then consider "(r, i) = (root, w_fresh w)" | "(r, i) \<in> set (w_strong w)" "r \<noteq> root" using root(2) by (auto simp: w')
    then show "r \<in> roots \<and> map_of (w_coordinators w') r = Some i \<and> fs_is_dir (w_fs w') (work_root_of cd r)"
      by cases (use root dir coordination_invD(1) [OF inv] in \<open>simp_all add: w' map_of_filter_other\<close>)
  next
    fix r i assume "(r, i) \<in> set due"
    then show "(r, i) \<notin> set (w_strong w') \<and> i < w_fresh w' \<and> r \<in> roots"
      using coordination_invD(2) [OF inv] fresh by (auto simp: w' less_SucI)
  next
    fix r i assume "(r, i) \<in> set (w_coordinators w') \<or> (r, i) \<in> set (w_strong w')"
    then show "i < w_fresh w'" using coordination_invD(3) [OF inv, of r i] by (auto simp: w')
  qed
qed

lemma repository_coordination_inv:
  assumes inv: "coordination_inv cd roots (w, due)" and sep: "separate_roots cd roots"
    and root: "root \<in> roots" and run: "repository_coordination cd root w = (r, w')"
  shows "coordination_inv cd roots (w', due)"
proof (cases "upgrade root w")
  case (Some i)
  then have "w' = w\<lparr>w_strong := (root, i) # w_strong w\<rparr>" "(root, i) \<in> set (w_strong w)"
    using run by (auto simp: repository_coordination_def upgrade_def opt_filter_def split: option.splits if_splits)
  then show ?thesis using inv by (auto simp: coordination_inv_def)
next
  case None
  note prepared = coordination_prepared [OF inv sep root None]
  show ?thesis
  proof (cases "root = []")
    case True
    then have "w' = retain_live w" using run None by (simp add: repository_coordination_def io_fail_def)
    then show ?thesis using prepared [of w'] by simp
  next
    case False
    let ?p = "work_root_of cd root"
    obtain r1 w1 where one: "io_bind (create_durable_dir_all ?p) (\<lambda>_. clear_work_root ?p) (retain_live w) = (r1, w1)"
      by fastforce
    have run': "(case r1 of Inl e \<Rightarrow> (Inl e, w1) | Inr _ \<Rightarrow> new_coordination root w1) = (r, w')"
      using run None False one by (cases r1) (simp_all add: repository_coordination_def io_bind_assoc io_bind_def [of "io_bind _ _"])
    have inv1: "coordination_inv cd roots (w1, due)" "\<And>i. (root, i) \<notin> set (w_strong w1)"
      using prepared [of w1] prepared_keeps [OF one] by blast+
    show ?thesis
    proof (cases r1)
      case (Inl e)
      then show ?thesis using run' inv1(1) by simp
    next
      case (Inr x)
      then have "new_coordination root w1 = (r, w')" "fs_is_dir (w_fs w1) ?p"
        using run' prepared_keeps [OF one] by simp_all
      then show ?thesis by (intro coordination_created [OF inv1(1) root inv1(2)])
    qed
  qed
qed

lemma drop_coordination_fields:
  "\<exists>fs. drop_coordination cd (root, i) w =
      (if is_some_and (map_of (w_coordinators w) root) (\<lambda>j. j \<noteq> i) then w
       else w\<lparr>w_coordinators := filter (\<lambda>(r, _). r \<noteq> root) (w_coordinators w), w_fs := fs\<rparr>)
    \<and> (\<forall>q. fs_is_dir (w_fs w) q \<longrightarrow> \<not> prefix (work_root_of cd root) q \<longrightarrow> fs_is_dir fs q)"
proof -
  let ?p = "work_root_of cd root"
  have p: "?p = butlast ?p @ [last ?p]" by (simp add: work_root_of_def)
  obtain fs where fs: "fs = (case fs_remove_dir_all ?p (w_fs w) of Inl _ \<Rightarrow> w_fs w | Inr fs \<Rightarrow> fs)" by blast
  have "fs_is_dir fs q" if "fs_is_dir (w_fs w) q" "\<not> prefix ?p q" for q
    using that fs_delete_keeps_dirs [of "w_fs w" q "butlast ?p" "last ?p"] p
    by (auto simp: fs fs_remove_dir_all_def split: option.splits node.splits)
  moreover have "snd (io_bind (io_ignore (io_step (fs_remove_dir_all ?p))) (\<lambda>_. io_ignore (sync_directory (butlast ?p)))
      (w\<lparr>w_coordinators := c\<rparr>)) = w\<lparr>w_coordinators := c, w_fs := fs\<rparr>" for c
    by (cases "fs_remove_dir_all ?p (w_fs w)")
       (simp_all add: fs io_bind_def io_ignore_def io_step_def sync_directory_def io_read_def)
  ultimately show ?thesis by (intro exI [of _ fs]) (simp add: drop_coordination_def)
qed

lemma drop_coordination_inv:
  assumes inv: "coordination_inv cd roots (w, due)" and sep: "separate_roots cd roots" and c: "(root, i) \<in> set due"
  shows "coordination_inv cd roots (drop_coordination cd (root, i) w, remove1 (root, i) due)"
proof -
  obtain fs where d: "drop_coordination cd (root, i) w =
      (if is_some_and (map_of (w_coordinators w) root) (\<lambda>j. j \<noteq> i) then w
       else w\<lparr>w_coordinators := filter (\<lambda>(r, _). r \<noteq> root) (w_coordinators w), w_fs := fs\<rparr>)"
    and keep: "\<And>q. fs_is_dir (w_fs w) q \<Longrightarrow> \<not> prefix (work_root_of cd root) q \<Longrightarrow> fs_is_dir fs q"
    using drop_coordination_fields [of cd root i w] by blast
  have due: "set (remove1 (root, i) due) \<subseteq> set due" by (rule set_remove1_subset)
  show ?thesis
  proof (cases "is_some_and (map_of (w_coordinators w) root) (\<lambda>j. j \<noteq> i)")
    case True
    then show ?thesis using inv due d unfolding coordination_inv_def by auto
  next
    case False
    define w1 where "w1 = w\<lparr>w_coordinators := filter (\<lambda>(r, _). r \<noteq> root) (w_coordinators w), w_fs := fs\<rparr>"
    have "coordination_inv cd roots (w1, remove1 (root, i) due)"
    proof (rule coordination_invI)
      fix r j assume "(r, j) \<in> set (w_strong w1)"
      then have rj: "(r, j) \<in> set (w_strong w)" by (simp add: w1_def)
      note old = coordination_invD(1) [OF inv rj]
      have ne: "r \<noteq> root" using old rj False coordination_invD(2) [OF inv c] by (auto simp: is_some_and_def)
      then have "apart (work_root_of cd root) (work_root_of cd r)"
        using sep old coordination_invD(2) [OF inv c] by (auto simp: separate_roots_def)
      then show "r \<in> roots \<and> map_of (w_coordinators w1) r = Some j \<and> fs_is_dir (w_fs w1) (work_root_of cd r)"
        using old keep ne by (simp add: w1_def map_of_filter_other apart_def)
    next
      fix r j assume "(r, j) \<in> set (remove1 (root, i) due)"
      then show "(r, j) \<notin> set (w_strong w1) \<and> j < w_fresh w1 \<and> r \<in> roots"
        using coordination_invD(2) [OF inv, of r j] due by (auto simp: w1_def)
    next
      fix r j assume "(r, j) \<in> set (w_coordinators w1) \<or> (r, j) \<in> set (w_strong w1)"
      then show "j < w_fresh w1" using coordination_invD(3) [OF inv, of r j] by (auto simp: w1_def)
    qed
    then show ?thesis using d False by (simp add: w1_def)
  qed
qed

lemma release_inv:
  assumes inv: "coordination_inv cd roots (w, due)" and c: "c \<in> set (w_strong w)"
  shows "coordination_inv cd roots (release c w, if c \<in> set (w_strong (release c w)) then due else c # due)"
proof (rule coordination_invI)
  have sub: "set (w_strong (release c w)) \<subseteq> set (w_strong w)" by (simp add: release_def set_remove1_subset)
  fix r i assume "(r, i) \<in> set (w_strong (release c w))"
  then show "r \<in> roots \<and> map_of (w_coordinators (release c w)) r = Some i \<and> fs_is_dir (w_fs (release c w)) (work_root_of cd r)"
    using coordination_invD(1) [OF inv, of r i] sub by (auto simp: release_def)
next
  have sub: "set (w_strong (release c w)) \<subseteq> set (w_strong w)" by (simp add: release_def set_remove1_subset)
  fix r i assume "(r, i) \<in> set (if c \<in> set (w_strong (release c w)) then due else c # due)"
  then consider "(r, i) \<in> set due" | "(r, i) = c" "c \<notin> set (w_strong (release c w))" by (auto split: if_splits)
  then show "(r, i) \<notin> set (w_strong (release c w)) \<and> i < w_fresh (release c w) \<and> r \<in> roots"
  proof cases
    case 1
    then show ?thesis using coordination_invD(2) [OF inv, of r i] sub by (auto simp: release_def)
  next
    case 2
    then have "(r, i) \<in> set (w_strong w)" using c by simp
    then show ?thesis using 2 coordination_invD(1,3) [OF inv, of r i] by (auto simp: release_def)
  qed
next
  fix r i assume "(r, i) \<in> set (w_coordinators (release c w)) \<or> (r, i) \<in> set (w_strong (release c w))"
  then show "i < w_fresh (release c w)"
    using coordination_invD(3) [OF inv, of r i] set_remove1_subset [of c "w_strong w"] by (auto simp: release_def)
qed

lemma coordination_step_inv:
  assumes "coordination_step cd roots s t" and "separate_roots cd roots" and "coordination_inv cd roots s"
  shows "coordination_inv cd roots t"
  using assms
proof (induction rule: coordination_step.induct)
  case (open_root root w r w' due)
  then show ?case using repository_coordination_inv by blast
next
  case (cloning c w due)
  then show ?case by (auto simp: coordination_inv_def)
next
  case (releasing c w due)
  then show ?case by (intro release_inv)
next
  case (destroying c due w)
  obtain root i where "c = (root, i)" by fastforce
  with destroying show ?case by (simp add: drop_coordination_inv)
next
  case (working root i w due q f)
  have "fs_is_dir (modify (work_root_of cd root @ q) f (w_fs w)) (work_root_of cd r)" if "(r, j) \<in> set (w_strong w)" for r j
  proof (cases "r = root")
    case True
    then show ?thesis using coordination_invD(1) [OF working(3) that] modify_dir
      by (auto simp: fs_is_dir_iff lookup_modify_above)
  next
    case False
    then have "apart (work_root_of cd root) (work_root_of cd r)"
      using working coordination_invD(1) [OF working(3)] that by (auto simp: separate_roots_def)
    then have "apart (work_root_of cd root @ q) (work_root_of cd r)" by (rule apart_append)
    then show ?thesis using coordination_invD(1) [OF working(3) that]
      by (simp add: fs_is_dir_def lookup_modify_apart)
  qed
  then show ?case using working(3) by (auto simp: coordination_inv_def)
qed

lemma coordination_reachable_inv:
  "coordination_reachable cd roots s \<Longrightarrow> separate_roots cd roots \<Longrightarrow> coordination_inv cd roots s"
proof (induction rule: coordination_reachable.induct)
  case (start w)
  then show ?case by (simp add: coordination_inv_def)
next
  case (step s t)
  then show ?case by (blast intro: coordination_step_inv)
qed

end
