(* ===== verification/Local_Samples.thy ===== *)
theory Local_Samples
  imports Local_Gc Local_Coordination "HOL-Library.Code_Target_Nat"
begin

text \<open>
  A small repository on which the properties of the local store are evaluated: one account, two
  machines, and an encoding that knows the manifests of the example.
\<close>

section \<open>The example repository\<close>

definition sample_identity :: commit_identity where
  "sample_identity = \<lparr>ci_client_id = 7, ci_machine_name = ''deck''\<rparr>"

definition sample_hash :: "u8 \<Rightarrow> string" where
  "sample_hash b = hex_bytes (replicate 32 b)"

definition sample_blob :: string where
  "sample_blob = hex_bytes (replicate 20 0xAB)"

definition sample_file :: stored_file where
  "sample_file = \<lparr>sf_sha1 = sample_blob, sf_raw_size = 2, sf_mtime = 5, sf_platforms_to_sync = 1\<rparr>"

definition sample_manifest :: "u64 \<Rightarrow> string list \<Rightarrow> (string, stored_file) btree \<Rightarrow> save_manifest" where
  "sample_manifest revision parents files =
     \<lparr>sm_steam_id64 = ''9'', sm_app_id = 10, sm_revision = revision, sm_parents = parents,
      sm_client_id = 7, sm_machine_name = ''deck'', sm_created_at_ms = 1000, sm_files = files\<rparr>"

text \<open>An encoding that knows the manifests it is given.\<close>

definition sample_codec :: "(save_manifest \<times> bytes) list \<Rightarrow> codec" where
  "sample_codec known =
     \<lparr>cd_sha1 = (\<lambda>_. replicate 20 0xAB), cd_sha256 = (\<lambda>b. replicate 32 (case b of x # _ \<Rightarrow> x | [] \<Rightarrow> 0)),
      cd_manifest_to_vec = (\<lambda>m. case map_of known m of Some b \<Rightarrow> Inr b | None \<Rightarrow> Inl ''unknown manifest''),
      cd_manifest_from_slice = (\<lambda>b. map_of (map (\<lambda>(m, b). (b, m)) known) b),
      cd_claim_to_vec = (\<lambda>_. Inl ''no claim''), cd_claim_from_slice = (\<lambda>_. None),
      cd_override_to_vec = (\<lambda>_. Inl ''no override''), cd_override_from_slice = (\<lambda>_. None),
      cd_format_to_vec_pretty = (\<lambda>_. Inl ''no format''), cd_format_from_slice = (\<lambda>_. Inl ''no format'')\<rparr>"

definition sample_saved :: save_manifest where
  "sample_saved = sample_manifest 1 [] [(''a.sav'', sample_file)]"

definition sample_empty :: save_manifest where
  "sample_empty = sample_manifest 1 [] []"

definition sample_merged :: save_manifest where
  "sample_merged = sample_manifest 6 [sample_hash 1, sample_hash 3] [(''a.sav'', sample_file)]"

definition sample_store :: folder_store where
  "sample_store = \<lparr>fo_root = [''r''], fo_account = Some ''9'', fo_work_root = [''w''], fo_coordination = 0\<rparr>"

definition sample_world :: "entries \<Rightarrow> world" where
  "sample_world manifests =
     \<lparr>w_fs = Dir [(''r'', Dir [(''9'', Dir [(''10'', Dir manifests)])]), (''w'', Dir [])],
      w_next = 1, w_pid = 2, w_millis = 1000, w_seconds = 1, w_closed = [],
      w_coordinators = [], w_strong = [], w_fresh = 0\<rparr>"

definition sample_manifest_dir :: "u8 \<Rightarrow> entries \<Rightarrow> string \<times> node" where
  "sample_manifest_dir b blobs = (sample_hash b, Dir [(''blobs'', Dir blobs), (''manifest.json'', File [b])])"

definition sample_put :: edit where
  "sample_put = Put ''a.sav'' [1, 2] \<lparr>fm_sha1 = sample_blob, fm_raw_size = 2, fm_mtime = 5, fm_platforms_to_sync = 1\<rparr>"

definition sample_device :: "device_descriptor option" where
  "sample_device = Some \<lparr>dd_client_id = 7, dd_machine_name = ''deck'', dd_os_type = None, dd_device_type = None\<rparr>"

definition sample_after_put :: world where
  "sample_after_put = (sample_world [sample_manifest_dir 1 [(sample_blob, File [1, 2])]])
     \<lparr>w_next := 4, w_closed := [[''w'', ''operation-2-3e8-1'']]\<rparr>"

definition sample_conflict_codec :: codec where
  "sample_conflict_codec = sample_codec [(sample_saved, [1]), (sample_empty, [3]), (sample_merged, [4])]"

definition sample_conflict :: world where
  "sample_conflict = sample_world [sample_manifest_dir 1 [(sample_blob, File [1, 2])], sample_manifest_dir 3 []]"

definition sample_conflict_app :: resolved_app where
  "sample_conflict_app = \<lparr>ra_manifests = [(sample_hash 1, sample_saved), (sample_hash 3, sample_empty)],
     ra_heads = [sample_hash 1, sample_hash 3], ra_max_revision = 1\<rparr>"

definition sample_ancestor_app :: resolved_app where
  "sample_ancestor_app =
     \<lparr>ra_manifests = [(sample_hash 1, sample_saved), (sample_hash 2, sample_manifest 2 [sample_hash 1] []),
                      (sample_hash 3, sample_manifest 2 [sample_hash 1] [])],
      ra_heads = [sample_hash 2, sample_hash 3], ra_max_revision = 2\<rparr>"

definition sample_operation :: "string \<Rightarrow> save_operation" where
  "sample_operation name =
     \<lparr>so_coordination = 0, so_repository = [''r''], so_manifest_scope = ''9/10'', so_app_id = 10,
      so_path = [''w'', name], so_expected_heads = [], so_parents = [], so_original_files = [],
      so_force_publish = False, so_minimum_revision = 0\<rparr>"

definition sample_staged :: staged_file where
  "sample_staged = \<lparr>st_path = ''a.sav'', st_blob_sha1 = sample_blob,
     st_metadata = \<lparr>fm_sha1 = sample_blob, fm_raw_size = 2, fm_mtime = 5, fm_platforms_to_sync = 1\<rparr>\<rparr>"

definition sample_blobs :: entries where
  "sample_blobs = [(sample_blob, File [1, 2])]"

definition sample_race :: world where
  "sample_race = (sample_world [])\<lparr>w_fs := Dir [(''r'', Dir [(''9'', Dir [(''10'', Dir [])])]),
     (''w'', Dir [(''one'', Dir [(''blobs'', Dir sample_blobs)]), (''two'', Dir [(''blobs'', Dir [])])])]\<rparr>"

text \<open>Three generations of saves, of which the oldest can go.\<close>

definition sample_history_codec :: codec where
  "sample_history_codec = sample_codec [(sample_saved, [1]), (sample_manifest 2 [sample_hash 1] [], [2]),
     (sample_manifest 3 [sample_hash 2] [(''a.sav'', sample_file)], [3])]"

definition sample_history :: world where
  "sample_history = sample_world [sample_manifest_dir 1 sample_blobs, sample_manifest_dir 2 [], sample_manifest_dir 3 sample_blobs]"

definition sample_history_app :: resolved_app where
  "sample_history_app =
     \<lparr>ra_manifests = [(sample_hash 1, sample_saved), (sample_hash 2, sample_manifest 2 [sample_hash 1] []),
                      (sample_hash 3, sample_manifest 3 [sample_hash 2] [(''a.sav'', sample_file)])],
      ra_heads = [sample_hash 3], ra_max_revision = 3\<rparr>"

definition sample_report :: gc_report where
  "sample_report = \<lparr>gr_app_id = 10, gr_manifest_scope = ''9/10'', gr_retained_manifests = [sample_hash 2, sample_hash 3],
     gr_candidate_manifests = [sample_hash 1]\<rparr>"

definition sample_plan :: gc_sweep_plan where
  "sample_plan = \<lparr>gp_root = [''r'', ''9'', ''10''], gp_app_id = 10,
     gp_expected_manifests = [sample_hash 1, sample_hash 2, sample_hash 3], gp_candidate_manifests = [sample_hash 1]\<rparr>"

definition sample_sweep :: gc_sweep where
  "sample_sweep = \<lparr>gs_deleted_manifests = 1, gs_moved_manifests = [(sample_hash 1, [''w'', ''gc-2-3e8-1''])]\<rparr>"

section \<open>Facts\<close>

lemma sample_codec_ok: "distinct (map snd known) \<Longrightarrow> manifest_codec (sample_codec known)"
proof
  fix m b assume d: "distinct (map snd known)" and "cd_manifest_to_vec (sample_codec known) m = Inr b"
  then have "(m, b) \<in> set known" by (auto simp: sample_codec_def split: option.splits dest: map_of_SomeD)
  then have "(b, m) \<in> set (map (\<lambda>(m, b). (b, m)) known)" by force
  moreover have "distinct (map fst (map (\<lambda>(m, b). (b, m)) known))" using d by (simp add: comp_def split_def)
  ultimately show "cd_manifest_from_slice (sample_codec known) b = Some m" by (simp add: sample_codec_def)
qed

lemma sample_apart: "apart (fo_work_root sample_store) (app_dir sample_store 10)"
  by (simp add: apart_def app_dir_def sample_store_def)

lemma sample_resolve_empty:
  "resolve_app cd sample_store 10 (w_fs (sample_world [])) = Inr \<lparr>ra_manifests = [], ra_heads = [], ra_max_revision = 0\<rparr>"
proof -
  have "lookup (w_fs (sample_world [])) (app_dir sample_store 10) = Some (Dir [])"
    by code_simp
  then show ?thesis
    by (simp add: resolve_app_def validate_app_id_def store_manifest_objects_def manifest_account_def sample_store_def
        collect_manifest_objects_def fs_exists_def fs_read_dir_def head_ids_of_def max_revision_of_def)
qed

lemma sample_fresh: "fresh_operation sample_store (sample_world es)"
  by (simp add: fresh_operation_def next_nonce_def sample_world_def sample_store_def)

lemma sample_editable:
  assumes "distinct (map snd known)" shows "editable (sample_codec known) sample_store 10 (sample_world [])"
  unfolding editable_def
  using sample_codec_ok [OF assms] sample_apart sample_fresh sample_resolve_empty
  by (simp add: MAX_MANIFEST_OBJECTS_def unreferenced_digests_def parent_ids_def)

lemma run_result: "fst p = x \<Longrightarrow> p = (x, snd p)"
  by (cases p) simp

lemma sample_unreferenced: "parent_ids (ra_manifests r) = [] \<Longrightarrow> unreferenced_digests cd r"
  by (simp add: unreferenced_digests_def)

lemma sample_conflict_facts:
  "resolve_app sample_conflict_codec sample_store 10 (w_fs sample_conflict) = Inr sample_conflict_app"
  "fst (resolve_to_manifest sample_conflict_codec sample_store 10 [sample_hash 1, sample_hash 3] (sample_hash 1)
          sample_identity 5 sample_conflict) = Inr 6"
  by code_simp+

lemma sample_race_first:
  "case commit_operation (sample_codec [(sample_saved, [1])]) sample_store (sample_operation ''one'') [sample_staged] []
     sample_identity sample_race of (x, w) \<Rightarrow> x = Inr 1 \<and> w_closed w = [[''w'', ''one'']]"
  by code_simp

lemma sample_race_ok:
  "validate_operation sample_store (sample_operation ''two'') = Inr ()" "validate_identity sample_identity = Inr ()"
  "insert_staged [sample_staged] [] = Inr [(''a.sav'', sample_file)]"
  by code_simp+

lemma sample_race_begun: "begun sample_store (sample_operation ''one'') None sample_blobs sample_race"
  by (simp add: begun_def sample_operation_def sample_store_def work_dir_def sample_race_def sample_blobs_def)

lemma sample_race_resolve:
  "resolve_app cd sample_store 10 (w_fs sample_race) = Inr \<lparr>ra_manifests = [], ra_heads = [], ra_max_revision = 0\<rparr>"
proof -
  have "lookup (w_fs sample_race) (app_dir sample_store 10) = Some (Dir [])" by code_simp
  then show ?thesis
    by (simp add: resolve_app_def validate_app_id_def store_manifest_objects_def manifest_account_def sample_store_def
        collect_manifest_objects_def fs_exists_def fs_read_dir_def head_ids_of_def max_revision_of_def)
qed

lemma sample_opening:
  "repository_coordination (sample_codec []) [''r''] (sample_world []) =
     (Inr 0, (sample_world [])\<lparr>w_fs := Dir [(''r'', Dir [(''9'', Dir [(''10'', Dir [])])]), (''w'', Dir []),
          (''.vapor-local-2f2f2f2f2f2f2f2f.work'', Dir [])],
        w_coordinators := [([''r''], 0)], w_strong := [([''r''], 0)], w_fresh := 1\<rparr>)"
  by code_simp

lemma sample_put_run:
  "store_edit (sample_codec [(sample_saved, [1])]) sample_store sample_device 10 sample_put (sample_world []) = Some sample_after_put"
  by code_simp

lemma sample_history_resolve: "resolve_app sample_history_codec sample_store 10 (w_fs sample_history) = Inr sample_history_app"
  by code_simp

lemma sample_history_report: "inspect_gc sample_history_codec sample_store 10 (w_fs sample_history) = Inr sample_report"
  by code_simp

lemma sample_history_sweep:
  "prepare_gc_sweep sample_store sample_report (w_fs sample_history) = Inr (Some sample_plan)"
  "fst (apply_gc_sweep sample_store sample_plan sample_history) = Inr (Some sample_sweep)"
  "fs_is_dir (w_fs sample_history) (fo_work_root sample_store)" "fs_is_dir (w_fs sample_history) (app_dir sample_store 10)"
  by code_simp+

lemma sample_conflict_delete:
  "fst (file_store_delete sample_conflict_codec sample_store sample_device 10 ''a.sav'' sample_conflict)
     = Inl (conflict ''ordinary upload cannot cover unresolved manifest heads'')"
  by code_simp

end
