(* ===== verification/Local_Failure.thy ===== *)
theory Local_Failure
  imports Local_Gc
begin

text \<open>
  What a failing operation of the local store leaves behind.  An action is harmless for an app
  when readers of the app cannot tell that it ran; everything an operation does before the rename that
  publishes it is harmless, because it works in the work directory or at most creates the empty app directory.
\<close>

named_theorems harmless_intros

definition unseen :: "path \<Rightarrow> node \<Rightarrow> node \<Rightarrow> bool" where
  "unseen A fs fs' \<longleftrightarrow> (\<forall>c q. lookup fs' (A @ c # q) = lookup fs (A @ c # q))
     \<and> (lookup fs' A = lookup fs A \<or> lookup fs A = None \<and> lookup fs' A = Some (Dir []))"

definition harmless :: "path \<Rightarrow> 'a io \<Rightarrow> bool" where
  "harmless A m \<longleftrightarrow> (\<forall>w. unseen A (w_fs w) (w_fs (snd (m w))))"

definition harmless_failure :: "path \<Rightarrow> 'a io \<Rightarrow> bool" where
  "harmless_failure A m \<longleftrightarrow> (\<forall>w e w'. m w = (Inl e, w') \<longrightarrow> unseen A (w_fs w) (w_fs w'))"

section \<open>What readers see\<close>

lemma unseen_refl [simp]: "unseen A fs fs"
  by (simp add: unseen_def)

lemma unseen_trans: "unseen A fs fs1 \<Longrightarrow> unseen A fs1 fs2 \<Longrightarrow> unseen A fs fs2"
  by (auto simp: unseen_def)

lemma same_below_unseen: "same_below A fs fs' \<Longrightarrow> unseen A fs fs'"
proof -
  assume s: "same_below A fs fs'"
  then have "lookup fs' A = lookup fs A" unfolding same_below_def by (metis append.right_neutral)
  with s show ?thesis by (simp add: unseen_def same_below_def)
qed

lemma unseen_modify: "apart p A \<Longrightarrow> unseen A fs (modify p f fs)"
  by (intro same_below_unseen same_below_modify)

lemma unseen_readers:
  assumes u: "unseen (app_dir store app_id) fs fs'"
  shows "resolve_app cd store app_id fs' = resolve_app cd store app_id fs"
    and "contents_of cd store app_id fs' = contents_of cd store app_id fs"
proof -
  let ?A = "app_dir store app_id"
  have q: "lookup fs' (?A @ c # q) = lookup fs (?A @ c # q)" for c q using u by (simp add: unseen_def)
  have entries: "rfold (collect_manifest_entry cd ?A account app_id fs') es acc = rfold (collect_manifest_entry cd ?A account app_id fs) es acc"
    for account es acc by (rule rfold_cong) (metis collect_manifest_entry_cong q surj_pair)
  have "collect_manifest_objects cd ?A account app_id fs' = collect_manifest_objects cd ?A account app_id fs" for account
    using u by (auto simp: unseen_def collect_manifest_objects_def fs_exists_def fs_read_dir_def entries)
  then show res: "resolve_app cd store app_id fs' = resolve_app cd store app_id fs"
    by (simp add: resolve_app_def store_manifest_objects_def rbind_def split: sum.splits)
  have "open_blob_file (?A @ [i, ''blobs'', h]) f fs' = open_blob_file (?A @ [i, ''blobs'', h]) f fs" for i h f
    using q by (simp add: open_blob_file_def fs_node_def)
  then have "rbind (manifest_blob_path store app_id i h) (\<lambda>b. rbind (open_blob_file b f fs') k)
      = rbind (manifest_blob_path store app_id i h) (\<lambda>b. rbind (open_blob_file b f fs) k)"
    for i h f and k :: "bytes \<Rightarrow> backend_error + (file_entry \<times> bound_download)"
    by (auto simp: manifest_blob_path_def manifest_dir_def rbind_def split: sum.splits)
  then show "contents_of cd store app_id fs' = contents_of cd store app_id fs"
    by (simp add: fun_eq_iff contents_of_def byte_store_read_def bind_download_def current_manifest_def res)
qed

section \<open>Combining actions\<close>

lemma harmless_bind [harmless_intros]: "harmless A m \<Longrightarrow> (\<And>x. harmless A (f x)) \<Longrightarrow> harmless A (io_bind m f)"
  by (fastforce simp: harmless_def io_bind_def intro: unseen_trans split: prod.splits sum.splits)

lemma harmless_io [harmless_intros]:
  "harmless A (io_ret x)" "harmless A (io_fail e)" "harmless A (io_lift r)" "harmless A (io_read g)"
  "harmless A (sync_directory p)" "harmless A next_nonce" "harmless A (close_operation op)" "harmless A (ensure_open op)"
  by (simp_all add: harmless_def io_ret_def io_fail_def io_lift_def io_read_def sync_directory_def next_nonce_def
      close_operation_def ensure_open_def)

lemma harmless_ignore [harmless_intros]: "harmless A m \<Longrightarrow> harmless A (io_ignore m)"
  by (simp add: harmless_def io_ignore_def)

lemma harmless_for [harmless_intros]: "(\<And>x. harmless A (body x)) \<Longrightarrow> harmless A (io_for xs body)"
  by (induction xs) (auto intro: harmless_intros)

lemma harmless_if [harmless_intros]: "(b \<Longrightarrow> harmless A m) \<Longrightarrow> (\<not> b \<Longrightarrow> harmless A m') \<Longrightarrow> harmless A (if b then m else m')"
  by simp

lemma harmless_case [harmless_intros]:
  "(\<And>a b. harmless A (f a b)) \<Longrightarrow> harmless A (case x of (a, b) \<Rightarrow> f a b)"
  "harmless A m \<Longrightarrow> (\<And>i. harmless A (g i)) \<Longrightarrow> harmless A (case i of None \<Rightarrow> m | Some i \<Rightarrow> g i)"
  by (simp_all split: prod.split option.split)

lemma harmless_step: "(\<And>fs fs'. f fs = Inr fs' \<Longrightarrow> unseen A fs fs') \<Longrightarrow> harmless A (io_step f)"
  by (auto simp: harmless_def io_step_def split: sum.splits)

lemma harmless_failure_weaken: "harmless A m \<Longrightarrow> harmless_failure A m"
  unfolding harmless_def harmless_failure_def by (metis snd_conv)

lemma harmless_failure_bind:
  assumes "harmless A m" "\<And>w x w'. m w = (Inr x, w') \<Longrightarrow> harmless_failure A (f x)"
  shows "harmless_failure A (io_bind m f)"
  unfolding harmless_failure_def
proof (intro allI impI)
  fix w e w' assume run: "io_bind m f w = (Inl e, w')"
  obtain y w1 where y: "m w = (y, w1)" by fastforce
  have u: "unseen A (w_fs w) (w_fs w1)" using assms(1) y unfolding harmless_def by (metis snd_conv)
  show "unseen A (w_fs w) (w_fs w')"
  proof (cases y)
    case (Inl e')
    then show ?thesis using run y u by (simp add: io_bind_def)
  next
    case (Inr x)
    then have "f x w1 = (Inl e, w')" using run y by (simp add: io_bind_def)
    then show ?thesis using assms(2) y Inr u unfolding harmless_failure_def by (blast intro: unseen_trans)
  qed
qed

section \<open>File helpers\<close>

lemma unseen_create_dir:
  assumes "fs_create (p @ [c]) (Dir []) fs = Inr fs'" "\<not> strict_prefix A (p @ [c])"
  shows "unseen A fs fs'"
proof -
  obtain es where es: "lookup fs p = Some (Dir es)" "map_of es c = None" "fs' = modify p (dir_put c (Dir [])) fs"
    using fs_create_Inr [OF assms(1)] by metis
  show ?thesis
  proof (cases "prefix p A")
    case False
    moreover have "\<not> prefix A p" using assms(2) by (metis prefix_snoc strict_prefix_def prefix_order.less_le_trans strict_prefixI' prefix_order.le_less)
    ultimately show ?thesis unfolding es(3) by (intro unseen_modify) (simp add: apart_def)
  next
    case True
    moreover have "A \<noteq> p" using assms(2) by (auto simp: strict_prefix_def)
    ultimately obtain d r where A: "A = p @ d # r" by (metis append.right_neutral neq_Nil_conv prefixE)
    have l: "lookup fs' (p @ d # q) = (if d = c then lookup (Dir []) q else lookup fs (p @ d # q))" for q
      unfolding es(3) lookup_modify_below [OF es(1)] map_of_dir_put using es(1) by (simp add: lookup_append)
    have n: "lookup fs (p @ c # q) = None" for q using es(1,2) by (simp add: lookup_append)
    show ?thesis unfolding A unseen_def using l n by (cases r) auto
  qed
qed

lemma harmless_create_dir: "\<not> strict_prefix A (p @ [c]) \<Longrightarrow> harmless A (create_durable_dir (p @ [c]))"
  unfolding create_durable_dir_def
  by (intro harmless_intros)
     (auto simp: harmless_def intro: unseen_create_dir split: sum.splits io_kind.splits)

lemma missing_dirs_prefix: "missing_dirs fs up = (ms, cur) \<Longrightarrow> d \<in> set ms \<Longrightarrow> d \<noteq> [] \<and> prefix d (rev up)"
proof (induction fs up arbitrary: ms rule: missing_dirs.induct)
  case (2 fs c up)
  then show ?case by (force split: if_splits prod.splits)
qed simp

lemma harmless_create_dir_all [harmless_intros]:
  assumes "\<not> strict_prefix A p" shows "harmless A (create_durable_dir_all p)"
  unfolding harmless_def
proof
  fix w :: world
  obtain ms cur where ms: "missing_dirs (w_fs w) (rev p) = (ms, cur)" by fastforce
  have "harmless A (create_durable_dir d)" if d: "d \<in> set ms" for d
  proof -
    have "d \<noteq> []" "prefix d p" using missing_dirs_prefix [OF ms d] by simp_all
    then show ?thesis using harmless_create_dir [of A "butlast d" "last d"] assms by (metis append_butlast_last_id prefix_order.less_le_trans)
  qed
  then have "harmless A (io_for ms create_durable_dir)"
    by (induction ms) (auto intro: harmless_intros)
  then show "unseen A (w_fs w) (w_fs (snd (create_durable_dir_all p w)))"
    using ms by (simp add: create_durable_dir_all_def harmless_def)
qed

lemma unseen_create: "fs_create (p @ [c]) x fs = Inr fs' \<Longrightarrow> apart p A \<Longrightarrow> unseen A fs fs'"
  using fs_create_Inr unseen_modify by metis

lemma unseen_remove: "fs_remove_file (p @ [c]) fs = Inr fs' \<Longrightarrow> apart p A \<Longrightarrow> unseen A fs fs'"
  using fs_remove_file_Inr unseen_modify by metis

lemma unseen_remove_all: "fs_remove_dir_all (p @ [c]) fs = Inr fs' \<Longrightarrow> apart p A \<Longrightarrow> unseen A fs fs'"
  by (auto simp: fs_remove_dir_all_def intro: unseen_modify split: option.splits node.splits)

lemma unseen_hard_link: "fs_hard_link s (p @ [c]) fs = Inr fs' \<Longrightarrow> apart p A \<Longrightarrow> unseen A fs fs'"
  by (auto simp: fs_hard_link_def intro: unseen_create split: option.splits node.splits)

lemma unseen_copy: "fs_copy s (p @ [c]) fs = Inr fs' \<Longrightarrow> apart p A \<Longrightarrow> unseen A fs fs'"
  by (auto simp: fs_copy_def intro: unseen_create split: option.splits node.splits)

lemma harmless_remove [harmless_intros]:
  "apart p A \<Longrightarrow> harmless A (remove_if_exists (p @ [c]))"
  "apart p A \<Longrightarrow> harmless A (remove_dir_all_if_exists (p @ [c]))"
  by (auto simp: harmless_def remove_if_exists_def remove_dir_all_if_exists_def sync_directory_def io_read_def
      intro: unseen_remove unseen_remove_all split: sum.splits io_kind.splits)

lemma harmless_link_or_copy [harmless_intros]: "apart p A \<Longrightarrow> harmless A (link_or_copy s (p @ [c]))"
  by (auto simp: harmless_def link_or_copy_def io_step_def intro: unseen_hard_link unseen_copy split: sum.splits)

lemma apart_not_above: "apart p A \<Longrightarrow> \<not> strict_prefix A (p @ q)"
  unfolding apart_def strict_prefix_def by (metis prefix_same_cases prefixI)

lemma harmless_publish_file [harmless_intros]:
  assumes "apart p A" shows "harmless A (atomic_publish (p @ [c]) b)"
proof -
  have tmp: "harmless A (io_step (fs_remove_file (p @ [t])))" "harmless A (io_step (fs_create (p @ [t]) (File b)))" for t
    using assms by (auto intro: harmless_step unseen_remove unseen_create)
  have link: "harmless A (link_temporary (p @ [t]) (p @ [c]) b)" for t
    unfolding harmless_def
  proof
    fix w :: world
    have h: "harmless A (io_bind (io_step (fs_remove_file (p @ [t]))) (\<lambda>_. sync_directory (butlast (p @ [c]))))"
      "harmless A (io_bind (io_ignore (io_step (fs_remove_file (p @ [t])))) (\<lambda>_.
          io_bind (io_read (\<lambda>fs. map_err io_error (file_matches_bytes fs (p @ [c]) b))) (\<lambda>same.
          if same then sync_directory (butlast (p @ [c]))
          else io_fail (permanent ''immutable local cloud object collision''))))"
      "harmless A (io_bind (io_ignore (io_step (fs_remove_file (p @ [t])))) (\<lambda>_. io_fail (io_error k) :: unit io))" for k
      by (intro harmless_intros tmp)+
    show "unseen A (w_fs w) (w_fs (snd (link_temporary (p @ [t]) (p @ [c]) b w)))"
    proof (cases "fs_hard_link (p @ [t]) (p @ [c]) (w_fs w)")
      case (Inr fs)
      then have "unseen A (w_fs w) fs" using assms by (rule unseen_hard_link)
      moreover have "unseen A fs (w_fs (snd (link_temporary (p @ [t]) (p @ [c]) b w)))"
        using h(1) [unfolded harmless_def, THEN spec, of "w\<lparr>w_fs := fs\<rparr>"] Inr by (simp add: link_temporary_def)
      ultimately show ?thesis by (rule unseen_trans)
    next
      case (Inl k)
      then show ?thesis using h(2,3) [unfolded harmless_def, THEN spec, of w] by (cases k) (simp_all add: link_temporary_def)
    qed
  qed
  have "harmless A (io_bind (create_durable_dir_all p) (\<lambda>_.
      io_bind next_nonce (\<lambda>nonce.
      io_bind (io_step (fs_create (temporary_path p nonce) (File b))) (\<lambda>_. link_temporary (temporary_path p nonce) (p @ [c]) b))))"
    using apart_not_above [OF assms, of "[]"] tmp(2) link unfolding temporary_path_def
    by (intro harmless_intros) simp_all
  then show ?thesis by (simp add: atomic_publish_def harmless_def)
qed

section \<open>Operations\<close>

lemma harmless_lift_bind:
  "(\<And>x. r = Inr x \<Longrightarrow> harmless A (f x)) \<Longrightarrow> harmless A (io_bind (io_lift r) f)"
  by (cases r) (auto simp: harmless_def io_bind_def io_lift_def)

lemma harmless_link_blobs:
  assumes "apart P A" shows "harmless A (link_blobs store app_id i P files copied)"
proof (induction files arbitrary: copied)
  case (Cons f files)
  have "harmless A (link_or_copy s t)" if "operation_blob_path P (sf_sha1 f) = Inr t" for s t
    using that harmless_link_or_copy [OF apart_append(1) [OF assms], of s "[''blobs'']" "sf_sha1 f"]
    by (auto simp: operation_blob_path_def rbind_eq_Inr)
  with Cons show ?case by (auto intro!: harmless_lift_bind harmless_intros)
qed (simp add: harmless_intros)

lemma harmless_begin:
  assumes "apart (fo_work_root store) A"
  shows "harmless A (begin_operation_with_revision cd store app_id base resolution minimum)"
proof -
  have d: "\<not> strict_prefix A ((fo_work_root store @ x) @ y)" "apart (fo_work_root store @ x) A" for x y
    using apart_not_above [OF apart_append(1) [OF assms]] apart_append(1) [OF assms] by blast+
  show ?thesis unfolding begin_operation_with_revision_def Let_def
    by (intro harmless_intros d harmless_link_blobs)
qed

lemma begin_operation_path:
  "begin_operation_with_revision cd store app_id base resolution minimum w = (Inr op, w') \<Longrightarrow>
     so_app_id op = app_id \<and> (\<exists>x. so_path op = fo_work_root store @ [x])"
  by (auto simp: begin_operation_with_revision_def Let_def io_bind_Inr split: prod.splits)

lemma harmless_stage_file:
  assumes "apart (so_path op) A" shows "harmless A (stage_file cd store op p contents metadata)"
proof -
  have "harmless A (atomic_publish t contents)" if "operation_blob_path (so_path op) h = Inr t" for t h
    using that harmless_publish_file [OF apart_append(1) [OF assms], of "[''blobs'']" h contents]
    by (auto simp: operation_blob_path_def rbind_eq_Inr)
  then show ?thesis unfolding stage_file_def Let_def by (auto intro!: harmless_lift_bind harmless_intros)
qed

lemma harmless_prune:
  assumes "apart (so_path op) A" shows "harmless A (prune_operation_blobs op files)"
  unfolding prune_operation_blobs_def Let_def
  by (intro harmless_intros apart_append(1) [OF assms])

lemma rename_publishes:
  assumes P: "so_path op = fo_work_root store @ [x]" and ap: "apart (fo_work_root store) (app_dir store app_id)"
  shows "harmless_failure (app_dir store app_id)
    (io_bind (io_step (fs_rename (so_path op) (app_dir store app_id @ [i]))) (\<lambda>_.
     io_bind (close_operation op) (\<lambda>_.
     io_bind (sync_directory (fo_work_root store)) (\<lambda>_.
     io_bind (sync_directory (app_dir store app_id)) (\<lambda>_. io_ret revision)))))"
  unfolding harmless_failure_def
proof (intro allI impI)
  fix w e w'
  let ?W = "fo_work_root store" and ?A = "app_dir store app_id"
  assume run: "io_bind (io_step (fs_rename (so_path op) (?A @ [i]))) (\<lambda>_.
     io_bind (close_operation op) (\<lambda>_. io_bind (sync_directory ?W) (\<lambda>_. io_bind (sync_directory ?A) (\<lambda>_. io_ret revision)))) w = (Inl e, w')"
  show "unseen ?A (w_fs w) (w_fs w')"
  proof (cases "fs_rename (so_path op) (?A @ [i]) (w_fs w)")
    case (Inl k)
    then show ?thesis using run by (auto simp: io_bind_def io_step_def)
  next
    case (Inr fs)
    then obtain y es as where r: "lookup (w_fs w) ?W = Some (Dir es)" "map_of es x = Some y" "lookup (w_fs w) ?A = Some (Dir as)"
      "map_of as i = None \<or> map_of as i = Some (Dir []) \<or> (\<exists>n. map_of as i = Some n \<and> \<not> is_dir n \<and> \<not> is_dir y)"
      "fs = modify ?A (dir_put i y) (modify ?W (dir_del x) (w_fs w))"
      unfolding P by (rule fs_rename_Inr)
    have "fs_exists fs ?W" "fs_exists fs ?A" using rename_apart [OF ap r(1,3)] by (simp_all add: r(5) fs_exists_def)
    then show ?thesis using run Inr by (simp add: io_bind_def io_step_def close_operation_def sync_directory_def io_read_def io_ret_def)
  qed
qed

lemma failed_publish:
  assumes P: "so_path op = fo_work_root store @ [x]" and ap: "apart (fo_work_root store) (app_dir store (so_app_id op))"
  shows "harmless_failure (app_dir store (so_app_id op)) (publish_operation cd store op files identity max_revision)"
proof -
  let ?A = "app_dir store (so_app_id op)"
  have ap': "apart (so_path op) ?A" unfolding P by (rule apart_append(1) [OF ap])
  have last: "harmless_failure ?A (io_bind (io_lift (manifest_dir store (so_app_id op) i)) (\<lambda>destination.
     io_bind (io_step (fs_rename (so_path op) destination)) (\<lambda>_.
     io_bind (close_operation op) (\<lambda>_.
     io_bind (sync_directory (fo_work_root store)) (\<lambda>_.
     io_bind (sync_directory ?A) (\<lambda>_. io_ret revision))))))" for i and revision :: u64
    using rename_publishes [OF P ap] by (intro harmless_failure_bind [OF harmless_io(3)]) (simp add: manifest_dir_Inr)
  have body: "harmless_failure ?A (
     io_bind (io_lift (map_err json_error (cd_manifest_to_vec cd manifest))) (\<lambda>bs.
     io_bind (io_lift (ensure (length bs \<le> MAX_MANIFEST_BYTES) (permanent ''local cloud manifest is too large''))) (\<lambda>_.
     io_bind (io_lift (validate_manifest (hex_digest (cd_sha256 cd) bs) account (so_app_id op) manifest)) (\<lambda>_.
     io_bind (atomic_publish (so_path op @ [''manifest.json'']) bs) (\<lambda>_.
     io_bind (sync_directory (so_path op @ [''blobs''])) (\<lambda>_.
     io_bind (sync_directory (so_path op)) (\<lambda>_.
     io_bind (create_durable_dir_all ?A) (\<lambda>_.
     io_bind (io_lift (manifest_dir store (so_app_id op) (hex_digest (cd_sha256 cd) bs))) (\<lambda>destination.
     io_bind (io_step (fs_rename (so_path op) destination)) (\<lambda>_.
     io_bind (close_operation op) (\<lambda>_.
     io_bind (sync_directory (fo_work_root store)) (\<lambda>_.
     io_bind (sync_directory ?A) (\<lambda>_. io_ret revision)))))))))))))" for manifest account and revision :: u64
    by (rule harmless_failure_bind, rule harmless_io)+
       (rule harmless_failure_bind, (rule harmless_io harmless_publish_file [OF ap'] harmless_create_dir_all, simp?)+, (rule last)?)+
  show ?thesis unfolding publish_operation_def
    by (intro harmless_failure_bind harmless_io) (use body in \<open>simp add: harmless_failure_def Let_def\<close>)
qed

lemma failed_commit:
  assumes P: "so_path op = fo_work_root store @ [x]" and ap: "apart (fo_work_root store) (app_dir store (so_app_id op))"
  shows "harmless_failure (app_dir store (so_app_id op)) (commit_operation cd store op staged deleted identity)"
proof -
  let ?A = "app_dir store (so_app_id op)"
  have ap': "apart (so_path op) ?A" unfolding P by (rule apart_append(1) [OF ap])
  have unchanged: "harmless ?A (io_bind (io_lift (current r)) (\<lambda>c.
          io_bind (close_operation op) (\<lambda>_.
          io_bind (remove_dir_all_if_exists (so_path op)) (\<lambda>_.
          io_bind (sync_directory (fo_work_root store)) (\<lambda>_.
          io_ret (case c of None \<Rightarrow> 0 | Some (_, m) \<Rightarrow> sm_revision m))))))" for r
    unfolding P by (intro harmless_intros ap)
  show ?thesis unfolding commit_operation_def
    by (intro harmless_failure_bind harmless_io harmless_prune [OF ap'])
       (simp add: failed_publish [OF P ap] harmless_failure_weaken [OF unchanged])
qed

lemma failed_with_operation:
  assumes P: "so_path op = fo_work_root store @ [x]" and ap: "apart (fo_work_root store) A" and m: "harmless_failure A m"
  shows "harmless_failure A (with_operation op m)"
proof -
  have "same_below A (w_fs w) (w_fs (snd (drop_operation op w)))" for w by (rule drop_operation_same [OF P ap])
  then have "unseen A (w_fs w) (w_fs (snd (drop_operation op w)))" for w by (intro same_below_unseen)
  then have "unseen A fs (w_fs (snd (drop_operation op w)))" if "unseen A fs (w_fs w)" for fs w using that unseen_trans by blast
  with m show ?thesis unfolding harmless_failure_def with_operation_def by (fastforce split: prod.splits)
qed

lemma failed_operation:
  assumes ap: "apart (fo_work_root store) (app_dir store app_id)"
    and m: "\<And>op x. so_path op = fo_work_root store @ [x] \<Longrightarrow> so_app_id op = app_id \<Longrightarrow> harmless_failure (app_dir store app_id) (m op)"
  shows "harmless_failure (app_dir store app_id)
    (io_bind (begin_operation_with_revision cd store app_id base resolution minimum) (\<lambda>op. with_operation op (m op)))"
proof (rule harmless_failure_bind [OF harmless_begin [OF ap]])
  fix w op w' assume "begin_operation_with_revision cd store app_id base resolution minimum w = (Inr op, w')"
  then obtain x where "so_app_id op = app_id" "so_path op = fo_work_root store @ [x]" using begin_operation_path by blast
  then show "harmless_failure (app_dir store app_id) (with_operation op (m op))" using failed_with_operation [OF _ ap] m by blast
qed

lemma failed_edits:
  assumes ap: "apart (fo_work_root store) (app_dir store app_id)"
  shows "harmless_failure (app_dir store app_id) (byte_store_write cd store descriptor app_id p contents metadata)"
    and "harmless_failure (app_dir store app_id) (file_store_delete cd store descriptor app_id p)"
    and "harmless_failure (app_dir store app_id) (resolve_to_manifest cd store app_id heads selected identity minimum)"
proof -
  have commit: "harmless_failure (app_dir store app_id) (commit_operation cd store op staged deleted identity)"
    if "so_path op = fo_work_root store @ [x]" "so_app_id op = app_id" for op x staged deleted identity
    using failed_commit [OF that(1)] that(2) ap by simp
  have stage: "harmless_failure (app_dir store app_id) (io_bind (stage_file cd store op p contents metadata) (\<lambda>staged.
      commit_operation cd store op [staged] [] identity))" if "so_path op = fo_work_root store @ [x]" "so_app_id op = app_id" for op x identity
    using commit [OF that] harmless_stage_file that(1) apart_append(1) [OF ap] by (intro harmless_failure_bind) simp_all
  show "harmless_failure (app_dir store app_id) (byte_store_write cd store descriptor app_id p contents metadata)"
    unfolding byte_store_write_def begin_operation_def
    by (rule harmless_failure_bind [OF harmless_io(4)], rule harmless_failure_bind [OF harmless_io(3)])
       (rule failed_operation [OF ap stage])
  show "harmless_failure (app_dir store app_id) (file_store_delete cd store descriptor app_id p)"
    unfolding file_store_delete_def begin_operation_def
    by (rule harmless_failure_bind [OF harmless_io(3)], rule harmless_failure_bind [OF harmless_io(4)],
        rule harmless_failure_bind [OF harmless_io(3)]) (rule failed_operation [OF ap commit])
  show "harmless_failure (app_dir store app_id) (resolve_to_manifest cd store app_id heads selected identity minimum)"
    unfolding resolve_to_manifest_def
    by (rule harmless_failure_bind [OF harmless_io(3)])+ (rule failed_operation [OF ap commit])
qed

end
