(* ===== verification/Local_Properties.thy ===== *)
theory Local_Properties
  imports Local_Samples Local_Failure
begin

text \<open>
  The properties of the local save repository, each with an evaluated instance on the example repository.
\<close>

section \<open>Definitions\<close>

text \<open>Following a path from a base directory: the components entered, or nothing if it leaves the base.\<close>

fun walk :: "string list \<Rightarrow> string list \<Rightarrow> string list option" where
  "walk [] stack = Some (rev stack)"
| "walk (c # cs) stack =
     (if c = [] \<or> c = ''.'' then walk cs stack
      else if c = ''..'' then (case stack of [] \<Rightarrow> None | _ # below \<Rightarrow> walk cs below)
      else walk cs (c # stack))"

lemma walk_length: "walk cs stack = Some xs \<Longrightarrow> length xs \<le> length cs + length stack"
proof (induction cs stack rule: walk.induct)
  case (2 c cs stack)
  then show ?case by (force split: if_splits list.splits)
qed auto

lemma walk_plain: "\<not> list_ex (\<lambda>c. c = [] \<or> c = ''.'' \<or> c = ''..'') cs \<Longrightarrow> walk cs stack = Some (rev stack @ cs)"
  by (induction cs arbitrary: stack) auto

lemma walk_shrinks:
  "list_ex (\<lambda>c. c = [] \<or> c = ''.'' \<or> c = ''..'') cs \<Longrightarrow> walk cs stack = Some xs \<Longrightarrow> length xs < length cs + length stack"
proof (induction cs stack rule: walk.induct)
  case (2 c cs stack)
  show ?case
  proof (cases "c = [] \<or> c = ''.'' \<or> c = ''..''")
    case True
    then consider "walk cs stack = Some xs" | s below where "stack = s # below" "walk cs below = Some xs"
      using 2 by (auto split: if_splits list.splits)
    then show ?thesis by cases (auto dest: walk_length)
  next
    case False
    then have "length xs < length cs + length (c # stack)" using 2 by auto
    then show ?thesis by simp
  qed
qed simp

lemma split_on_slash: "starts_with p ''/'' \<Longrightarrow> list_ex (\<lambda>c. c = [] \<or> c = ''.'' \<or> c = ''..'') (split_on CHR ''/'' p)"
  by (cases p) (auto simp: starts_with_def)

section \<open>Properties\<close>

text \<open>C1: The local store refines a map from paths to bytes: a sequence of writes and deletes that all
  succeed changes what reads return exactly as the same updates change a map.  Each edit is the whole
  chain of the code: resolve the heads, begin an operation, link the old blobs, stage the new bytes, prune,
  verify, publish by rename, drop the operation; a write that changes nothing publishes nothing.\<close>

theorem edits_refine_map:
  assumes "run_edits (store_edit cd store descriptor app_id) (editable cd store app_id) edits w = Some w'"
  shows "contents_of cd store app_id (w_fs w') = fold apply_edit edits (contents_of cd store app_id (w_fs w))"
  using assms by (rule local_files.run_contents)

theorem edits_refine_map_witness:
  "run_edits (store_edit (sample_codec [(sample_saved, [1])]) sample_store sample_device 10)
     (editable (sample_codec [(sample_saved, [1])]) sample_store 10) [sample_put] (sample_world []) = Some sample_after_put
   \<and> contents_of (sample_codec [(sample_saved, [1])]) sample_store 10 (w_fs sample_after_put) ''a.sav'' = Some [1, 2]"
proof -
  have run: "run_edits (store_edit (sample_codec [(sample_saved, [1])]) sample_store sample_device 10)
     (editable (sample_codec [(sample_saved, [1])]) sample_store 10) [sample_put] (sample_world []) = Some sample_after_put"
    by (simp add: sample_editable sample_put_run)
  have "contents_of (sample_codec [(sample_saved, [1])]) sample_store 10 (w_fs sample_after_put) ''a.sav'' = Some [1, 2]"
    using edits_refine_map [OF run] by (simp add: sample_put_def)
  with run show ?thesis by (rule conjI)
qed

text \<open>C26: Resolving a conflict in favour of one manifest leaves exactly one head.  It has the files of the
  selected manifest, names all the conflicting heads as its parents, and its revision is greater than
  every revision in the repository and than the requested minimum.\<close>

theorem resolve_to_manifest_one_head:
  assumes codec: "manifest_codec cd" and ap: "apart (fo_work_root store) (app_dir store app_id)"
    and fresh: "fresh_operation store w" and res: "resolve_app cd store app_id (w_fs w) = Inr r"
    and room: "length (ra_manifests r) < MAX_MANIFEST_OBJECTS" and un: "unreferenced_digests cd r"
    and run: "resolve_to_manifest cd store app_id expected selected identity minimum w = (Inr revision, w')"
  shows "\<exists>i m s. resolve_app cd store app_id (w_fs w') =
        Inr \<lparr>ra_manifests = bt_insert i m (ra_manifests r), ra_heads = [i], ra_max_revision = revision\<rparr>
    \<and> map_of (ra_manifests r) selected = Some s \<and> sm_files m = sm_files s
    \<and> sm_parents m = ra_heads r \<and> 2 \<le> length (ra_heads r)
    \<and> ra_max_revision r < revision \<and> minimum < revision"
proof -
  obtain hs op w1 w2 where op: "begin_operation_with_revision cd store app_id [selected] (Some hs) minimum w = (Inr op, w1)"
    and cm: "commit_operation cd store op [] [] identity w1 = (Inr revision, w2)" and w': "w' = snd (drop_operation op w2)"
    using run by (auto simp: resolve_to_manifest_def io_bind_Inr with_operation_Inr)
  obtain base' hs' sel bs where b: "normalized_head_ids [selected] = Inr base'"
    "operation_base r base' (Some hs') = Inr (so_parents op, sel, so_original_files op, so_force_publish op)"
    "so_app_id op = app_id" "so_minimum_revision op = minimum" "begun store op sel bs w1"
    "same_below (app_dir store app_id) (w_fs w) (w_fs w1)"
    using begin_operation_Inr [OF op ap fresh] res by auto
  have base: "base' = [selected]" using b(1) by (auto simp: normalized_head_ids_def Let_def split: if_splits)
  obtain s where s: "map_of (ra_manifests r) selected = Some s" "so_original_files op = sm_files s" "so_force_publish op"
    "so_parents op = ra_heads r" "2 \<le> length (ra_heads r)"
    using b(2) by (auto simp: operation_base_def base rbind_eq_Inr split: list.splits)
  have res1: "resolve_app cd store (so_app_id op) (w_fs w1) = Inr r" using resolve_app_cong [OF b(6)] res b(3) by simp
  have ap1: "apart (fo_work_root store) (app_dir store (so_app_id op))" using ap b(3) by simp
  have none: "remove_deleted [] (so_original_files op) = Inr (so_original_files op)"
    "insert_staged [] (so_original_files op) = Inr (so_original_files op)"
    by (simp_all add: remove_deleted_def insert_staged_def)
  from commit_publishes [OF codec ap1 res1 b(5) s(4) room cm none] s(3)
  obtain bs' i m where p: "published cd store app_id r bs' i m (w_fs w2)" "sm_files m = so_original_files op"
    "sm_revision m = revision" "max (ra_max_revision r) minimum < revision" unfolding b(3,4) by blast
  obtain x where "so_path op = fo_work_root store @ [x]" using b(5) by (auto simp: begun_def)
  from resolve_app_cong [OF drop_operation_same [OF this ap]]
  have "resolve_app cd store app_id (w_fs w') = Inr \<lparr>ra_manifests = bt_insert i m (ra_manifests r), ra_heads = [i], ra_max_revision = revision\<rparr>"
    using published_heads [OF p(1) un] p(3) by (simp add: w')
  moreover have "ra_max_revision r < revision" "sm_parents m = ra_heads r" using p(1,3) by (auto simp: published_def)
  moreover have "minimum < revision" using p(4) by simp
  ultimately show ?thesis using s p(2) by (intro exI [of _ i] exI [of _ m] exI [of _ s]) simp
qed

theorem resolve_to_manifest_one_head_witness:
  "\<exists>i m s. resolve_app sample_conflict_codec sample_store 10 (w_fs (snd
          (resolve_to_manifest sample_conflict_codec sample_store 10 [sample_hash 1, sample_hash 3] (sample_hash 1)
             sample_identity 5 sample_conflict))) =
        Inr \<lparr>ra_manifests = bt_insert i m (ra_manifests sample_conflict_app), ra_heads = [i], ra_max_revision = 6\<rparr>
    \<and> map_of (ra_manifests sample_conflict_app) (sample_hash 1) = Some s \<and> sm_files m = sm_files s
    \<and> sm_parents m = ra_heads sample_conflict_app \<and> 2 \<le> length (ra_heads sample_conflict_app)
    \<and> ra_max_revision sample_conflict_app < 6 \<and> (5 :: u64) < 6"
proof (rule resolve_to_manifest_one_head)
  show "manifest_codec sample_conflict_codec" by (simp add: sample_conflict_codec_def sample_codec_ok)
  show "fresh_operation sample_store sample_conflict" by (simp add: sample_conflict_def sample_fresh)
  show "resolve_app sample_conflict_codec sample_store 10 (w_fs sample_conflict) = Inr sample_conflict_app"
    by (rule sample_conflict_facts)
  show "length (ra_manifests sample_conflict_app) < MAX_MANIFEST_OBJECTS"
    by (simp add: sample_conflict_app_def MAX_MANIFEST_OBJECTS_def)
  show "unreferenced_digests sample_conflict_codec sample_conflict_app"
    by (rule sample_unreferenced) (simp add: sample_conflict_app_def parent_ids_def sample_saved_def sample_empty_def sample_manifest_def)
  show "resolve_to_manifest sample_conflict_codec sample_store 10 [sample_hash 1, sample_hash 3] (sample_hash 1) sample_identity 5 sample_conflict
      = (Inr 6, snd (resolve_to_manifest sample_conflict_codec sample_store 10 [sample_hash 1, sample_hash 3] (sample_hash 1)
          sample_identity 5 sample_conflict))"
    by (rule run_result [OF sample_conflict_facts(2)])
qed (rule sample_apart)

text \<open>C25: Of two uploads that began from the same heads, the first to commit a change wins: the commit of the
  other fails with a conflict, which can be retried, and changes nothing.\<close>

theorem racing_commit_conflicts:
  assumes "manifest_codec cd" and "apart (fo_work_root store) (app_dir store (so_app_id op1))"
    and res: "resolve_app cd store (so_app_id op1) (w_fs w) = Inr r" and "begun store op1 selected bs w"
    and "so_parents op1 = ra_heads r" and "length (ra_manifests r) < MAX_MANIFEST_OBJECTS" and un: "unreferenced_digests cd r"
    and "commit_operation cd store op1 staged deleted identity w = (Inr revision, w')"
    and "remove_deleted deleted (so_original_files op1) = Inr f1" and "insert_staged staged f1 = Inr files"
    and "files \<noteq> so_original_files op1 \<or> so_force_publish op1"
    and same: "so_app_id op2 = so_app_id op1" "so_expected_heads op2 = ra_heads r"
    and ok: "validate_operation store op2 = Inr ()" "validate_identity identity2 = Inr ()" "\<not> operation_closed op2 w'"
  shows "commit_operation cd store op2 staged2 deleted2 identity2 w'
    = (Inl (conflict ''local cloud changed after the upload batch began''), w')"
proof -
  obtain bs' i m where p: "published cd store (so_app_id op1) r bs' i m (w_fs w')"
    using commit_publishes [OF assms(1-6,8-11)] by blast
  have res': "resolve_app cd store (so_app_id op2) (w_fs w') =
      Inr \<lparr>ra_manifests = bt_insert i m (ra_manifests r), ra_heads = [i], ra_max_revision = sm_revision m\<rparr>"
    using published_heads [OF p un] same(1) by simp
  have "i \<notin> set (ra_heads r)" using heads_have_manifests [OF res] p by (force simp: published_def)
  then have "[i] \<noteq> so_expected_heads op2" using same(2) by (metis list.set_intros(1))
  moreover have "lock_app (so_app_id op2) = Inr ()" using res' by (auto simp: lock_app_def resolve_app_Inr validate_app_id_def)
  ultimately show ?thesis
    using ok res' by (simp add: commit_operation_def io_bind_def io_lift_def ensure_open_def io_read_def)
qed



theorem racing_commit_conflicts_witness:
  "let cd = sample_codec [(sample_saved, [1])];
       w' = snd (commit_operation cd sample_store (sample_operation ''one'') [sample_staged] [] sample_identity sample_race) in
   commit_operation cd sample_store (sample_operation ''two'') [] [] sample_identity w'
     = (Inl (conflict ''local cloud changed after the upload batch began''), w')"
  unfolding Let_def
proof (rule racing_commit_conflicts)
  let ?w = "commit_operation (sample_codec [(sample_saved, [1])]) sample_store (sample_operation ''one'') [sample_staged] [] sample_identity sample_race"
  show "manifest_codec (sample_codec [(sample_saved, [1])])" by (rule sample_codec_ok) simp
  show "apart (fo_work_root sample_store) (app_dir sample_store (so_app_id (sample_operation ''one'')))"
    using sample_apart by (simp add: sample_operation_def)
  show "resolve_app (sample_codec [(sample_saved, [1])]) sample_store (so_app_id (sample_operation ''one'')) (w_fs sample_race)
      = Inr \<lparr>ra_manifests = [], ra_heads = [], ra_max_revision = 0\<rparr>"
    by (simp add: sample_operation_def sample_race_resolve)
  show "begun sample_store (sample_operation ''one'') None sample_blobs sample_race" by (rule sample_race_begun)
  show "?w = (Inr 1, snd ?w)" using sample_race_first by (intro run_result) (auto split: prod.splits)
  show "\<not> operation_closed (sample_operation ''two'') (snd ?w)"
    using sample_race_first by (auto simp: operation_closed_def sample_operation_def split: prod.splits)
  show "remove_deleted [] (so_original_files (sample_operation ''one'')) = Inr []"
    by (simp add: remove_deleted_def sample_operation_def)
  show "unreferenced_digests (sample_codec [(sample_saved, [1])]) \<lparr>ra_manifests = [], ra_heads = [], ra_max_revision = 0\<rparr>"
    by (rule sample_unreferenced) (simp add: parent_ids_def)
qed (simp_all add: sample_race_ok, simp_all add: sample_operation_def MAX_MANIFEST_OBJECTS_def)

text \<open>C29: The path check accepts exactly the paths that are not empty, at most 4096 bytes long, free of NUL and
  backslash, and that enter every one of their components: following an accepted path from a base
  directory never leaves it and never skips a component.\<close>

theorem validate_cloud_path_confined:
  "validate_cloud_path p = Inr () \<longleftrightarrow>
     p \<noteq> [] \<and> length p \<le> 4096 \<and> CHR 0x00 \<notin> set p \<and> CHR 0x5C \<notin> set p
     \<and> walk (split_on CHR ''/'' p) [] = Some (split_on CHR ''/'' p)"
proof -
  have "walk (split_on CHR ''/'' p) [] = Some (split_on CHR ''/'' p)
      \<longleftrightarrow> \<not> list_ex (\<lambda>c. c = [] \<or> c = ''.'' \<or> c = ''..'') (split_on CHR ''/'' p)"
    using walk_plain [of "split_on CHR ''/'' p" "[]"] walk_shrinks [of "split_on CHR ''/'' p" "[]"] by fastforce
  then show ?thesis
    using split_on_slash [of p] by (auto simp: validate_cloud_path_def MAX_CLOUD_PATH_BYTES_def rbind_eq_Inr)
qed

text \<open>C28: Two open repositories never disturb each other's work directory, and the destructor of a coordination
  never removes the directory of a live one, however opening, releasing and destroying interleave: in every
  reachable state a live handle's work directory exists, all live handles of a root share one
  coordination, and opening the root again finds it.\<close>

theorem coordination_work_directory:
  assumes "coordination_reachable cd roots (w, due)" and "separate_roots cd roots" and "(root, i) \<in> set (w_strong w)"
  shows "fs_is_dir (w_fs w) (work_root_of cd root) \<and> upgrade root w = Some i \<and> (\<forall>j. (root, j) \<in> set (w_strong w) \<longrightarrow> j = i)"
proof -
  have inv: "coordination_inv cd roots (w, due)" using assms(1,2) by (rule coordination_reachable_inv)
  from coordination_invD(1) [OF inv assms(3)] coordination_invD(1) [OF inv] show ?thesis
    using assms(3) by (fastforce simp: upgrade_def opt_filter_def)
qed

theorem coordination_work_directory_witness:
  "let w = snd (repository_coordination (sample_codec []) [''r''] (sample_world [])) in
   fs_is_dir (w_fs w) (work_root_of (sample_codec []) [''r'']) \<and> upgrade [''r''] w = Some 0
   \<and> (\<forall>j. ([''r''], j) \<in> set (w_strong w) \<longrightarrow> j = 0)"
  unfolding Let_def
proof (rule coordination_work_directory)
  let ?s = "repository_coordination (sample_codec []) [''r''] (sample_world [])"
  have "coordination_reachable (sample_codec []) {[''r'']} (sample_world [], [])"
    by (rule coordination_reachable.start) (simp_all add: sample_world_def)
  then show "coordination_reachable (sample_codec []) {[''r'']} (snd ?s, [])"
    by (rule coordination_reachable.step) (rule coordination_step.open_root [of "[''r'']" _ _ _ "fst ?s"], simp_all)
  show "separate_roots (sample_codec []) {[''r'']}" by (simp add: separate_roots_def)
  show "([''r''], 0) \<in> set (w_strong (snd ?s))" by (simp add: sample_opening)
qed





end
