(* ===== verification/Steam_Schema.thy ===== *)
theory Steam_Schema
  imports VF_Prelude
begin

text \<open>
  The binary KeyValues parser for achievement schemas (\<open>crates/steam-protocol/src/lib.rs\<close>): the parser's
  cursor, its recursive \<open>object\<close> method and the two readers that turn a schema into wire
  identifiers.  A \<open>HashMap\<close> is the list of its entries; where the code iterates over one, the order is a
  parameter \<open>iter\<close> that permutes the entries.  \<open>w\<close> is the width of \<open>usize\<close>.
\<close>

section \<open>Values and errors\<close>

datatype schema_error = Truncated | InvalidUtf8 | UnsupportedType u8 | LimitExceeded | MissingRoot

definition ACHIEVEMENT_SCHEMA_MAX_DEPTH :: nat where "ACHIEVEMENT_SCHEMA_MAX_DEPTH = 32"
definition ACHIEVEMENT_SCHEMA_MAX_ENTRIES :: nat where "ACHIEVEMENT_SCHEMA_MAX_ENTRIES = 100000"

datatype schema_node = SObject "(string \<times> schema_node) list" | SString string | SInt int | SOther

type_synonym schema_map = "(string \<times> schema_node) list"

fun value_object :: "schema_node \<Rightarrow> schema_map option" where
  "value_object (SObject m) = Some m"
| "value_object _ = None"

fun value_string :: "schema_node \<Rightarrow> string option" where
  "value_string (SString s) = Some s"
| "value_string _ = None"

fun value_int :: "schema_node \<Rightarrow> int option" where
  "value_int (SInt i) = Some i"
| "value_int _ = None"

text \<open>\<open>HashMap::insert\<close>: a later value replaces an earlier one.\<close>

fun hm_insert :: "'k \<Rightarrow> 'v \<Rightarrow> ('k \<times> 'v) list \<Rightarrow> ('k \<times> 'v) list" where
  "hm_insert k v [] = [(k, v)]"
| "hm_insert k v (e # m) = (if fst e = k then (k, v) # m else e # hm_insert k v m)"

section \<open>The parser\<close>

record schema_parser =
  sp_position :: nat
  sp_entries :: nat

definition schema_parser_new :: schema_parser where
  "schema_parser_new = \<lparr>sp_position = 0, sp_entries = 0\<rparr>"

definition parser_byte :: "bytes \<Rightarrow> schema_parser \<Rightarrow> schema_error + (u8 \<times> schema_parser)" where
  "parser_byte bs st =
     (if sp_position st < length bs then Inr (bs ! sp_position st, st\<lparr>sp_position := sp_position st + 1\<rparr>)
      else Inl Truncated)"

definition parser_take :: "nat \<Rightarrow> bytes \<Rightarrow> nat \<Rightarrow> schema_parser \<Rightarrow> schema_error + (bytes \<times> schema_parser)" where
  "parser_take w bs n st =
     rbind (ok_or LimitExceeded (usize_checked_add w (sp_position st) n)) (\<lambda>end_position.
     if end_position \<le> length bs
     then Inr (take n (drop (sp_position st) bs), st\<lparr>sp_position := end_position\<rparr>)
     else Inl Truncated)"

definition parser_cstring :: "bytes \<Rightarrow> schema_parser \<Rightarrow> schema_error + (string \<times> schema_parser)" where
  "parser_cstring bs st =
     (if length bs < sp_position st then Inl Truncated
      else let rest = drop (sp_position st) bs; n = length (takeWhile (\<lambda>b. b \<noteq> 0) rest) in
        if n = length rest then Inl Truncated
        else if \<not> utf8_valid (take n rest) then Inl InvalidUtf8
        else Inr (string_of_bytes (take n rest), st\<lparr>sp_position := sp_position st + (n + 1)\<rparr>))"

definition i32_from_le_bytes :: "bytes \<Rightarrow> int" where
  "i32_from_le_bytes bs = sint (u32_from_le_bytes bs)"

text \<open>The values of the kinds other than objects.\<close>

definition parser_scalar :: "nat \<Rightarrow> bytes \<Rightarrow> u8 \<Rightarrow> schema_parser \<Rightarrow> schema_error + (schema_node \<times> schema_parser)" where
  "parser_scalar w bs kind st =
     (if kind = 1 then rbind (parser_cstring bs st) (\<lambda>(s, st). Inr (SString s, st))
      else if kind = 2 then rbind (parser_take w bs 4 st) (\<lambda>(v, st). Inr (SInt (i32_from_le_bytes v), st))
      else if kind = 3 \<or> kind = 4 \<or> kind = 6 then rbind (parser_take w bs 4 st) (\<lambda>(_, st). Inr (SOther, st))
      else if kind = 5 then rbind (parser_take w bs 2 st) (\<lambda>(v, st).
             rbind (parser_take w bs (min (2 ^ w - 1) (unat (u16_from_le_bytes v) * 2)) st) (\<lambda>(_, st). Inr (SOther, st)))
      else if kind = 7 then rbind (parser_take w bs 8 st) (\<lambda>(v, st). Inr (SInt (sint (u64_from_le_bytes v)), st))
      else Inl (UnsupportedType kind))"

lemma rbind_fundef_cong [fundef_cong]:
  "m = m' \<Longrightarrow> (\<And>x. m' = Inr x \<Longrightarrow> f x = g x) \<Longrightarrow> rbind m f = rbind m' g"
  by (cases m') simp_all

lemma parser_byte_Inr:
  "parser_byte bs st = Inr (b, st') \<longleftrightarrow>
     sp_position st < length bs \<and> b = bs ! sp_position st \<and> st' = st\<lparr>sp_position := Suc (sp_position st)\<rparr>"
  by (auto simp: parser_byte_def)

lemma parser_cstring_position:
  "parser_cstring bs st = Inr (s, st') \<Longrightarrow>
     sp_position st < sp_position st' \<and> sp_position st' \<le> length bs \<and> sp_entries st' = sp_entries st"
proof -
  assume run: "parser_cstring bs st = Inr (s, st')"
  let ?r = "drop (sp_position st) bs" and ?n = "length (takeWhile (\<lambda>b. b \<noteq> 0) (drop (sp_position st) bs))"
  have "?n \<noteq> length ?r" "\<not> length bs < sp_position st" "st' = st\<lparr>sp_position := sp_position st + (?n + 1)\<rparr>"
    using run by (auto simp: parser_cstring_def Let_def split: if_splits)
  moreover have "?n \<le> length ?r" by (rule length_takeWhile_le)
  ultimately show ?thesis by auto
qed

lemma parser_take_position:
  "parser_take w bs n st = Inr (v, st') \<Longrightarrow>
     sp_position st' = sp_position st + n \<and> sp_position st' \<le> length bs \<and> sp_entries st' = sp_entries st"
  by (auto simp: parser_take_def rbind_eq_Inr usize_checked_add_def split: if_splits)

lemma parser_scalar_position:
  assumes "parser_scalar w bs kind st = Inr (v, st')"
  shows "sp_position st \<le> sp_position st' \<and> sp_position st' \<le> length bs \<and> sp_entries st' = sp_entries st"
  using assms
  by (auto simp: parser_scalar_def rbind_eq_Inr dest!: parser_take_position parser_cstring_position split: if_splits)

function parser_object ::
    "nat \<Rightarrow> bytes \<Rightarrow> nat \<Rightarrow> schema_parser \<Rightarrow> schema_error + (schema_map \<times> schema_parser)"
  and parser_entries ::
    "nat \<Rightarrow> bytes \<Rightarrow> nat \<Rightarrow> schema_map \<Rightarrow> schema_parser \<Rightarrow> schema_error + (schema_map \<times> schema_parser)" where
  "parser_object w bs depth st =
     (if ACHIEVEMENT_SCHEMA_MAX_DEPTH < depth then Inl LimitExceeded else parser_entries w bs depth [] st)"
| "parser_entries w bs depth result st =
     rbind (parser_byte bs st) (\<lambda>(kind, st).
     if kind = 8 then Inr (result, st)
     else if ACHIEVEMENT_SCHEMA_MAX_ENTRIES < Suc (sp_entries st) then Inl LimitExceeded
     else rbind (parser_cstring bs (st\<lparr>sp_entries := Suc (sp_entries st)\<rparr>)) (\<lambda>(key, st).
       rbind (if kind = 0 then rbind (parser_object w bs (Suc depth) st) (\<lambda>(m, st). Inr (SObject m, st))
              else parser_scalar w bs kind st) (\<lambda>(v, st).
         parser_entries w bs depth (hm_insert key v result) st)))"
  by pat_completeness auto

lemma parser_progress:
  "parser_object_parser_entries_dom (Inl (w, bs, depth, st)) \<Longrightarrow>
     (\<And>m st'. parser_object w bs depth st = Inr (m, st') \<Longrightarrow> sp_position st < sp_position st' \<and> sp_position st' \<le> length bs)"
  "parser_object_parser_entries_dom (Inr (w, bs, depth, result, st)) \<Longrightarrow>
     (\<And>m st'. parser_entries w bs depth result st = Inr (m, st') \<Longrightarrow> sp_position st < sp_position st' \<and> sp_position st' \<le> length bs)"
proof (induction w bs depth st and w bs depth result st rule: parser_object_parser_entries.pinduct)
  case (1 w bs depth st)
  then show ?case by (auto simp: parser_object.psimps split: if_splits)
next
  case (2 w bs depth result st)
  from 2(4) obtain kind st1 where k: "parser_byte bs st = Inr (kind, st1)" 
    by (auto simp: parser_entries.psimps [OF 2(1)] rbind_eq_Inr)
  have st1: "st1 = st\<lparr>sp_position := Suc (sp_position st)\<rparr>" "sp_position st < length bs" using k by (auto simp: parser_byte_Inr)
  show ?case
  proof (cases "kind = 8")
    case True
    then show ?thesis using 2(4) k st1 by (auto simp: parser_entries.psimps [OF 2(1)])
  next
    case False
    let ?st = "st1\<lparr>sp_entries := Suc (sp_entries st1)\<rparr>"
    have lim: "\<not> ACHIEVEMENT_SCHEMA_MAX_ENTRIES < Suc (sp_entries st1)"
      using 2(4) k False by (auto simp: parser_entries.psimps [OF 2(1)])
    obtain key st2 v st3 where key: "parser_cstring bs ?st = Inr (key, st2)"
      and v: "(if kind = 0 then rbind (parser_object w bs (Suc depth) st2) (\<lambda>(m, st). Inr (SObject m, st)) else parser_scalar w bs kind st2) = Inr (v, st3)"
      and rest: "parser_entries w bs depth (hm_insert key v result) st3 = Inr (m, st')"
      using 2(4) k False lim by (simp add: parser_entries.psimps [OF 2(1)] rbind_eq_Inr split_paired_Ex) blast
    have p2: "sp_position st1 < sp_position st2" using parser_cstring_position [OF key] by simp
    have "sp_position st2 \<le> sp_position st3"
    proof (cases "kind = 0")
      case True
      then obtain m' where "parser_object w bs (Suc depth) st2 = Inr (m', st3)" using v by (auto simp: rbind_eq_Inr)
      then show ?thesis using 2(2) [OF k refl False lim key refl True] by force
    next
      case f: False
      then show ?thesis using v parser_scalar_position by force
    qed
    moreover have "sp_position st3 < sp_position st' \<and> sp_position st' \<le> length bs"
      using 2(3) [OF k refl False lim key refl v refl rest] .
    ultimately show ?thesis using p2 st1 by simp
  qed
qed

termination parser_object
proof (relation "measure (\<lambda>x. case x of Inl (w, bs, depth, st) \<Rightarrow> 2 * (length bs - sp_position st) + 1
     | Inr (w, bs, depth, result, st) \<Rightarrow> 2 * (length bs - sp_position st))", goal_cases)
  case (3 w bs depth result st x kind st1 y key st2)
  then have "sp_position st < length bs" "sp_position st < sp_position st2"
    by (auto simp: parser_byte_Inr dest!: parser_cstring_position)
  then show ?case by simp
next
  case (4 w bs depth result st x kind st1 y key st2 z v st3)
  then have p: "sp_position st < length bs" "sp_position st < sp_position st2"
    by (auto simp: parser_byte_Inr dest!: parser_cstring_position)
  have "sp_position st2 \<le> sp_position st3"
    using 4 parser_progress(1) by (force simp: rbind_eq_Inr dest!: parser_scalar_position split: if_splits)
  with p show ?case by simp
qed simp_all

declare parser_object.simps [simp del] parser_entries.simps [simp del]

definition parse_achievement_schema_root :: "nat \<Rightarrow> bytes \<Rightarrow> schema_error + schema_map" where
  "parse_achievement_schema_root w bs =
     rbind (parser_byte bs schema_parser_new) (\<lambda>(kind, st).
     if kind \<noteq> 0 then Inl MissingRoot
     else rbind (parser_cstring bs st) (\<lambda>(_, st).
          rbind (parser_object w bs 0 st) (\<lambda>(m, _). Inr m)))"

definition schema_stats :: "schema_map \<Rightarrow> schema_error + schema_map" where
  "schema_stats root = ok_or MissingRoot (opt_bind (map_of root ''stats'') value_object)"

section \<open>Wire identifiers\<close>

record achievement_bit_mapping =
  abm_stat_id :: u32
  abm_achievement_bit :: u32
  abm_key :: string

record stat_mapping =
  smp_stat_id :: u32
  smp_key :: string
  smp_value_type :: "int option"

definition nonblank :: "string option \<Rightarrow> string option" where
  "nonblank s = opt_filter (\<lambda>key. trim key \<noteq> []) s"

definition bit_mapping :: "u32 \<Rightarrow> string \<times> schema_node \<Rightarrow> achievement_bit_mapping list" where
  "bit_mapping stat_id = (\<lambda>(bit_key, achievement).
     case parse_u32 bit_key of None \<Rightarrow> []
     | Some achievement_bit \<Rightarrow>
         (case nonblank (opt_bind (opt_bind (value_object achievement) (\<lambda>a. map_of a ''name'')) value_string) of
            None \<Rightarrow> []
          | Some key \<Rightarrow> [\<lparr>abm_stat_id = stat_id, abm_achievement_bit = achievement_bit, abm_key = key\<rparr>]))"

definition stat_bit_mappings ::
  "(schema_map \<Rightarrow> schema_map) \<Rightarrow> string \<times> schema_node \<Rightarrow> achievement_bit_mapping list" where
  "stat_bit_mappings iter = (\<lambda>(stat_key, stat).
     case parse_u32 stat_key of None \<Rightarrow> []
     | Some stat_id \<Rightarrow>
         (case opt_bind (opt_bind (value_object stat) (\<lambda>s. map_of s ''bits'')) value_object of
            None \<Rightarrow> []
          | Some bits \<Rightarrow> concat (map (bit_mapping stat_id) (iter bits))))"

definition parse_achievement_bit_mappings ::
  "nat \<Rightarrow> (schema_map \<Rightarrow> schema_map) \<Rightarrow> bytes \<Rightarrow> schema_error + achievement_bit_mapping list" where
  "parse_achievement_bit_mappings w iter bs =
     rbind (parse_achievement_schema_root w bs) (\<lambda>root.
     rbind (schema_stats root) (\<lambda>stats.
     Inr (sort_key (\<lambda>m. (abm_stat_id m, abm_achievement_bit m)) (concat (map (stat_bit_mappings iter) (iter stats))))))"

definition stat_mapping_of :: "string \<times> schema_node \<Rightarrow> stat_mapping list" where
  "stat_mapping_of = (\<lambda>(stat_key, stat).
     case parse_u32 stat_key of None \<Rightarrow> []
     | Some stat_id \<Rightarrow>
         (case value_object stat of None \<Rightarrow> []
          | Some stat \<Rightarrow>
              if map_of stat ''bits'' \<noteq> None then []
              else case nonblank (opt_bind (map_of stat ''name'') value_string) of
                     None \<Rightarrow> []
                   | Some key \<Rightarrow>
                       [\<lparr>smp_stat_id = stat_id, smp_key = key,
                         smp_value_type = opt_or (opt_bind (map_of stat ''type'') value_int)
                                                 (opt_bind (map_of stat ''display'') value_int)\<rparr>]))"

definition parse_stat_mappings ::
  "nat \<Rightarrow> (schema_map \<Rightarrow> schema_map) \<Rightarrow> bytes \<Rightarrow> schema_error + stat_mapping list" where
  "parse_stat_mappings w iter bs =
     rbind (parse_achievement_schema_root w bs) (\<lambda>root.
     rbind (schema_stats root) (\<lambda>stats.
     Inr (sort_key smp_stat_id (concat (map stat_mapping_of (iter stats))))))"

section \<open>Writing schemas\<close>

text \<open>The format that the parser reads, as a writer: the specification that parsing inverts.\<close>

definition write_cstring :: "string \<Rightarrow> bytes" where
  "write_cstring s = as_bytes s @ [0]"

fun write_entries :: "schema_map \<Rightarrow> bytes" where
  "write_entries [] = [8]"
| "write_entries ((k, SObject m) # es) = 0 # write_cstring k @ write_entries m @ write_entries es"
| "write_entries ((k, SString s) # es) = 1 # write_cstring k @ write_cstring s @ write_entries es"
| "write_entries ((k, SInt i) # es) =
     (if - (2 ^ 31) \<le> i \<and> i < 2 ^ 31 then 2 # write_cstring k @ u32_to_le_bytes (word_of_int i)
      else 7 # write_cstring k @ u64_to_le_bytes (word_of_int i)) @ write_entries es"
| "write_entries ((k, SOther) # es) = 3 # write_cstring k @ [0, 0, 0, 0] @ write_entries es"

definition write_root :: "string \<Rightarrow> schema_map \<Rightarrow> bytes" where
  "write_root name m = 0 # write_cstring name @ write_entries m"

fun schema_count :: "schema_map \<Rightarrow> nat" where
  "schema_count [] = 0"
| "schema_count ((_, SObject m) # es) = Suc (schema_count m + schema_count es)"
| "schema_count (_ # es) = Suc (schema_count es)"

fun schema_depth :: "schema_map \<Rightarrow> nat" where
  "schema_depth [] = 0"
| "schema_depth ((_, SObject m) # es) = max (Suc (schema_depth m)) (schema_depth es)"
| "schema_depth (_ # es) = schema_depth es"

definition writable_text :: "string \<Rightarrow> bool" where
  "writable_text s \<longleftrightarrow> utf8_valid (as_bytes s) \<and> 0 \<notin> set (as_bytes s)"

fun writable :: "schema_map \<Rightarrow> bool" where
  "writable [] = True"
| "writable ((k, v) # es) \<longleftrightarrow> writable_text k \<and> k \<notin> fst ` set es \<and> writable es
     \<and> (case v of SObject m \<Rightarrow> writable m | SString s \<Rightarrow> writable_text s | SInt i \<Rightarrow> is_i64 i | SOther \<Rightarrow> True)"

section \<open>What the parser accepts\<close>

lemma schema_depth_insert:
  "schema_depth (hm_insert k v m) \<le> max (case v of SObject o' \<Rightarrow> Suc (schema_depth o') | _ \<Rightarrow> 0) (schema_depth m)"
proof (induction k v m rule: hm_insert.induct)
  case (1 k v)
  then show ?case by (cases v) auto
next
  case (2 k v e m)
  obtain k' u where e: "e = (k', u)" by fastforce
  show ?case
  proof (cases "k' = k")
    case True
    then show ?thesis by (cases v; cases u) (auto simp: e)
  next
    case False
    then have "schema_depth (hm_insert k v m) \<le> max (case v of SObject o' \<Rightarrow> Suc (schema_depth o') | _ \<Rightarrow> 0) (schema_depth m)"
      using 2 by (simp add: e)
    then show ?thesis using False by (cases u) (auto simp: e)
  qed
qed

text \<open>One round of the parser's loop.\<close>

lemma parser_entries_cases:
  assumes run: "parser_entries w bs depth result st = Inr (m, st')"
  obtains (stop) "sp_position st < length bs" "m = result" "st' = st\<lparr>sp_position := Suc (sp_position st)\<rparr>"
  | (nested) key st2 o' st3 where "sp_position st < length bs" "Suc (sp_entries st) \<le> ACHIEVEMENT_SCHEMA_MAX_ENTRIES"
      "parser_cstring bs (st\<lparr>sp_position := Suc (sp_position st), sp_entries := Suc (sp_entries st)\<rparr>) = Inr (key, st2)"
      "Suc depth \<le> ACHIEVEMENT_SCHEMA_MAX_DEPTH" "parser_entries w bs (Suc depth) [] st2 = Inr (o', st3)"
      "parser_entries w bs depth (hm_insert key (SObject o') result) st3 = Inr (m, st')"
  | (scalar) key st2 v st3 where "sp_position st < length bs" "Suc (sp_entries st) \<le> ACHIEVEMENT_SCHEMA_MAX_ENTRIES"
      "parser_cstring bs (st\<lparr>sp_position := Suc (sp_position st), sp_entries := Suc (sp_entries st)\<rparr>) = Inr (key, st2)"
      "parser_scalar w bs (bs ! sp_position st) st2 = Inr (v, st3)" "\<And>o'. v \<noteq> SObject o'"
      "parser_entries w bs depth (hm_insert key v result) st3 = Inr (m, st')"
proof -
  have scalar: "v \<noteq> SObject o'" if "parser_scalar w bs kind s = Inr (v, s')" for kind s v s' o'
    using that by (auto simp: parser_scalar_def rbind_eq_Inr split: if_splits)
  let ?k = "bs ! sp_position st" and ?st = "st\<lparr>sp_position := Suc (sp_position st), sp_entries := Suc (sp_entries st)\<rparr>"
  have k: "parser_byte bs st = Inr (?k, st\<lparr>sp_position := Suc (sp_position st)\<rparr>)" and lt: "sp_position st < length bs"
    using run by (auto simp: parser_entries.simps [of w bs depth result st] rbind_eq_Inr parser_byte_Inr)
  show thesis
  proof (cases "?k = 8")
    case True
    then show ?thesis using run k stop [OF lt] by (simp add: parser_entries.simps [of w bs depth result st])
  next
    case False
    then have lim: "\<not> ACHIEVEMENT_SCHEMA_MAX_ENTRIES < Suc (sp_entries st)"
      using run k by (auto simp: parser_entries.simps [of w bs depth result st])
    obtain key st2 v st3 where key: "parser_cstring bs ?st = Inr (key, st2)"
      and v: "(if ?k = 0 then rbind (parser_object w bs (Suc depth) st2) (\<lambda>(m, st). Inr (SObject m, st)) else parser_scalar w bs ?k st2) = Inr (v, st3)"
      and rest: "parser_entries w bs depth (hm_insert key v result) st3 = Inr (m, st')"
      using run k False lim by (simp add: parser_entries.simps [of w bs depth result st] rbind_eq_Inr split_paired_Ex) blast
    show ?thesis
    proof (cases "?k = 0")
      case True
      then obtain o' where "parser_object w bs (Suc depth) st2 = Inr (o', st3)" "v = SObject o'" using v by (auto simp: rbind_eq_Inr)
      then show ?thesis using nested [OF lt _ key] rest lim by (auto simp: parser_object.simps split: if_splits)
    next
      case f: False
      then have "parser_scalar w bs ?k st2 = Inr (v, st3)" using v by simp
      then show ?thesis using that(3) [OF lt _ key _ scalar rest] lim by simp
    qed
  qed
qed

lemma parser_entries_bounds:
  assumes "parser_entries w bs depth result st = Inr (m, st')" "sp_entries st \<le> ACHIEVEMENT_SCHEMA_MAX_ENTRIES"
    "depth + schema_depth result \<le> ACHIEVEMENT_SCHEMA_MAX_DEPTH"
  shows "sp_position st < sp_position st' \<and> sp_position st' \<le> length bs
     \<and> sp_entries st \<le> sp_entries st' \<and> sp_entries st' \<le> ACHIEVEMENT_SCHEMA_MAX_ENTRIES
     \<and> depth + schema_depth m \<le> ACHIEVEMENT_SCHEMA_MAX_DEPTH"
  using assms
proof (induction "length bs - sp_position st" arbitrary: depth result st m st' rule: less_induct)
  case less
  from less.prems(1) show ?case
  proof (cases rule: parser_entries_cases)
    case stop
    then show ?thesis using less.prems by simp
  next
    case (nested key st2 o' st3)
    have p2: "sp_position st < sp_position st2" "sp_entries st2 = Suc (sp_entries st)"
      using parser_cstring_position [OF nested(3)] by auto
    have in': "sp_position st2 < sp_position st3 \<and> sp_position st3 \<le> length bs
        \<and> sp_entries st2 \<le> sp_entries st3 \<and> sp_entries st3 \<le> ACHIEVEMENT_SCHEMA_MAX_ENTRIES
        \<and> Suc depth + schema_depth o' \<le> ACHIEVEMENT_SCHEMA_MAX_DEPTH"
      using nested(1,2,4) p2 by (intro less.hyps [OF _ nested(5)]) auto
    then have "depth + schema_depth (hm_insert key (SObject o') result) \<le> ACHIEVEMENT_SCHEMA_MAX_DEPTH"
      using schema_depth_insert [of key "SObject o'" result] less.prems(3) by (auto simp: max_def split: if_splits)
    then show ?thesis using less.hyps [OF _ nested(6)] nested(1) p2 in' by fastforce
  next
    case (scalar key st2 v st3)
    have p: "sp_position st < sp_position st2" "sp_entries st2 = Suc (sp_entries st)"
      "sp_position st2 \<le> sp_position st3" "sp_entries st3 = sp_entries st2"
      using parser_cstring_position [OF scalar(3)] parser_scalar_position [OF scalar(4)] by auto
    have "depth + schema_depth (hm_insert key v result) \<le> ACHIEVEMENT_SCHEMA_MAX_DEPTH"
      using schema_depth_insert [of key v result] less.prems(3) scalar(5) by (cases v) auto
    then show ?thesis using less.hyps [OF _ scalar(6)] scalar(1,2) p by fastforce
  qed
qed

section \<open>Reading what was written\<close>

lemma char_byte_inverse [simp]: "byte_char (char_byte c) = c"
  by (simp add: byte_char_def char_byte_def unat_of_nat)

lemma string_of_as_bytes [simp]: "string_of_bytes (as_bytes s) = s"
  by (simp add: string_of_bytes_def as_bytes_def comp_def)

lemma parser_byte_written:
  "parser_byte (pre @ b # post) \<lparr>sp_position = length pre, sp_entries = n\<rparr>
     = Inr (b, \<lparr>sp_position = Suc (length pre), sp_entries = n\<rparr>)"
  by (simp add: parser_byte_def)

lemma takeWhile_written: "0 \<notin> set xs \<Longrightarrow> takeWhile (\<lambda>b. b \<noteq> 0) (xs @ 0 # post) = (xs :: bytes)"
  by (induction xs) auto

lemma parser_cstring_written:
  assumes "writable_text s"
  shows "parser_cstring (pre @ write_cstring s @ post) \<lparr>sp_position = length pre, sp_entries = n\<rparr>
     = Inr (s, \<lparr>sp_position = length pre + length (write_cstring s), sp_entries = n\<rparr>)"
  using assms takeWhile_written [of "as_bytes s" post]
  by (simp add: parser_cstring_def write_cstring_def writable_text_def Let_def)

lemma parser_take_written:
  assumes "length pre + length v < 2 ^ w" "k = length v"
  shows "parser_take w (pre @ v @ post) k \<lparr>sp_position = length pre, sp_entries = n\<rparr>
     = Inr (v, \<lparr>sp_position = length pre + length v, sp_entries = n\<rparr>)"
  using assms by (simp add: parser_take_def usize_checked_add_def)

lemma u64_le_roundtrip: "u64_from_le_bytes (u64_to_le_bytes v) = v"
  using unat_bound [of v] by (simp add: u64_from_le_bytes_def u64_to_le_bytes_def le_nat_le_bytes)

lemma length_u64_to_le_bytes [simp]: "length (u64_to_le_bytes v) = 8"
  by (simp add: u64_to_le_bytes_def)

lemma sint_i32: "- (2 ^ 31) \<le> i \<Longrightarrow> i < 2 ^ 31 \<Longrightarrow> sint (word_of_int i :: u32) = i"
  by (simp add: sint_sbintrunc' signed_take_bit_int_eq_self)

lemma sint_i64: "is_i64 i \<Longrightarrow> sint (word_of_int i :: u64) = i"
  by (simp add: sint_sbintrunc' signed_take_bit_int_eq_self is_i64_def i64_min_def i64_max_def)

lemma hm_insert_fresh: "k \<notin> fst ` set m \<Longrightarrow> hm_insert k v m = m @ [(k, v)]"
  by (induction k v m rule: hm_insert.induct) auto

text \<open>One written entry: its kind and key are read, its value follows.\<close>

lemma parser_entries_step:
  assumes "writable_text k" "kind \<noteq> 8" "Suc n \<le> ACHIEVEMENT_SCHEMA_MAX_ENTRIES"
  shows "parser_entries w (pre @ kind # write_cstring k @ rest) depth acc \<lparr>sp_position = length pre, sp_entries = n\<rparr> =
    (let bs = pre @ kind # write_cstring k @ rest;
         st = \<lparr>sp_position = length (pre @ kind # write_cstring k), sp_entries = Suc n\<rparr> in
     rbind (if kind = 0 then rbind (parser_object w bs (Suc depth) st) (\<lambda>(m, st). Inr (SObject m, st)) else parser_scalar w bs kind st)
       (\<lambda>(v, st). parser_entries w bs depth (hm_insert k v acc) st))"
  using assms parser_cstring_written [OF assms(1), of "pre @ [kind]" rest "Suc n"]
  by (simp add: parser_entries.simps [of w "pre @ kind # write_cstring k @ rest"] parser_byte_written Let_def)

lemma parser_scalar_written:
  "writable_text s \<Longrightarrow> parser_scalar w (pre @ write_cstring s @ post) 1 \<lparr>sp_position = length pre, sp_entries = n\<rparr>
     = Inr (SString s, \<lparr>sp_position = length pre + length (write_cstring s), sp_entries = n\<rparr>)"
  "is_i64 i \<Longrightarrow>
   b = (if - (2 ^ 31) \<le> i \<and> i < 2 ^ 31 then u32_to_le_bytes (word_of_int i) else u64_to_le_bytes (word_of_int i)) \<Longrightarrow>
   length pre + length b < 2 ^ w \<Longrightarrow>
   parser_scalar w (pre @ b @ post) (if - (2 ^ 31) \<le> i \<and> i < 2 ^ 31 then 2 else 7) \<lparr>sp_position = length pre, sp_entries = n\<rparr>
     = Inr (SInt i, \<lparr>sp_position = length pre + length b, sp_entries = n\<rparr>)"
  "length pre + length b < 2 ^ w \<Longrightarrow> length b = 4 \<Longrightarrow>
   parser_scalar w (pre @ b @ post) 3 \<lparr>sp_position = length pre, sp_entries = n\<rparr>
     = Inr (SOther, \<lparr>sp_position = length pre + length b, sp_entries = n\<rparr>)"
  by (auto simp: parser_scalar_def parser_cstring_written parser_take_written i32_from_le_bytes_def sint_i32 sint_i64 u64_le_roundtrip)

text \<open>An entry whose value is not an object, followed by entries that are read back.\<close>

lemma parser_entries_scalar:
  assumes kind: "kind \<noteq> 8" "kind \<noteq> 0" and wr: "write_entries ((k, v) # es) = kind # write_cstring k @ b @ write_entries es"
    and v: "\<And>pre post n. length pre + length b < 2 ^ w \<Longrightarrow>
      parser_scalar w (pre @ b @ post) kind \<lparr>sp_position = length pre, sp_entries = n\<rparr>
        = Inr (v, \<lparr>sp_position = length pre + length b, sp_entries = n\<rparr>)"
    and IH: "\<And>acc depth n pre post. writable es \<Longrightarrow> fst ` set acc \<inter> fst ` set es = {} \<Longrightarrow>
      depth + schema_depth es \<le> ACHIEVEMENT_SCHEMA_MAX_DEPTH \<Longrightarrow> n + schema_count es \<le> ACHIEVEMENT_SCHEMA_MAX_ENTRIES \<Longrightarrow>
      length (pre @ write_entries es) < 2 ^ w \<Longrightarrow>
      parser_entries w (pre @ write_entries es @ post) depth acc \<lparr>sp_position = length pre, sp_entries = n\<rparr>
        = Inr (acc @ es, \<lparr>sp_position = length (pre @ write_entries es), sp_entries = n + schema_count es\<rparr>)"
    and wf: "writable ((k, v) # es)" "fst ` set acc \<inter> fst ` set ((k, v) # es) = {}"
      "depth + schema_depth es \<le> ACHIEVEMENT_SCHEMA_MAX_DEPTH" "Suc n + schema_count es \<le> ACHIEVEMENT_SCHEMA_MAX_ENTRIES"
      "schema_count ((k, v) # es) = Suc (schema_count es)" "length (pre @ write_entries ((k, v) # es)) < 2 ^ w"
  shows "parser_entries w (pre @ write_entries ((k, v) # es) @ post) depth acc \<lparr>sp_position = length pre, sp_entries = n\<rparr>
     = Inr (acc @ (k, v) # es, \<lparr>sp_position = length (pre @ write_entries ((k, v) # es)), sp_entries = n + schema_count ((k, v) # es)\<rparr>)"
proof -
  let ?pre = "pre @ kind # write_cstring k"
  have "parser_entries w ((?pre @ b) @ write_entries es @ post) depth (acc @ [(k, v)]) \<lparr>sp_position = length (?pre @ b), sp_entries = Suc n\<rparr>
      = Inr ((acc @ [(k, v)]) @ es, \<lparr>sp_position = length ((?pre @ b) @ write_entries es), sp_entries = Suc n + schema_count es\<rparr>)"
    using wf unfolding wr by (intro IH) auto
  moreover have "parser_scalar w (?pre @ b @ write_entries es @ post) kind \<lparr>sp_position = length ?pre, sp_entries = Suc n\<rparr>
      = Inr (v, \<lparr>sp_position = length ?pre + length b, sp_entries = Suc n\<rparr>)"
    using wf(6) unfolding wr by (intro v) simp
  moreover have "k \<notin> fst ` set acc" using wf(2) by auto
  ultimately show ?thesis
    using parser_entries_step [of k kind n w pre "b @ write_entries es @ post" depth acc] kind wf(1,4,5)
    unfolding wr by (simp add: Let_def hm_insert_fresh add.assoc)
qed

lemma parser_entries_written:
  "writable es \<Longrightarrow> fst ` set acc \<inter> fst ` set es = {} \<Longrightarrow> depth + schema_depth es \<le> ACHIEVEMENT_SCHEMA_MAX_DEPTH \<Longrightarrow>
   n + schema_count es \<le> ACHIEVEMENT_SCHEMA_MAX_ENTRIES \<Longrightarrow> length (pre @ write_entries es) < 2 ^ w \<Longrightarrow>
   parser_entries w (pre @ write_entries es @ post) depth acc \<lparr>sp_position = length pre, sp_entries = n\<rparr>
     = Inr (acc @ es, \<lparr>sp_position = length (pre @ write_entries es), sp_entries = n + schema_count es\<rparr>)"
proof (induction es arbitrary: acc depth n pre post rule: write_entries.induct)
  case 1
  then show ?case by (simp add: parser_entries.simps parser_byte_written)
next
  case (2 k m es)
  let ?pre = "pre @ 0 # write_cstring k"
  have inner: "parser_entries w (?pre @ write_entries m @ write_entries es @ post) (Suc depth) [] \<lparr>sp_position = length ?pre, sp_entries = Suc n\<rparr>
      = Inr (m, \<lparr>sp_position = length (?pre @ write_entries m), sp_entries = Suc n + schema_count m\<rparr>)"
    using "2.prems" by (subst "2.IH"(1)) auto
  have outer: "parser_entries w ((?pre @ write_entries m) @ write_entries es @ post) depth (acc @ [(k, SObject m)])
        \<lparr>sp_position = length (?pre @ write_entries m), sp_entries = Suc n + schema_count m\<rparr>
      = Inr ((acc @ [(k, SObject m)]) @ es, \<lparr>sp_position = length ((?pre @ write_entries m) @ write_entries es), sp_entries = (Suc n + schema_count m) + schema_count es\<rparr>)"
    using "2.prems" by (intro "2.IH"(2)) auto
  have "k \<notin> fst ` set acc" using "2.prems"(2) by auto
  with inner outer parser_entries_step [of k 0 n w pre "write_entries m @ write_entries es @ post" depth acc] "2.prems"
  show ?case by (simp add: Let_def hm_insert_fresh parser_object.simps)
next
  case (3 k s es)
  show ?case
    by (rule parser_entries_scalar [OF _ _ _ _ "3.IH", where kind = 1 and b = "write_cstring s"])
       (use "3.prems" parser_scalar_written(1) in auto)
next
  case (4 k i es)
  define kind b where "kind = (if - (2 ^ 31) \<le> i \<and> i < 2 ^ 31 then 2 else 7 :: u8)"
    and "b = (if - (2 ^ 31) \<le> i \<and> i < 2 ^ 31 then u32_to_le_bytes (word_of_int i) else u64_to_le_bytes (word_of_int i))"
  have "is_i64 i" using "4.prems"(1) by simp
  note read = parser_scalar_written(2) [OF this b_def, folded kind_def]
  have "write_entries ((k, SInt i) # es) = kind # write_cstring k @ b @ write_entries es" "kind \<noteq> 8" "kind \<noteq> 0"
    by (simp_all add: kind_def b_def)
  then show ?case
    by (intro parser_entries_scalar [OF _ _ _ _ "4.IH"]) (use "4.prems" read in auto)
next
  case (5 k es)
  show ?case
    by (rule parser_entries_scalar [OF _ _ _ _ "5.IH", where kind = 3 and b = "[0, 0, 0, 0]"])
       (use "5.prems" parser_scalar_written(3) [of _ "[0, 0, 0, 0]"] in auto)
qed

end
