(* ===== verification/Steam_Protocol.thy ===== *)
theory Steam_Protocol
  imports Steam_Schema
begin

text \<open>
  Steam's packet framing, the routing of service methods to apps and the stats token
  (\<open>crates/steam-protocol/src/lib.rs\<close>).  Protobuf messages are decoded and encoded by prost: the
  fields that the code reads from a decoded message, and the encoding of one stats entry, are parameters.
\<close>

section \<open>Framing\<close>

definition MSG_HDR_SIZE :: nat where "MSG_HDR_SIZE = 8"

definition K_MSG_HDR_PROTO_FLAG :: u32 where "K_MSG_HDR_PROTO_FLAG = 0x80000000"

definition unpack_raw :: "nat \<Rightarrow> bytes \<Rightarrow> (u32 \<times> bytes \<times> bytes) option" where
  "unpack_raw w data =
     (if length data < MSG_HDR_SIZE then None
      else let emsg_raw = u32_from_le_bytes (take 4 data);
               hdr_len = unat (u32_from_le_bytes (take 4 (drop 4 data))) in
        opt_bind (usize_checked_add w MSG_HDR_SIZE hdr_len) (\<lambda>hdr_end.
        if length data < hdr_end then None
        else Some (emsg_raw, take (hdr_end - MSG_HDR_SIZE) (drop MSG_HDR_SIZE data), drop hdr_end data)))"

definition assemble_raw :: "u32 \<Rightarrow> bytes \<Rightarrow> bytes \<Rightarrow> bytes" where
  "assemble_raw emsg_raw header_bytes body_bytes =
     u32_to_le_bytes emsg_raw @ u32_to_le_bytes (of_nat (length header_bytes)) @ header_bytes @ body_bytes"

section \<open>Routing\<close>

definition app_id_from_game_id :: "u64 \<Rightarrow> u32 option" where
  "app_id_from_game_id game_id =
     (let app_id = ucast game_id AND 0x00ffffff in if app_id \<noteq> 0 then Some app_id else None)"

text \<open>What prost finds in a body decoded as the named message: \<open>None\<close> when the body is not such a
  message, otherwise its app or game identifier.\<close>

record message_views =
  mv_app_id :: "string \<Rightarrow> bytes \<Rightarrow> u32 option option"
  mv_game_id :: "string \<Rightarrow> bytes \<Rightarrow> u64 option option"

definition nonzero :: "u32 option \<Rightarrow> u32 option" where
  "nonzero = opt_filter (\<lambda>i. i \<noteq> 0)"

definition view_app_id :: "message_views \<Rightarrow> string \<Rightarrow> bytes \<Rightarrow> u32 option" where
  "view_app_id mv message body = opt_bind (mv_app_id mv message body) (\<lambda>i. i)"

definition cloud_request_message :: "string \<Rightarrow> string option" where
  "cloud_request_message method = map_of
     [(''Cloud.BeginHTTPUpload#1'', ''CloudBeginHttpUploadWireView''),
      (''Cloud.BeginUGCUpload#1'', ''CloudBeginUgcUploadWireView''),
      (''Cloud.GetSingleFileInfo#1'', ''CloudGetSingleFileInfoWireView''),
      (''Cloud.ShareFile#1'', ''CloudShareFileWireView''),
      (''Cloud.EnumerateUserFiles#1'', ''CloudEnumerateUserFilesWireView''),
      (''Cloud.CommitHTTPUpload#1'', ''CloudCommitHttpUploadWireView''),
      (''Cloud.CommitUGCUpload#1'', ''CloudCommitUgcUploadWireView''),
      (''Cloud.GetFileDetails#1'', ''CloudGetFileDetailsWireView''),
      (''Cloud.Delete#1'', ''CloudDeleteWireView''),
      (''Cloud.GetAppFileChangelist#1'', ''CloudGetAppFileChangelistRequest''),
      (''Cloud.BeginAppUploadBatch#1'', ''CloudBeginAppUploadBatchRequest''),
      (''Cloud.ClientBeginFileUpload#1'', ''CloudClientBeginFileUploadRequest''),
      (''Cloud.ClientCommitFileUpload#1'', ''CloudClientCommitFileUploadRequest''),
      (''Cloud.CompleteAppUploadBatch#1'', ''CloudCompleteAppUploadBatchRequest''),
      (''Cloud.CompleteAppUploadBatchBlocking#1'', ''CloudCompleteAppUploadBatchRequest''),
      (''Cloud.ClientFileDownload#1'', ''CloudClientFileDownloadRequest''),
      (''Cloud.ClientDeleteFile#1'', ''CloudClientDeleteFileRequest''),
      (''Cloud.ClientGetAppQuotaUsage#1'', ''CloudClientGetAppQuotaUsageRequest''),
      (''Cloud.SignalAppLaunchIntent#1'', ''CloudAppLaunchIntentRequest''),
      (''Cloud.SuspendAppSession#1'', ''CloudAppSessionSuspendRequest''),
      (''Cloud.ResumeAppSession#1'', ''CloudAppSessionResumeRequest''),
      (''Cloud.SignalAppExitSyncDone#1'', ''CloudAppExitSyncDoneNotification''),
      (''Cloud.ClientConflictResolution#1'', ''CloudClientConflictResolutionNotification'')] method"

definition cloud_request_app_id :: "message_views \<Rightarrow> string \<Rightarrow> bytes \<Rightarrow> u32 option" where
  "cloud_request_app_id mv method body =
     nonzero (opt_bind (cloud_request_message method) (\<lambda>message. view_app_id mv message body))"

definition service_method_app_id :: "message_views \<Rightarrow> string \<Rightarrow> bytes \<Rightarrow> u32 option" where
  "service_method_app_id mv method body =
     (if method = ''ClientMetrics.ClientAppInterfaceStatsReport#1''
      then opt_bind (opt_bind (mv_game_id mv ''ClientMetricsAppInterfaceStatsWireView'' body) (\<lambda>i. i)) app_id_from_game_id
      else if method = ''ClientMetrics.ClientCloudAppSyncStats#1''
      then nonzero (view_app_id mv ''ClientMetricsCloudAppSyncStatsWireView'' body)
      else if method = ''Player.GetGameBadgeLevels#1''
      then nonzero (view_app_id mv ''PlayerGetGameBadgeLevelsWireView'' body)
      else if method = ''PublishedFile.GetUserFiles#1''
      then nonzero (view_app_id mv ''PublishedFileGetUserFilesWireView'' body)
      else if method = ''Store.ShouldPromptForCompatibilityFeedback#1''
      then nonzero (view_app_id mv ''SteamDeckCompatibilityShouldPromptWireView'' body)
      else if method = ''UserNews.GetUserNews#1''
      then nonzero (view_app_id mv ''UserNewsGetUserNewsWireView'' body)
      else if starts_with method ''Cloud.'' then cloud_request_app_id mv method body
      else None)"

definition legacy_store_user_stats_game_id :: "message_views \<Rightarrow> bytes \<Rightarrow> u64 option" where
  "legacy_store_user_stats_game_id mv body =
     opt_bind (mv_game_id mv ''LegacyStoreUserStatsRequestWireView'' body) (\<lambda>i. i)"

section \<open>Logon and licenses\<close>

definition ERESULT_OK :: int where "ERESULT_OK = 1"

text \<open>The decoded response, and the \<open>steamid\<close> of the decoded header (\<open>None\<close> if it does not decode).\<close>

record logon_response =
  lr_eresult :: "int option"
  lr_client_supplied_steam_id :: "u64 option"

definition successful_logon_steam_id ::
  "(bytes \<Rightarrow> u64 option option) \<Rightarrow> (bytes \<Rightarrow> logon_response option) \<Rightarrow> bytes \<Rightarrow> bytes \<Rightarrow> u64 option" where
  "successful_logon_steam_id decode_header decode_response header body =
     opt_bind (decode_response body) (\<lambda>response.
     if unwrap_or 2 (lr_eresult response) \<noteq> ERESULT_OK then None
     else opt_bind (opt_or (opt_bind (decode_header header) (\<lambda>i. i)) (lr_client_supplied_steam_id response)) (\<lambda>steam_id.
          if steam_id \<noteq> 0 then Some steam_id else None))"

record logon_request =
  lq_client_os_type :: "u32 option"
  lq_machine_name :: "string option"
  lq_machine_name_userchosen :: "string option"
  lq_gaming_device_type :: "u32 option"

record client_logon_device =
  cld_machine_name :: string
  cld_os_type :: "int option"
  cld_device_type :: "int option"

definition client_logon_device_of :: "(bytes \<Rightarrow> logon_request option) \<Rightarrow> bytes \<Rightarrow> client_logon_device option" where
  "client_logon_device_of decode body =
     opt_bind (decode body) (\<lambda>request. Some
       \<lparr>cld_machine_name = unwrap_or [] (opt_or (opt_filter (\<lambda>name. trim name \<noteq> []) (lq_machine_name_userchosen request))
                                              (lq_machine_name request)),
        cld_os_type = map_option sint (lq_client_os_type request),
        cld_device_type = map_option uint (lq_gaming_device_type request)\<rparr>)"

record client_license =
  lic_package_id :: "u32 option"
  lic_owner_id :: "u32 option"
  lic_access_token :: "u64 option"

record licensed_package =
  lp_package_id :: u32
  lp_access_token :: u64
  lp_owner_id :: u32

definition is_held_by_other_account :: "licensed_package \<Rightarrow> u32 \<Rightarrow> bool" where
  "is_held_by_other_account p self_account_id \<longleftrightarrow> lp_owner_id p \<noteq> 0 \<and> lp_owner_id p \<noteq> self_account_id"

definition licensed_packages :: "(bytes \<Rightarrow> client_license list option) \<Rightarrow> bytes \<Rightarrow> licensed_package list option" where
  "licensed_packages decode body =
     map_option (\<lambda>licenses. concat (map (\<lambda>l. case lic_package_id l of
          None \<Rightarrow> []
        | Some package_id \<Rightarrow>
            if package_id \<noteq> 0
            then [\<lparr>lp_package_id = package_id, lp_access_token = unwrap_or 0 (lic_access_token l),
                   lp_owner_id = unwrap_or 0 (lic_owner_id l)\<rparr>]
            else []) licenses)) (decode body)"

section \<open>The stats token\<close>

record unlock_time =
  ut_achievement_bit :: "u32 option"
  ut_unlock_time :: "u32 option"

record player_stats_entry =
  pse_stat_id :: "u32 option"
  pse_stat_value :: "u32 option"
  pse_unlock_times :: "unlock_time list"

definition crc_step :: "u32 \<Rightarrow> u32" where
  "crc_step crc = (let mask = 0 - (crc AND 1) in drop_bit 1 crc XOR (0x82f63b78 AND mask))"

definition crc_byte :: "u32 \<Rightarrow> u8 \<Rightarrow> u32" where
  "crc_byte crc b = (crc_step ^^ 8) (crc XOR ucast b)"

definition stats_crc32c :: "bytes \<Rightarrow> u32" where
  "stats_crc32c bs = NOT (foldl crc_byte (NOT 0) bs)"

function encode_stats_varint :: "u64 \<Rightarrow> bytes \<Rightarrow> bytes" where
  "encode_stats_varint v out =
     (if 0x80 \<le> v then encode_stats_varint (drop_bit 7 v) (out @ [ucast v OR 0x80]) else out @ [ucast v])"
  by pat_completeness auto
termination
proof (relation "measure (\<lambda>(v, _). unat v)")
  fix v :: u64 and out :: bytes assume "0x80 \<le> v"
  then have "0 < unat v" by (simp add: word_le_nat_alt)
  then show "((drop_bit 7 v, out @ [ucast v OR 0x80]), v, out) \<in> measure (\<lambda>(v, _). unat v)"
    by (simp add: drop_bit_eq_div unat_div)
qed simp

declare encode_stats_varint.simps [simp del]

definition sorted_player_stats :: "player_stats_entry list \<Rightarrow> player_stats_entry list" where
  "sorted_player_stats stats =
     map (\<lambda>e. e\<lparr>pse_unlock_times := sort_key (\<lambda>t. unwrap_or (- 1) (ut_achievement_bit t)) (pse_unlock_times e)\<rparr>)
         (sort_key (\<lambda>e. unwrap_or (- 1) (pse_stat_id e)) stats)"

definition canonical_stats_wire_bytes :: "(player_stats_entry \<Rightarrow> bytes) \<Rightarrow> player_stats_entry list \<Rightarrow> bytes" where
  "canonical_stats_wire_bytes encode_to_vec stats =
     foldl (\<lambda>bs e. let entry = encode_to_vec e in
              encode_stats_varint (of_nat (length entry)) (bs @ [0x22]) @ entry) [] (sorted_player_stats stats)"

definition stats_crc :: "(player_stats_entry \<Rightarrow> bytes) \<Rightarrow> player_stats_entry list \<Rightarrow> u32" where
  "stats_crc encode_to_vec stats = stats_crc32c (canonical_stats_wire_bytes encode_to_vec stats)"

text \<open>One entry as it stands in the canonical bytes.\<close>

definition stats_frame :: "('e \<Rightarrow> bytes) \<Rightarrow> 'e \<Rightarrow> bytes" where
  "stats_frame enc e = 0x22 # encode_stats_varint (of_nat (length (enc e))) [] @ enc e"

text \<open>An entry without the order of its unlock times.\<close>

definition stats_entry_view :: "player_stats_entry \<Rightarrow> u32 option \<times> u32 option \<times> unlock_time multiset" where
  "stats_entry_view e = (pse_stat_id e, pse_stat_value e, mset (pse_unlock_times e))"

definition unambiguous_stats :: "player_stats_entry list \<Rightarrow> bool" where
  "unambiguous_stats stats \<longleftrightarrow> distinct (map (\<lambda>e. unwrap_or (- 1) (pse_stat_id e)) stats)
     \<and> (\<forall>e \<in> set stats. distinct (map (\<lambda>t. unwrap_or (- 1) (ut_achievement_bit t)) (pse_unlock_times e)))"

definition normal_entry :: "player_stats_entry \<Rightarrow> player_stats_entry" where
  "normal_entry e = e\<lparr>pse_unlock_times := sort_key (\<lambda>t. unwrap_or (- 1) (ut_achievement_bit t)) (pse_unlock_times e)\<rparr>"

section \<open>Lemmas on framing\<close>

lemma le_bytes_of_take:
  assumes "4 \<le> length bs" shows "u32_to_le_bytes (u32_from_le_bytes (take 4 bs)) = take 4 bs"
  using assms by (intro u32_to_le_bytes_from) simp

lemma unpack_raw_Some:
  "unpack_raw w data = Some (emsg, header, body) \<longleftrightarrow>
     (\<exists>n. n = unat (u32_from_le_bytes (take 4 (drop 4 data))) \<and> 8 + n < 2 ^ w \<and> 8 + n \<le> length data
        \<and> emsg = u32_from_le_bytes (take 4 data) \<and> header = take n (drop 8 data) \<and> body = drop (8 + n) data)"
  unfolding unpack_raw_def MSG_HDR_SIZE_def Let_def usize_checked_add_def by auto

lemma assemble_raw_parts:
  assumes "data = assemble_raw emsg header body"
  shows "take 4 data = u32_to_le_bytes emsg" "take 4 (drop 4 data) = u32_to_le_bytes (of_nat (length header))"
    "take (length header) (drop 8 data) = header" "drop (8 + length header) data = body" "8 + length header \<le> length data"
  using assms by (simp_all add: assemble_raw_def)

lemma split_packet: "take 4 bs @ take 4 (drop 4 bs) @ take n (drop 8 bs) @ drop (8 + n) bs = bs"
proof -
  have "take n (drop 8 bs) @ drop (8 + n) bs = drop 8 bs" by (metis add.commute append_take_drop_id drop_drop)
  moreover have "take 4 (drop 4 bs) @ drop 8 bs = drop 4 bs" using append_take_drop_id [of 4 "drop 4 bs"] by simp
  ultimately show ?thesis by simp
qed

section \<open>Lemmas on the token\<close>

text \<open>One step of the checksum is injective: the top bit of the result tells the bit shifted out.\<close>

lemma crc_step_alt: "crc_step c = drop_bit 1 c XOR (if odd c then 0x82f63b78 else 0)"
proof -
  have "c AND 1 = of_bool (odd c)" by (simp add: and_one_eq mod_2_eq_odd)
  then show ?thesis by (simp add: crc_step_def Let_def)
qed

lemma crc_step_top: "bit (crc_step c) 31 \<longleftrightarrow> odd c"
proof -
  have "\<not> bit (drop_bit 1 c) 31" using bit_imp_le_length [of c 32] by (auto simp: bit_drop_bit_eq)
  then show ?thesis by (auto simp: crc_step_alt bit_xor_iff)
qed

lemma word_xor_cancel: "x XOR k = y XOR k \<Longrightarrow> x = y" for x y k :: "'a::len word"
proof -
  assume "x XOR k = y XOR k"
  then have "(x XOR k) XOR k = (y XOR k) XOR k" by simp
  then show "x = y" by (simp add: xor.assoc)
qed

lemma ucast_u32_inj: "(ucast (a :: u8) :: u32) = ucast b \<Longrightarrow> a = b"
proof (rule bit_eqI)
  fix n assume "(ucast a :: u32) = ucast b"
  from arg_cong [OF this, of "\<lambda>x. bit x n"] show "bit a n \<longleftrightarrow> bit b n"
    using bit_imp_le_length [of a n] bit_imp_le_length [of b n] by (auto simp: bit_ucast_iff)
qed

lemma crc_step_inj: "crc_step a = crc_step b \<Longrightarrow> a = b"
proof -
  assume eq: "crc_step a = crc_step b"
  then have odd: "odd a \<longleftrightarrow> odd b" by (simp only: crc_step_top [symmetric])
  have "drop_bit 1 a XOR (if odd b then 0x82f63b78 else 0) = drop_bit 1 b XOR (if odd b then 0x82f63b78 else 0)"
    using eq unfolding crc_step_alt odd .
  then have d: "drop_bit 1 a = drop_bit 1 b" by (rule word_xor_cancel)
  show "a = b"
  proof (rule bit_eqI)
    fix n
    show "bit a n \<longleftrightarrow> bit b n"
    proof (cases n)
      case 0
      then show ?thesis using odd by (simp add: bit_0)
    next
      case (Suc m)
      then show ?thesis using arg_cong [OF d, of "\<lambda>x. bit x m"] by (simp add: bit_drop_bit_eq)
    qed
  qed
qed

lemma crc_byte_inj: "crc_byte a x = crc_byte b y \<Longrightarrow> a XOR ucast x = b XOR ucast y"
proof -
  have "inj (crc_step ^^ 8)" using crc_step_inj by (intro inj_fn injI)
  then show "crc_byte a x = crc_byte b y \<Longrightarrow> a XOR ucast x = b XOR ucast y" by (auto simp: crc_byte_def dest: injD)
qed

lemma crc_fold_inj: "foldl crc_byte a bs = foldl crc_byte b bs \<Longrightarrow> a = b"
proof (induction bs arbitrary: a b)
  case Nil
  then show ?case by simp
next
  case (Cons x bs)
  have p: "foldl crc_byte (crc_byte a x) bs = foldl crc_byte (crc_byte b x) bs" using Cons.prems by (simp only: foldl_Cons)
  have q: "crc_byte a x = crc_byte b x" by (rule Cons.IH [OF p])
  have "a XOR ucast x = b XOR ucast x" by (rule crc_byte_inj [OF q])
  then show ?case by (rule word_xor_cancel)
qed

text \<open>Sorting forgets the order of entries with distinct keys.\<close>

lemma sort_key_mset_eq:
  assumes "mset xs = mset ys" "distinct (map f xs)" shows "sort_key f xs = sort_key f ys"
proof (rule map_sorted_distinct_set_unique)
  have "mset (map f ys) = mset (map f xs)" using assms(1) by simp
  then have d: "distinct (map f ys)" using assms(2) mset_eq_imp_distinct_iff by blast
  have set: "set (sort_key f xs) = set xs" "set (sort_key f ys) = set xs" using mset_eq_setD [OF assms(1)] by simp_all
  then show "inj_on f (set (sort_key f xs) \<union> set (sort_key f ys))" "set (sort_key f xs) = set (sort_key f ys)"
    using assms(2) by (simp_all add: distinct_map)
  show "distinct (map f (sort_key f xs))" "distinct (map f (sort_key f ys))"
    using assms(2) d by (simp_all add: distinct_map)
qed simp_all

lemma mset_concat_map_cong: "mset xs = mset ys \<Longrightarrow> mset (concat (map f xs)) = mset (concat (map f ys))"
  by (simp add: mset_concat flip: sum_mset_sum_list mset_map) (simp add: mset_map)

lemma mset_concat_map_pointwise: "(\<And>x. mset (f x) = mset (g x)) \<Longrightarrow> mset (concat (map f xs)) = mset (concat (map g xs))"
  by (induction xs) simp_all

text \<open>Base-128 numbers: seven bits per byte, the lowest first.\<close>

lemma varint_append: "encode_stats_varint v out = out @ encode_stats_varint v []"
proof (induction "unat v" arbitrary: v out rule: less_induct)
  case less
  show ?case
  proof (cases "0x80 \<le> v")
    case True
    then have "0 < unat v" by (simp add: word_le_nat_alt)
    then have IH: "encode_stats_varint (drop_bit 7 v) out' = out' @ encode_stats_varint (drop_bit 7 v) []" for out'
      by (intro less) (simp add: drop_bit_eq_div unat_div)
    show ?thesis using True IH [of "out @ [ucast v OR 0x80]"] IH [of "[ucast v OR 0x80]"]
      by (simp add: encode_stats_varint.simps [of v])
  next
    case False
    then show ?thesis by (simp add: encode_stats_varint.simps [of v])
  qed
qed

lemma varint_step:
  "encode_stats_varint v [] = (if 0x80 \<le> v then (ucast v OR 0x80) # encode_stats_varint (drop_bit 7 v) [] else [ucast v])"
  using varint_append [of "drop_bit 7 v" "[ucast v OR 0x80]"] by (simp add: encode_stats_varint.simps [of v])

lemma varint_small: "\<not> 0x80 \<le> (v :: u64) \<Longrightarrow> drop_bit 7 v = 0"
proof -
  assume "\<not> 0x80 \<le> v"
  then have "unat (drop_bit 7 v) = 0" by (simp add: word_le_nat_alt drop_bit_eq_div unat_div)
  then show "drop_bit 7 v = 0" by (simp add: unat_eq_0)
qed

lemma varint_bits:
  assumes "\<And>n. n < 7 \<Longrightarrow> bit v n \<longleftrightarrow> bit v' n" "drop_bit 7 v = drop_bit 7 (v' :: u64)" shows "v = v'"
proof (rule bit_eqI)
  fix n
  show "bit v n \<longleftrightarrow> bit v' n"
    using assms(1) [of n] arg_cong [OF assms(2), of "\<lambda>x. bit x (n - 7)"] by (cases "n < 7") (simp_all add: bit_drop_bit_eq)
qed

lemma varint_head:
  "bit (hd (encode_stats_varint v [])) 7 \<longleftrightarrow> 0x80 \<le> v"
  "n < 7 \<Longrightarrow> bit (hd (encode_stats_varint v [])) n \<longleftrightarrow> bit v n"
proof -
  have "bit v 7 \<longleftrightarrow> bit (drop_bit 7 v) 0" by (simp add: bit_drop_bit_eq)
  then show "bit (hd (encode_stats_varint v [])) 7 \<longleftrightarrow> 0x80 \<le> v"
    using varint_small [of v] by (simp add: varint_step [of v] bit_or_iff bit_ucast_iff)
  assume "n < 7"
  then have "n \<in> {0, 1, 2, 3, 4, 5, 6}" by auto
  then show "bit (hd (encode_stats_varint v [])) n \<longleftrightarrow> bit v n"
    by (auto simp: varint_step [of v] bit_or_iff bit_ucast_iff)
qed

lemma varint_prefix_free:
  "encode_stats_varint v [] @ xs = encode_stats_varint v' [] @ ys \<Longrightarrow> v = v' \<and> xs = ys"
proof (induction "unat v" arbitrary: v v' rule: less_induct)
  case less
  have ne: "encode_stats_varint u [] \<noteq> []" for u by (simp add: varint_step [of u])
  have h: "hd (encode_stats_varint v []) = hd (encode_stats_varint v' [])"
    using arg_cong [OF less.prems, of hd] ne by (simp add: hd_append2)
  then have size: "0x80 \<le> v \<longleftrightarrow> 0x80 \<le> v'" and low: "n < 7 \<Longrightarrow> bit v n \<longleftrightarrow> bit v' n" for n
    using varint_head by metis+
  show ?case
  proof (cases "0x80 \<le> v")
    case True
    then have rest: "encode_stats_varint (drop_bit 7 v) [] @ xs = encode_stats_varint (drop_bit 7 v') [] @ ys"
      using less.prems size varint_step [of v] varint_step [of v'] by simp
    have "unat (drop_bit 7 v) < unat v" using True by (simp add: drop_bit_eq_div unat_div word_le_nat_alt)
    from less.hyps [OF this rest] show ?thesis using varint_bits [OF low] by simp
  next
    case False
    then have "drop_bit 7 v = drop_bit 7 v'" using size varint_small by simp
    then have "v = v'" using varint_bits [OF low] by simp
    then show ?thesis using less.prems by simp
  qed
qed

lemma canonical_framing:
  "foldl (\<lambda>bs e. let entry = enc e in encode_stats_varint (of_nat (length entry)) (bs @ [0x22]) @ entry) acc es
     = acc @ concat (map (stats_frame enc) es)"
proof (induction es arbitrary: acc)
  case (Cons e es)
  then show ?case using varint_append [of "of_nat (length (enc e))" "acc @ [0x22]"] by (simp add: Let_def stats_frame_def)
qed simp

lemma frame_injective:
  assumes "\<forall>e \<in> S. length (enc e) < 2 ^ 64" "inj_on enc S" "e \<in> S" "e' \<in> S"
  shows "stats_frame enc e @ xs = stats_frame enc e' @ ys \<longleftrightarrow> e = e' \<and> xs = ys"
proof
  assume "stats_frame enc e @ xs = stats_frame enc e' @ ys"
  then have "encode_stats_varint (of_nat (length (enc e))) [] @ enc e @ xs = encode_stats_varint (of_nat (length (enc e'))) [] @ enc e' @ ys"
    by (simp add: stats_frame_def)
  from varint_prefix_free [OF this] have len: "(of_nat (length (enc e)) :: u64) = of_nat (length (enc e'))"
    and eq: "enc e @ xs = enc e' @ ys" by simp_all
  have "length (enc e) < 2 ^ 64" "length (enc e') < 2 ^ 64" using assms(1,3,4) by blast+
  then have "length (enc e) = length (enc e')" using arg_cong [OF len, of unat] by (simp add: unat_of_nat)
  then show "e = e' \<and> xs = ys" using eq inj_onD [OF assms(2) _ assms(3,4)] by simp
qed simp

lemma framing_injective:
  assumes "\<forall>e \<in> S. length (enc e) < 2 ^ 64" "inj_on enc S" "set es \<subseteq> S" "set es' \<subseteq> S"
  shows "concat (map (stats_frame enc) es) = concat (map (stats_frame enc) es') \<longleftrightarrow> es = es'"
  using assms(3,4)
proof (induction es arbitrary: es')
  case Nil
  then show ?case by (cases es') (auto simp: stats_frame_def)
next
  case (Cons e es)
  show ?case
  proof (cases es')
    case Nil
    then show ?thesis by (simp add: stats_frame_def)
  next
    case (Cons e' rest)
    then show ?thesis using frame_injective [OF assms(1,2)] Cons.IH [of rest] Cons.prems by simp
  qed
qed

lemma normal_entry_eq:
  assumes "stats_entry_view e = stats_entry_view e'"
    "distinct (map (\<lambda>t. unwrap_or (- 1) (ut_achievement_bit t)) (pse_unlock_times e))"
  shows "normal_entry e = normal_entry e'"
  using assms sort_key_mset_eq [of "pse_unlock_times e" "pse_unlock_times e'"]
  by (cases e; cases e') (simp add: normal_entry_def stats_entry_view_def)

lemma normal_entries_subset:
  assumes "mset (map stats_entry_view s) = mset (map stats_entry_view s')" "unambiguous_stats s"
  shows "normal_entry ` set s \<subseteq> normal_entry ` set s'"
proof
  fix n assume "n \<in> normal_entry ` set s"
  then obtain e where e: "e \<in> set s" "n = normal_entry e" by blast
  have "stats_entry_view ` set s = stats_entry_view ` set s'" using mset_eq_setD [OF assms(1)] by simp
  then obtain e' where e': "e' \<in> set s'" "stats_entry_view e = stats_entry_view e'" using e(1) by (metis imageE imageI)
  have "normal_entry e = normal_entry e'"
    using normal_entry_eq [OF e'(2)] assms(2) e(1) by (simp add: unambiguous_stats_def)
  with e e'(1) show "n \<in> normal_entry ` set s'" by blast
qed

lemma sorted_player_stats_iff:
  assumes "unambiguous_stats s" "unambiguous_stats s'"
  shows "sorted_player_stats s = sorted_player_stats s' \<longleftrightarrow> mset (map stats_entry_view s) = mset (map stats_entry_view s')"
proof
  let ?k = "\<lambda>e. unwrap_or (- 1) (pse_stat_id e)"
  have sorted: "sorted_player_stats x = map normal_entry (sort_key ?k x)" for x by (simp add: sorted_player_stats_def normal_entry_def)
  have view: "mset (map stats_entry_view (sorted_player_stats x)) = mset (map stats_entry_view x)" for x
  proof -
    have "map stats_entry_view (sorted_player_stats x) = map stats_entry_view (sort_key ?k x)"
      by (simp add: sorted normal_entry_def stats_entry_view_def)
    then show ?thesis by (simp only: mset_map mset_sort)
  qed
  show "sorted_player_stats s = sorted_player_stats s' \<Longrightarrow> mset (map stats_entry_view s) = mset (map stats_entry_view s')"
    using view [of s] view [of s'] by simp
  assume eq: "mset (map stats_entry_view s) = mset (map stats_entry_view s')"
  have kn: "?k \<circ> normal_entry = ?k" by (auto simp: normal_entry_def)
  have d: "distinct (map ?k s)" "distinct (map ?k s')" using assms by (auto simp: unambiguous_stats_def)
  have set: "normal_entry ` set s = normal_entry ` set s'"
    using normal_entries_subset [OF eq assms(1)] normal_entries_subset [OF eq [symmetric] assms(2)] by blast
  show "sorted_player_stats s = sorted_player_stats s'"
    unfolding sorted
  proof (rule map_sorted_distinct_set_unique)
    have "set (map normal_entry (sort_key ?k s)) \<union> set (map normal_entry (sort_key ?k s')) = normal_entry ` set s" using set by simp
    moreover have "inj_on ?k (normal_entry ` set s)" using d(1) by (auto simp: distinct_map inj_on_def normal_entry_def)
    ultimately show "inj_on ?k (set (map normal_entry (sort_key ?k s)) \<union> set (map normal_entry (sort_key ?k s')))" by simp
  qed (use d set in \<open>simp_all add: kn distinct_map comp_def normal_entry_def\<close>)
qed

end
