(* ===== verification/Rust_Float.thy ===== *)
theory Rust_Float
  imports VF_Prelude "HOL-Library.Code_Target_Nat"
begin

text \<open>
  \<open>str::parse::<f32>\<close> followed by \<open>to_bits\<close>, as the standard library documents it: the accepted syntax, and the
  binary32 number nearest to the decimal value, ties to even.
\<close>

fun bit_length :: "nat \<Rightarrow> nat" where
  "bit_length n = (if n = 0 then 0 else Suc (bit_length (n div 2)))"

declare bit_length.simps [simp del]

text \<open>The greatest \<open>k\<close> with \<open>2 powi k \<le> num / den\<close>.\<close>

definition floor_log2 :: "nat \<Rightarrow> nat \<Rightarrow> int" where
  "floor_log2 num den =
     (let k = int (bit_length num) - int (bit_length den) in
      if num * 2 ^ nat (- k) < den * 2 ^ nat k then k - 1 else k)"

definition round_half_even :: "nat \<Rightarrow> nat \<Rightarrow> nat" where
  "round_half_even num den =
     (let q = num div den; r = num mod den in if den < 2 * r \<or> 2 * r = den \<and> odd q then q + 1 else q)"

text \<open>The bits of the number nearest to \<open>m * 10 powi e\<close>; a carry out of the fraction moves into the exponent.\<close>

definition f32_bits_of_decimal :: "nat \<Rightarrow> int \<Rightarrow> nat" where
  "f32_bits_of_decimal m e =
     (if m = 0 then 0
      else let num = m * 10 ^ nat e; den = 10 ^ nat (- e); k = max (- 126) (floor_log2 num den) in
        min 0x7f800000 (nat (k + 126) * 2 ^ 23
          + round_half_even (num * 2 ^ nat (23 - k)) (den * 2 ^ nat (k - 23))))"

definition parse_exponent :: "string \<Rightarrow> int option" where
  "parse_exponent s =
     (case s of [] \<Rightarrow> None
      | c # cs \<Rightarrow> if c = CHR ''-'' then map_option (\<lambda>n. - int n) (parse_digits cs)
                  else map_option int (parse_digits (if c = CHR ''+'' then cs else s)))"

definition parse_decimal :: "string \<Rightarrow> (nat \<times> int) option" where
  "parse_decimal s =
     (let whole = takeWhile is_ascii_digit s; rest = dropWhile is_ascii_digit s;
          fraction = (case rest of [] \<Rightarrow> [] | c # cs \<Rightarrow> if c = CHR ''.'' then takeWhile is_ascii_digit cs else []);
          tail = (case rest of [] \<Rightarrow> [] | c # cs \<Rightarrow> if c = CHR ''.'' then dropWhile is_ascii_digit cs else rest) in
      opt_bind (parse_digits (whole @ fraction)) (\<lambda>m.
      case tail of
        [] \<Rightarrow> Some (m, - int (length fraction))
      | c # cs \<Rightarrow> if c = CHR ''e'' \<or> c = CHR ''E''
                  then map_option (\<lambda>e. (m, e - int (length fraction))) (parse_exponent cs) else None))"

definition parse_magnitude :: "string \<Rightarrow> int option" where
  "parse_magnitude s =
     (case parse_decimal s of
        Some (m, e) \<Rightarrow> Some (int (f32_bits_of_decimal m e))
      | None \<Rightarrow>
          if eq_ignore_ascii_case s ''inf'' \<or> eq_ignore_ascii_case s ''infinity'' then Some 0x7f800000
          else if eq_ignore_ascii_case s ''nan'' then Some 0x7fc00000 else None)"

definition parse_f32_bits :: "string \<Rightarrow> u32 option" where
  "parse_f32_bits s =
     (case s of [] \<Rightarrow> None
      | c # cs \<Rightarrow> if c = CHR ''-'' then map_option (\<lambda>n. word_of_int n OR 0x80000000) (parse_magnitude cs)
                  else map_option word_of_int (parse_magnitude (if c = CHR ''+'' then cs else s)))"

lemma f32_decimal_samples:
  "f32_bits_of_decimal 15 (- 1) = 0x3fc00000" "f32_bits_of_decimal 1 (- 1) = 0x3dcccccd"
  "f32_bits_of_decimal 16777217 0 = 0x4b800000"
  by code_simp+

lemma parse_decimal_samples:
  "parse_decimal ''1.5'' = Some (15, - 1)" "parse_decimal ''1.e-45'' = Some (1, - 45)"
  "parse_decimal ''.'' = None" "parse_decimal ''Inf'' = None"
  by code_simp+

lemma ignore_case_samples:
  "eq_ignore_ascii_case ''Inf'' ''inf''" "\<not> eq_ignore_ascii_case ''.'' ''inf''"
  "\<not> eq_ignore_ascii_case ''.'' ''infinity''" "\<not> eq_ignore_ascii_case ''.'' ''nan''"
  by code_simp+

lemma parse_f32_samples:
  "parse_f32_bits ''1.5'' = Some 0x3fc00000" "parse_f32_bits ''-1.5'' = Some 0xbfc00000"
  "parse_f32_bits ''.'' = None" "parse_f32_bits ''-Inf'' = Some 0xff800000"
  by (simp_all add: parse_f32_bits_def parse_magnitude_def parse_decimal_samples ignore_case_samples
      f32_decimal_samples)

end
