(* ===== verification/Stats_Merge.thy ===== *)
theory Stats_Merge
  imports Steam_Protocol Cloud_Core Rust_Float
begin

text \<open>
  The answer to a client's request for its stats (\<open>crates/hooks/src/stats_merge.rs\<close>): the backend's named
  achievements and stats become wire entries by the identifiers of the schema in flight, in the service form and in
  the legacy form, with the token that names the state.  prost's encoding of the responses and of one entry is a
  parameter, as is the iteration order of \<open>HashMap\<close>; the log line of \<open>skipped_key\<close> is left out.
\<close>

section \<open>Messages\<close>

record player_get_user_stats_request =
  psq_steamid :: "u64 option"
  psq_appid :: "u32 option"
  psq_sha_schema :: "bytes option"
  psq_crc_stats :: "u32 option"
  psq_crc_schema :: "u32 option"

record player_get_user_stats_response =
  psr_sha_schema :: "bytes option"
  psr_crc_stats :: "u32 option"
  psr_schema :: "bytes option"
  psr_stats :: "player_stats_entry list"
  psr_crc_schema :: "u32 option"

record client_get_user_stats_request =
  csq_game_id :: "u64 option"
  csq_crc_stats :: "u32 option"
  csq_schema_local_version :: "int option"
  csq_steam_id_for_user :: "u64 option"

record legacy_stats_entry =
  lse_stat_id :: "u32 option"
  lse_stat_value :: "u32 option"

record achievement_block =
  acb_achievement_id :: "u32 option"
  acb_unlock_time :: "u32 list"

record client_get_user_stats_response =
  csr_game_id :: "u64 option"
  csr_eresult :: "int option"
  csr_crc_stats :: "u32 option"
  csr_schema :: "bytes option"
  csr_stats :: "legacy_stats_entry list"
  csr_achievement_blocks :: "achievement_block list"

record achievement_wire_id =
  awi_stat_id :: u32
  awi_achievement_bit :: u32

definition ACHIEVEMENT_UNLOCK_TIME_UNKNOWN :: u32 where
  "ACHIEVEMENT_UNLOCK_TIME_UNKNOWN = 1191999600"

section \<open>Identifiers and values\<close>

text \<open>Collecting pairs into a \<open>HashMap\<close>: the last pair of a key stays.\<close>

definition collect_map :: "('k \<times> 'v) list \<Rightarrow> 'k \<Rightarrow> 'v option" where
  "collect_map kvs = map_of (rev kvs)"

definition achievement_wire_ids ::
  "nat \<Rightarrow> (schema_map \<Rightarrow> schema_map) \<Rightarrow> bytes \<Rightarrow> (string \<Rightarrow> achievement_wire_id option) option" where
  "achievement_wire_ids w iter schema =
     map_option (\<lambda>mappings. collect_map (map (\<lambda>m. (abm_key m,
         \<lparr>awi_stat_id = abm_stat_id m, awi_achievement_bit = abm_achievement_bit m\<rparr>)) mappings))
       (result_ok (parse_achievement_bit_mappings w iter schema))"

definition stat_wire_ids :: "nat \<Rightarrow> (schema_map \<Rightarrow> schema_map) \<Rightarrow> bytes \<Rightarrow> (string \<Rightarrow> u32 option) option" where
  "stat_wire_ids w iter schema =
     map_option (\<lambda>mappings. collect_map (map (\<lambda>m. (smp_key m, smp_stat_id m)) mappings))
       (result_ok (parse_stat_mappings w iter schema))"

definition stat_wire_value :: "stat_sync_state \<Rightarrow> u32 option" where
  "stat_wire_value stat =
     (if sy_value_type stat = ''int'' then map_option word_of_int (parse_i32 (sy_value stat))
      else if sy_value_type stat = ''float'' \<or> sy_value_type stat = ''average_rate'' then parse_f32_bits (sy_value stat)
      else None)"

definition u32_try_from :: "int \<Rightarrow> u32 option" where
  "u32_try_from v = (if 0 \<le> v \<and> v < 2 ^ 32 then Some (word_of_int v) else None)"

definition wire_unlock_time :: "achievement_sync_state \<Rightarrow> u32 option" where
  "wire_unlock_time state =
     (if \<not> ay_unlocked state then Some 0
      else Some (unwrap_or ACHIEVEMENT_UNLOCK_TIME_UNKNOWN
             (opt_bind (opt_filter (\<lambda>v. 0 < v) (ay_unlocked_at state)) u32_try_from)))"

section \<open>Entries\<close>

text \<open>Changing the first element that satisfies \<open>P\<close>, which is pushed as \<open>new\<close> when there is none.\<close>

fun update_or_push :: "('a \<Rightarrow> bool) \<Rightarrow> ('a \<Rightarrow> 'a) \<Rightarrow> 'a \<Rightarrow> 'a list \<Rightarrow> 'a list" where
  "update_or_push P f new [] = [f new]"
| "update_or_push P f new (x # xs) = (if P x then f x # xs else x # update_or_push P f new xs)"

definition set_service_stat :: "u32 \<Rightarrow> u32 \<Rightarrow> player_stats_entry list \<Rightarrow> player_stats_entry list" where
  "set_service_stat stat_id v stats =
     update_or_push (\<lambda>e. pse_stat_id e = Some stat_id) (\<lambda>e. e\<lparr>pse_stat_value := Some v\<rparr>)
       \<lparr>pse_stat_id = Some stat_id, pse_stat_value = Some v, pse_unlock_times = []\<rparr> stats"

definition set_unlock_time :: "u32 \<Rightarrow> u32 \<Rightarrow> unlock_time list \<Rightarrow> unlock_time list" where
  "set_unlock_time b t ts =
     (let time = \<lparr>ut_achievement_bit = Some b, ut_unlock_time = Some t\<rparr>;
          ts' = update_or_push (\<lambda>x. ut_achievement_bit x = Some b) (\<lambda>x. x\<lparr>ut_unlock_time := Some t\<rparr>) time ts in
      if list_ex (\<lambda>x. ut_achievement_bit x = Some b) ts then ts'
      else sort_key (\<lambda>x. unwrap_or (- 1) (ut_achievement_bit x)) ts')"

definition achievement_entry :: "u32 \<Rightarrow> bool \<Rightarrow> u32 \<Rightarrow> player_stats_entry \<Rightarrow> player_stats_entry" where
  "achievement_entry b unlocked t e =
     (let previous_value = unwrap_or 0 (pse_stat_value e); mask = push_bit (unat b) 1 in
      e\<lparr>pse_stat_value := Some (if unlocked then previous_value OR mask else previous_value AND NOT mask),
        pse_unlock_times := (if unlocked then set_unlock_time b t (pse_unlock_times e)
                             else filter (\<lambda>x. ut_achievement_bit x \<noteq> Some b) (pse_unlock_times e))\<rparr>)"

definition set_service_achievement ::
  "achievement_wire_id \<Rightarrow> bool \<Rightarrow> u32 \<Rightarrow> player_stats_entry list \<Rightarrow> player_stats_entry list option" where
  "set_service_achievement wire_id unlocked t stats =
     (if 32 \<le> awi_achievement_bit wire_id then None
      else Some (update_or_push (\<lambda>e. pse_stat_id e = Some (awi_stat_id wire_id))
             (achievement_entry (awi_achievement_bit wire_id) unlocked t)
             \<lparr>pse_stat_id = Some (awi_stat_id wire_id), pse_stat_value = Some 0, pse_unlock_times = []\<rparr> stats))"

definition service_stat_step ::
  "(string \<Rightarrow> u32 option) \<Rightarrow> stat_sync_state \<Rightarrow> player_stats_entry list \<Rightarrow> player_stats_entry list" where
  "service_stat_step stat_ids stat stats =
     (case stat_ids (sy_stat_key stat) of None \<Rightarrow> stats
      | Some stat_id \<Rightarrow> (case stat_wire_value stat of None \<Rightarrow> stats | Some v \<Rightarrow> set_service_stat stat_id v stats))"

definition service_achievement_step ::
  "(string \<Rightarrow> achievement_wire_id option) \<Rightarrow> achievement_sync_state \<Rightarrow> player_stats_entry list \<Rightarrow> player_stats_entry list" where
  "service_achievement_step achievement_ids a stats =
     (case achievement_ids (ay_achievement_key a) of None \<Rightarrow> stats
      | Some wire_id \<Rightarrow>
          (case wire_unlock_time a of None \<Rightarrow> stats
           | Some t \<Rightarrow> unwrap_or stats (set_service_achievement wire_id (ay_unlocked a) t stats)))"

definition service_stats_entries ::
  "nat \<Rightarrow> (schema_map \<Rightarrow> schema_map) \<Rightarrow> u32 \<Rightarrow> bytes \<Rightarrow> achievement_sync_state list \<Rightarrow> stat_sync_state list
     \<Rightarrow> player_stats_entry list option" where
  "service_stats_entries w iter app_id schema achievements states =
     opt_bind (achievement_wire_ids w iter schema) (\<lambda>achievement_ids.
     opt_bind (stat_wire_ids w iter schema) (\<lambda>stat_ids.
     let stats = fold (service_stat_step stat_ids) (filter (\<lambda>s. sy_app_id s = app_id) states) [];
         stats = fold (service_achievement_step achievement_ids) (filter (\<lambda>a. ay_app_id a = app_id) achievements) stats in
     Some (sort_key (\<lambda>e. unwrap_or (- 1) (pse_stat_id e)) stats)))"

definition block_entry :: "nat \<Rightarrow> u32 \<Rightarrow> achievement_block \<Rightarrow> achievement_block" where
  "block_entry bit_index v block =
     (let ts = acb_unlock_time block;
          ts = (if length ts \<le> bit_index then ts @ replicate (bit_index + 1 - length ts) 0 else ts) in
      block\<lparr>acb_unlock_time := ts[bit_index := v]\<rparr>)"

definition set_legacy_achievement ::
  "achievement_wire_id \<Rightarrow> bool \<Rightarrow> u32 \<Rightarrow> achievement_block list \<Rightarrow> achievement_block list option" where
  "set_legacy_achievement wire_id unlocked t blocks =
     (if 32 \<le> awi_achievement_bit wire_id then None
      else Some (update_or_push (\<lambda>b. acb_achievement_id b = Some (awi_stat_id wire_id))
             (block_entry (unat (awi_achievement_bit wire_id)) (if unlocked then t else 0))
             \<lparr>acb_achievement_id = Some (awi_stat_id wire_id), acb_unlock_time = []\<rparr> blocks))"

definition legacy_stat_step ::
  "(string \<Rightarrow> u32 option) \<Rightarrow> stat_sync_state \<Rightarrow> legacy_stats_entry list \<Rightarrow> legacy_stats_entry list" where
  "legacy_stat_step stat_ids stat stats =
     (case stat_ids (sy_stat_key stat) of None \<Rightarrow> stats
      | Some stat_id \<Rightarrow>
          (case stat_wire_value stat of None \<Rightarrow> stats
           | Some v \<Rightarrow> stats @ [\<lparr>lse_stat_id = Some stat_id, lse_stat_value = Some v\<rparr>]))"

definition legacy_achievement_step ::
  "(string \<Rightarrow> achievement_wire_id option) \<Rightarrow> achievement_sync_state \<Rightarrow> achievement_block list \<Rightarrow> achievement_block list" where
  "legacy_achievement_step achievement_ids a blocks =
     (case achievement_ids (ay_achievement_key a) of None \<Rightarrow> blocks
      | Some wire_id \<Rightarrow>
          (case wire_unlock_time a of None \<Rightarrow> blocks
           | Some t \<Rightarrow> unwrap_or blocks (set_legacy_achievement wire_id (ay_unlocked a) t blocks)))"

definition legacy_stats_entries ::
  "nat \<Rightarrow> (schema_map \<Rightarrow> schema_map) \<Rightarrow> u32 \<Rightarrow> bytes \<Rightarrow> achievement_sync_state list \<Rightarrow> stat_sync_state list
     \<Rightarrow> (legacy_stats_entry list \<times> achievement_block list) option" where
  "legacy_stats_entries w iter app_id schema achievements states =
     opt_bind (achievement_wire_ids w iter schema) (\<lambda>achievement_ids.
     opt_bind (stat_wire_ids w iter schema) (\<lambda>stat_ids.
     let stats = fold (legacy_stat_step stat_ids) (filter (\<lambda>s. sy_app_id s = app_id) states) [];
         blocks = fold (legacy_achievement_step achievement_ids) (filter (\<lambda>a. ay_app_id a = app_id) achievements) [] in
     Some (sort_key (\<lambda>e. unwrap_or (- 1) (lse_stat_id e)) stats,
           sort_key (\<lambda>b. unwrap_or (- 1) (acb_achievement_id b)) blocks)))"

section \<open>Responses\<close>

text \<open>The bytes that \<open>merge_service_stats_response\<close> and \<open>merge_legacy_stats_response\<close> return are the encodings of these
  responses.\<close>

definition service_stats_response ::
  "nat \<Rightarrow> (schema_map \<Rightarrow> schema_map) \<Rightarrow> (player_stats_entry \<Rightarrow> bytes) \<Rightarrow> player_get_user_stats_request
     \<Rightarrow> player_get_user_stats_response \<Rightarrow> bytes \<Rightarrow> app_stats_result option \<Rightarrow> player_get_user_stats_response option" where
  "service_stats_response w iter encode_entry request donor full_schema backend =
     opt_bind (nonzero (psq_appid request)) (\<lambda>app_id.
     let donor = donor\<lparr>psr_schema := (if psq_sha_schema request \<noteq> psr_sha_schema donor then Some full_schema else None),
                       psr_stats := [], psr_crc_stats := None, psr_crc_schema := None\<rparr> in
     case backend of
       Some (Unchanged _ crc_stats) \<Rightarrow> Some (donor\<lparr>psr_crc_stats := Some crc_stats\<rparr>)
     | Some (Modified _ crc_stats achievements stats) \<Rightarrow>
         opt_bind (service_stats_entries w iter app_id full_schema achievements stats) (\<lambda>entries.
         let crc = unwrap_or (stats_crc encode_entry entries) crc_stats in
         Some (donor\<lparr>psr_crc_stats := Some crc,
                     psr_stats := (if crc_stats = None \<and> psq_crc_stats request = Some crc then [] else entries)\<rparr>))
     | _ \<Rightarrow> Some donor)"

definition merge_service_stats_response ::
  "nat \<Rightarrow> (schema_map \<Rightarrow> schema_map) \<Rightarrow> (player_stats_entry \<Rightarrow> bytes) \<Rightarrow> (player_get_user_stats_response \<Rightarrow> bytes)
     \<Rightarrow> player_get_user_stats_request \<Rightarrow> player_get_user_stats_response \<Rightarrow> bytes \<Rightarrow> app_stats_result option \<Rightarrow> bytes option" where
  "merge_service_stats_response w iter encode_entry encode request donor full_schema backend =
     map_option encode (service_stats_response w iter encode_entry request donor full_schema backend)"

definition legacy_stats_response ::
  "nat \<Rightarrow> (schema_map \<Rightarrow> schema_map) \<Rightarrow> (player_stats_entry \<Rightarrow> bytes) \<Rightarrow> client_get_user_stats_request
     \<Rightarrow> client_get_user_stats_response \<Rightarrow> bytes \<Rightarrow> app_stats_result option \<Rightarrow> client_get_user_stats_response option" where
  "legacy_stats_response w iter encode_entry request donor full_schema backend =
     opt_bind (csq_game_id request) (\<lambda>game_id.
     opt_bind (app_id_from_game_id game_id) (\<lambda>app_id.
     let donor = donor\<lparr>csr_game_id := Some game_id, csr_schema := Some full_schema,
                       csr_stats := [], csr_achievement_blocks := [], csr_crc_stats := None\<rparr> in
     case backend of
       Some (Unchanged _ crc_stats) \<Rightarrow> Some (donor\<lparr>csr_crc_stats := Some crc_stats\<rparr>)
     | Some (Modified _ crc_stats achievements stats) \<Rightarrow>
         opt_bind (case crc_stats of
             None \<Rightarrow> map_option (stats_crc encode_entry) (service_stats_entries w iter app_id full_schema achievements stats)
           | Some crc \<Rightarrow> Some crc) (\<lambda>crc.
         let donor = donor\<lparr>csr_crc_stats := Some crc\<rparr> in
         if \<not> (crc_stats = None \<and> csq_crc_stats request = Some crc)
         then opt_bind (legacy_stats_entries w iter app_id full_schema achievements stats) (\<lambda>(entries, blocks).
              Some (donor\<lparr>csr_stats := entries, csr_achievement_blocks := blocks\<rparr>))
         else Some donor)
     | _ \<Rightarrow> Some donor))"

definition merge_legacy_stats_response ::
  "nat \<Rightarrow> (schema_map \<Rightarrow> schema_map) \<Rightarrow> (player_stats_entry \<Rightarrow> bytes) \<Rightarrow> (client_get_user_stats_response \<Rightarrow> bytes)
     \<Rightarrow> client_get_user_stats_request \<Rightarrow> client_get_user_stats_response \<Rightarrow> bytes \<Rightarrow> app_stats_result option \<Rightarrow> bytes option" where
  "merge_legacy_stats_response w iter encode_entry encode request donor full_schema backend =
     map_option encode (legacy_stats_response w iter encode_entry request donor full_schema backend)"

section \<open>What the entries stand for\<close>

text \<open>The updates that the states of one app make: a key that the schema does not declare, a value that does not
  encode and a bit outside the word make none.\<close>

definition stat_update :: "(string \<Rightarrow> u32 option) \<Rightarrow> stat_sync_state \<Rightarrow> (u32 \<times> u32) option" where
  "stat_update stat_ids s = opt_bind (stat_ids (sy_stat_key s)) (\<lambda>stat_id. map_option (Pair stat_id) (stat_wire_value s))"

definition stat_updates :: "(string \<Rightarrow> u32 option) \<Rightarrow> u32 \<Rightarrow> stat_sync_state list \<Rightarrow> (u32 \<times> u32) list" where
  "stat_updates stat_ids app_id states = List.map_filter (stat_update stat_ids) (filter (\<lambda>s. sy_app_id s = app_id) states)"

definition achievement_update ::
  "(string \<Rightarrow> achievement_wire_id option) \<Rightarrow> achievement_sync_state \<Rightarrow> ((u32 \<times> u32) \<times> (bool \<times> u32)) option" where
  "achievement_update achievement_ids a =
     opt_bind (achievement_ids (ay_achievement_key a)) (\<lambda>wire_id.
     if 32 \<le> awi_achievement_bit wire_id then None
     else map_option (\<lambda>t. ((awi_stat_id wire_id, awi_achievement_bit wire_id), (ay_unlocked a, t))) (wire_unlock_time a))"

definition achievement_updates ::
  "(string \<Rightarrow> achievement_wire_id option) \<Rightarrow> u32 \<Rightarrow> achievement_sync_state list \<Rightarrow> ((u32 \<times> u32) \<times> (bool \<times> u32)) list" where
  "achievement_updates achievement_ids app_id achievements =
     List.map_filter (achievement_update achievement_ids) (filter (\<lambda>a. ay_app_id a = app_id) achievements)"

type_synonym stat_state = "u32 \<Rightarrow> u32 option"
type_synonym achievement_state = "u32 \<times> u32 \<Rightarrow> (bool \<times> u32) option"

text \<open>Bit \<open>n\<close> of the value of stat \<open>i\<close>: the achievement's, where there is one, over the stat's own.\<close>

definition expected_bit :: "stat_state \<Rightarrow> achievement_state \<Rightarrow> u32 \<Rightarrow> nat \<Rightarrow> bool" where
  "expected_bit sm am i n =
     (case am (i, of_nat n) of Some (unlocked, _) \<Rightarrow> unlocked | None \<Rightarrow> bit (unwrap_or 0 (sm i)) n)"

definition time_at :: "u32 \<Rightarrow> u32 \<Rightarrow> unlock_time" where
  "time_at b t = \<lparr>ut_achievement_bit = Some b, ut_unlock_time = Some t\<rparr>"

definition times_represent :: "achievement_state \<Rightarrow> u32 \<Rightarrow> unlock_time list \<Rightarrow> bool" where
  "times_represent am i ts \<longleftrightarrow> sorted (map (\<lambda>x. unwrap_or (- 1) (ut_achievement_bit x)) ts)
     \<and> distinct (map ut_achievement_bit ts) \<and> set ts = {time_at b t |b t. am (i, b) = Some (True, t)}"

definition entry_represents :: "stat_state \<Rightarrow> achievement_state \<Rightarrow> player_stats_entry \<Rightarrow> bool" where
  "entry_represents sm am e \<longleftrightarrow> (\<exists>i v. pse_stat_id e = Some i \<and> pse_stat_value e = Some v
     \<and> (\<forall>n < 32. bit v n \<longleftrightarrow> expected_bit sm am i n) \<and> times_represent am i (pse_unlock_times e))"

definition entries_represent :: "stat_state \<Rightarrow> achievement_state \<Rightarrow> player_stats_entry list \<Rightarrow> bool" where
  "entries_represent sm am es \<longleftrightarrow> distinct (map pse_stat_id es) \<and> pse_stat_id ` set es = Some ` (dom sm \<union> fst ` dom am)
     \<and> (\<forall>e \<in> set es. entry_represents sm am e)"

text \<open>The time at a bit of a block, 0 where the block is too short.\<close>

definition slot :: "u32 list \<Rightarrow> nat \<Rightarrow> u32" where
  "slot ts n = (if n < length ts then ts ! n else 0)"

definition expected_slot :: "achievement_state \<Rightarrow> u32 \<Rightarrow> u32 \<Rightarrow> u32" where
  "expected_slot am i b = (case am (i, b) of Some (unlocked, t) \<Rightarrow> if unlocked then t else 0 | None \<Rightarrow> 0)"

definition block_represents :: "achievement_state \<Rightarrow> achievement_block \<Rightarrow> bool" where
  "block_represents am blk \<longleftrightarrow> (\<exists>i. acb_achievement_id blk = Some i
     \<and> (\<forall>n < 32. slot (acb_unlock_time blk) n = expected_slot am i (of_nat n)))"

definition blocks_represent :: "achievement_state \<Rightarrow> achievement_block list \<Rightarrow> bool" where
  "blocks_represent am bs \<longleftrightarrow> distinct (map acb_achievement_id bs) \<and> acb_achievement_id ` set bs = Some ` fst ` dom am
     \<and> (\<forall>blk \<in> set bs. block_represents am blk)"

section \<open>Lemmas\<close>

lemma update_or_push_cases:
  obtains (found) ys x zs where "xs = ys @ x # zs" "k x = i" "\<forall>y \<in> set ys. k y \<noteq> i"
      "update_or_push (\<lambda>x. k x = i) f new xs = ys @ f x # zs" "find (\<lambda>x. k x = i) xs = Some x"
  | (pushed) "\<forall>y \<in> set xs. k y \<noteq> i" "update_or_push (\<lambda>x. k x = i) f new xs = xs @ [f new]" "find (\<lambda>x. k x = i) xs = None"
proof -
  have "(\<exists>ys x zs. xs = ys @ x # zs \<and> k x = i \<and> (\<forall>y \<in> set ys. k y \<noteq> i)
        \<and> update_or_push (\<lambda>x. k x = i) f new xs = ys @ f x # zs \<and> find (\<lambda>x. k x = i) xs = Some x)
      \<or> (\<forall>y \<in> set xs. k y \<noteq> i) \<and> update_or_push (\<lambda>x. k x = i) f new xs = xs @ [f new] \<and> find (\<lambda>x. k x = i) xs = None"
  proof (induction xs)
    case (Cons a xs)
    show ?case
    proof (cases "k a = i")
      case True
      then show ?thesis by (intro disjI1 exI [of _ "[]"]) simp
    next
      case False
      from Cons.IH show ?thesis
      proof
        assume "\<exists>ys x zs. xs = ys @ x # zs \<and> k x = i \<and> (\<forall>y \<in> set ys. k y \<noteq> i)
          \<and> update_or_push (\<lambda>x. k x = i) f new xs = ys @ f x # zs \<and> find (\<lambda>x. k x = i) xs = Some x"
        then obtain ys x zs where "xs = ys @ x # zs" "k x = i" "\<forall>y \<in> set ys. k y \<noteq> i"
          "update_or_push (\<lambda>x. k x = i) f new xs = ys @ f x # zs" "find (\<lambda>x. k x = i) xs = Some x" by (elim exE conjE)
        with False show ?thesis by (intro disjI1 exI [of _ "a # ys"] exI [of _ x] exI [of _ zs]) simp
      qed (simp add: False)
    qed
  qed simp
  then show thesis using found pushed by (elim disjE exE conjE) blast+
qed

lemma update_or_push_laws:
  assumes "distinct (map k xs)" "\<And>x. k (f x) = k x" "k new = i"
  shows update_or_push_set: "set (update_or_push (\<lambda>x. k x = i) f new xs)
      = insert (f (unwrap_or new (find (\<lambda>x. k x = i) xs))) {y \<in> set xs. k y \<noteq> i}"
    and update_or_push_distinct: "distinct (map k (update_or_push (\<lambda>x. k x = i) f new xs))"
    and update_or_push_keys: "k ` set (update_or_push (\<lambda>x. k x = i) f new xs) = insert i (k ` set xs)"
  by (cases rule: update_or_push_cases [of xs k i f new]; use assms in \<open>auto simp: image_iff\<close>)+

lemma collect_map_Cons: "am ++ collect_map (x # xs) = am(fst x \<mapsto> snd x) ++ collect_map xs"
proof -
  have "am ++ collect_map (x # xs) = am ++ ([fst x \<mapsto> snd x] ++ collect_map xs)" by (simp add: collect_map_def)
  then show ?thesis by (simp add: map_add_assoc [symmetric])
qed

lemma of_nat_u32_less: "n < 32 \<Longrightarrow> b < 32 \<Longrightarrow> (of_nat n = (b :: u32)) \<longleftrightarrow> n = unat b"
  by (auto simp: unat_of_nat word_less_nat_alt)

lemma expected_bit_other: "i \<noteq> j \<Longrightarrow> expected_bit sm (am((j, b) \<mapsto> x)) i n = expected_bit sm am i n"
  by (simp add: expected_bit_def)

lemma expected_bit_same: "n < 32 \<Longrightarrow> b < 32 \<Longrightarrow>
    expected_bit sm (am((i, b) \<mapsto> (u, t))) i n \<longleftrightarrow> (if n = unat b then u else expected_bit sm am i n)"
  by (simp add: expected_bit_def of_nat_u32_less)

lemma times_represent_other: "i \<noteq> j \<Longrightarrow> times_represent (am((j, b) \<mapsto> x)) i ts = times_represent am i ts"
  by (simp add: times_represent_def)

lemma time_at_simps [simp]: "ut_achievement_bit (time_at b t) = Some b" "ut_unlock_time (time_at b t) = Some t"
  "time_at b t = time_at b' t' \<longleftrightarrow> b = b' \<and> t = t'"
  by (simp_all add: time_at_def)

lemma time_at_cases: "ut_achievement_bit x = Some b \<Longrightarrow> x\<lparr>ut_unlock_time := Some t\<rparr> = time_at b t"
  by (simp add: time_at_def)

lemma find_key:
  obtains (none) "find (\<lambda>x. k x = i) xs = None" "i \<notin> k ` set xs"
  | (some) x where "find (\<lambda>x. k x = i) xs = Some x" "x \<in> set xs" "k x = i"
proof (cases "find (\<lambda>x. k x = i) xs")
  case None
  then show thesis using none by (auto simp: find_None_iff)
next
  case (Some x)
  then have "x \<in> set xs" "k x = i" by (auto simp: find_Some_iff)
  then show thesis using some Some by blast
qed

lemma times_represent_retain:
  assumes "times_represent am i ts"
  shows "times_represent (am((i, b) \<mapsto> (False, t))) i (filter (\<lambda>x. ut_achievement_bit x \<noteq> Some b) ts)"
  using assms by (auto simp: times_represent_def sorted_filter distinct_map_filter)

lemma map_update_or_push:
  assumes "\<And>x. k (f x) = k x" "i \<in> k ` set xs" shows "map k (update_or_push (\<lambda>x. k x = i) f new xs) = map k xs"
  by (cases rule: update_or_push_cases [of xs k i f new]) (use assms in \<open>auto\<close>)

lemma times_represent_set:
  assumes "times_represent am i ts" shows "times_represent (am((i, b) \<mapsto> (True, t))) i (set_unlock_time b t ts)"
proof -
  let ?k = ut_achievement_bit and ?f = "\<lambda>x. x\<lparr>ut_unlock_time := Some t\<rparr>" and ?new = "time_at b t"
  let ?am = "am((i, b) \<mapsto> (True, t))" and ?u = "update_or_push (\<lambda>x. ?k x = Some b) ?f ?new ts"
  have d: "distinct (map ?k ts)" and sorted: "sorted (map (\<lambda>x. unwrap_or (- 1) (?k x)) ts)"
    and ts: "set ts = {time_at b t |b t. am (i, b) = Some (True, t)}" using assms by (simp_all add: times_represent_def)
  have k: "?k (?f x) = ?k x" for x by simp
  have f: "?f (unwrap_or ?new (find (\<lambda>x. ?k x = Some b) ts)) = time_at b t"
    by (cases rule: find_key [of ?k "Some b" ts]) (simp_all add: time_at_cases)
  have u: "set ?u = insert (time_at b t) {y \<in> set ts. ?k y \<noteq> Some b}"
    using update_or_push_set [of ?k ts ?f ?new "Some b"] d f by simp
  have "insert (time_at b t) {y \<in> set ts. ?k y \<noteq> Some b} = {time_at b' t' |b' t'. ?am (i, b') = Some (True, t')}"
    unfolding ts by auto
  with u have set: "set ?u = {time_at b' t' |b' t'. ?am (i, b') = Some (True, t')}" by (rule trans)
  have dist: "distinct (map ?k ?u)" using update_or_push_distinct [of ?k ts ?f ?new "Some b"] d by simp
  have eq: "set_unlock_time b t ts = (if list_ex (\<lambda>x. ?k x = Some b) ts then ?u
      else sort_key (\<lambda>x. unwrap_or (- 1) (?k x)) ?u)" by (simp add: set_unlock_time_def time_at_def Let_def)
  have keep: "map (\<lambda>x. unwrap_or (- 1) (?k x)) ?u = map (\<lambda>x. unwrap_or (- 1) (?k x)) ts" if "list_ex (\<lambda>x. ?k x = Some b) ts"
  proof -
    have "Some b \<in> ?k ` set ts" using that by (force simp: list_ex_iff)
    then have "map ?k ?u = map ?k ts" by (intro map_update_or_push) simp_all
    then have "map (unwrap_or (- 1)) (map ?k ?u) = map (unwrap_or (- 1)) (map ?k ts)" by (rule arg_cong)
    then show ?thesis by (simp add: o_def)
  qed
  have "distinct (map ?k (sort_key (\<lambda>x. unwrap_or (- 1) (?k x)) ?u))" using dist by (simp add: distinct_map)
  then have "times_represent ?am i (sort_key (\<lambda>x. unwrap_or (- 1) (?k x)) ?u)"
    unfolding times_represent_def by (simp only: set set_sort sorted_sort_key simp_thms)
  moreover have "times_represent ?am i ?u" if "list_ex (\<lambda>x. ?k x = Some b) ts"
    unfolding times_represent_def keep [OF that] using sorted dist set by blast
  ultimately show ?thesis unfolding eq by (cases "list_ex (\<lambda>x. ?k x = Some b) ts") (simp_all only: if_True if_False)
qed

lemma entry_represents_achievement:
  assumes "entry_represents sm am e" "pse_stat_id e = Some i" "b < 32"
  shows "entry_represents sm (am((i, b) \<mapsto> (u, t))) (achievement_entry b u t e)"
proof -
  obtain v where v: "pse_stat_value e = Some v" "\<And>n. n < 32 \<Longrightarrow> bit v n \<longleftrightarrow> expected_bit sm am i n"
    and ts: "times_represent am i (pse_unlock_times e)" using assms(1,2) by (auto simp: entry_represents_def)
  have b: "unat b < 32" using assms(3) by (simp add: word_less_nat_alt)
  show ?thesis
    using assms(2,3) v ts b times_represent_set [OF ts, of b t] times_represent_retain [OF ts, of b t]
    by (auto simp: entry_represents_def achievement_entry_def Let_def expected_bit_same bit_or_iff bit_and_iff bit_not_iff
        bit_push_bit_iff bit_exp_iff)
qed

lemma entry_represents_other:
  "pse_stat_id e \<noteq> Some i \<Longrightarrow> entry_represents sm am e \<Longrightarrow> entry_represents sm (am((i, b) \<mapsto> x)) e"
  by (auto simp: entry_represents_def expected_bit_other times_represent_other)


lemma entries_represent_achievement:
  assumes rep: "entries_represent sm am es" and b: "awi_achievement_bit wid < 32"
  shows "\<exists>es'. set_service_achievement wid u t es = Some es'
     \<and> entries_represent sm (am((awi_stat_id wid, awi_achievement_bit wid) \<mapsto> (u, t))) es'"
proof -
  define i b where "i = awi_stat_id wid" and "b = awi_achievement_bit wid"
  let ?f = "achievement_entry b u t" and ?new = "\<lparr>pse_stat_id = Some i, pse_stat_value = Some 0, pse_unlock_times = []\<rparr>"
  let ?old = "unwrap_or ?new (find (\<lambda>e. pse_stat_id e = Some i) es)" and ?am = "am((i, b) \<mapsto> (u, t))"
  let ?es = "update_or_push (\<lambda>e. pse_stat_id e = Some i) ?f ?new es"
  have k: "pse_stat_id (?f e) = pse_stat_id e" for e by (simp add: achievement_entry_def Let_def)
  have d: "distinct (map pse_stat_id es)" and ids: "pse_stat_id ` set es = Some ` (dom sm \<union> fst ` dom am)"
    and e: "\<And>e. e \<in> set es \<Longrightarrow> entry_represents sm am e" using rep by (simp_all add: entries_represent_def)
  have old: "entry_represents sm am ?old \<and> pse_stat_id ?old = Some i"
  proof (cases rule: find_key [of pse_stat_id "Some i" es])
    case none
    then have "i \<notin> dom sm" "i \<notin> fst ` dom am" by (auto simp: ids)
    then have "sm i = None" "am (i, b) = None" for b by (simp add: domIff, metis domIff fst_conv image_eqI)
    then show ?thesis using none
      by (auto simp: entry_represents_def expected_bit_def times_represent_def)
  qed (simp_all add: e)
  then have new: "entry_represents sm ?am (?f ?old)" using b by (intro entry_represents_achievement) (simp_all add: b_def)
  have "entry_represents sm ?am x" if "x \<in> set ?es" for x
    using that new e entry_represents_other by (auto simp: update_or_push_set [OF d k])
  moreover have "pse_stat_id ` set ?es = Some ` (dom sm \<union> fst ` dom ?am)"
    using update_or_push_keys [OF d k, of ?new "Some i"] by (auto simp: ids)
  ultimately have "entries_represent sm ?am ?es"
    using update_or_push_distinct [OF d k, of ?new "Some i"] by (simp add: entries_represent_def)
  then show ?thesis using b by (simp add: set_service_achievement_def i_def b_def not_le)
qed

lemma entries_represent_stat:
  assumes rep: "entries_represent sm Map.empty es"
  shows "entries_represent (sm(i \<mapsto> v)) Map.empty (set_service_stat i v es)"
proof -
  let ?f = "\<lambda>e. e\<lparr>pse_stat_value := Some v\<rparr>" and ?new = "\<lparr>pse_stat_id = Some i, pse_stat_value = Some v, pse_unlock_times = []\<rparr>"
  let ?old = "unwrap_or ?new (find (\<lambda>e. pse_stat_id e = Some i) es)"
  have k: "pse_stat_id (?f e) = pse_stat_id e" for e by simp
  have d: "distinct (map pse_stat_id es)" and ids: "pse_stat_id ` set es = Some ` dom sm"
    and e: "\<And>e. e \<in> set es \<Longrightarrow> entry_represents sm Map.empty e" using rep by (simp_all add: entries_represent_def)
  have "pse_stat_id ?old = Some i \<and> pse_unlock_times ?old = []"
    by (cases rule: find_key [of pse_stat_id "Some i" es]) (auto dest: e simp: entry_represents_def times_represent_def)
  then have new: "entry_represents (sm(i \<mapsto> v)) Map.empty (?f ?old)"
    by (auto simp: entry_represents_def expected_bit_def times_represent_def)
  have other: "entry_represents (sm(i \<mapsto> v)) Map.empty x" if "x \<in> set es" "pse_stat_id x \<noteq> Some i" for x
    using e [OF that(1)] that(2) by (auto simp: entry_represents_def expected_bit_def)
  show ?thesis unfolding set_service_stat_def entries_represent_def
    using new other update_or_push_keys [OF d k, of ?new "Some i"] update_or_push_distinct [OF d k, of ?new "Some i"]
    by (auto simp: update_or_push_set [OF d k] ids)
qed


lemma entries_represent_stats:
  "entries_represent sm Map.empty es \<Longrightarrow>
     entries_represent (sm ++ collect_map (List.map_filter (stat_update ids) ss)) Map.empty (fold (service_stat_step ids) ss es)"
proof (induction ss arbitrary: sm es)
  case Nil
  then show ?case by (simp add: collect_map_def)
next
  case (Cons s ss)
  show ?case
  proof (cases "stat_update ids s")
    case None
    then have "service_stat_step ids s es = es"
      by (auto simp: stat_update_def service_stat_step_def opt_bind_def split: option.splits)
    with Cons None show ?thesis by simp
  next
    case (Some iv)
    then have "service_stat_step ids s es = set_service_stat (fst iv) (snd iv) es"
      by (auto simp: stat_update_def service_stat_step_def opt_bind_def split: option.splits)
    moreover have "entries_represent (sm(fst iv \<mapsto> snd iv)) Map.empty (set_service_stat (fst iv) (snd iv) es)"
      by (rule entries_represent_stat [OF Cons.prems])
    ultimately show ?thesis using Cons.IH Some by (simp add: collect_map_Cons)
  qed
qed

lemma achievement_update_Some:
  assumes "achievement_update ids a = Some p"
  obtains wid t where "ids (ay_achievement_key a) = Some wid" "awi_achievement_bit wid < 32" "wire_unlock_time a = Some t"
    "p = ((awi_stat_id wid, awi_achievement_bit wid), (ay_unlocked a, t))"
  using assms by (auto simp: achievement_update_def opt_bind_def not_le split: option.splits if_splits)

lemma achievement_steps_None:
  assumes "achievement_update ids a = None"
  shows "service_achievement_step ids a es = es" "legacy_achievement_step ids a bs = bs"
  using assms by (auto simp: achievement_update_def service_achievement_step_def legacy_achievement_step_def
      set_service_achievement_def set_legacy_achievement_def opt_bind_def split: option.splits if_splits)

lemma entries_represent_achievements:
  "entries_represent sm am es \<Longrightarrow>
     entries_represent sm (am ++ collect_map (List.map_filter (achievement_update ids) as)) (fold (service_achievement_step ids) as es)"
proof (induction as arbitrary: am es)
  case Nil
  then show ?case by (simp add: collect_map_def)
next
  case (Cons a as)
  show ?case
  proof (cases "achievement_update ids a")
    case None
    with Cons show ?thesis by (simp add: achievement_steps_None)
  next
    case (Some p)
    then obtain wid t where w: "ids (ay_achievement_key a) = Some wid" "awi_achievement_bit wid < 32" "wire_unlock_time a = Some t"
      and p: "p = ((awi_stat_id wid, awi_achievement_bit wid), (ay_unlocked a, t))" by (rule achievement_update_Some)
    obtain es' where "set_service_achievement wid (ay_unlocked a) t es = Some es'" "entries_represent sm (am(fst p \<mapsto> snd p)) es'"
      using entries_represent_achievement [OF Cons.prems w(2)] p by auto
    then show ?thesis using Cons.IH Some w by (simp add: collect_map_Cons service_achievement_step_def)
  qed
qed

lemma entries_represent_sort: "entries_represent sm am es \<Longrightarrow> entries_represent sm am (sort_key f es)"
  by (simp add: entries_represent_def distinct_map)

lemma service_stats_entries_represent:
  assumes "achievement_wire_ids w iter schema = Some aids" "stat_wire_ids w iter schema = Some sids"
  shows "\<exists>es. service_stats_entries w iter app schema as ss = Some es
     \<and> sorted (map (\<lambda>e. unwrap_or (- 1) (pse_stat_id e)) es)
     \<and> entries_represent (collect_map (stat_updates sids app ss)) (collect_map (achievement_updates aids app as)) es"
proof -
  have "entries_represent Map.empty Map.empty []" by (simp add: entries_represent_def)
  then have "entries_represent (collect_map (stat_updates sids app ss)) Map.empty
      (fold (service_stat_step sids) (filter (\<lambda>s. sy_app_id s = app) ss) [])"
    using entries_represent_stats by (fastforce simp: stat_updates_def)
  then have "entries_represent (collect_map (stat_updates sids app ss)) (collect_map (achievement_updates aids app as))
      (fold (service_achievement_step aids) (filter (\<lambda>a. ay_app_id a = app) as)
        (fold (service_stat_step sids) (filter (\<lambda>s. sy_app_id s = app) ss) []))"
    using entries_represent_achievements by (fastforce simp: achievement_updates_def)
  then show ?thesis using assms by (simp add: service_stats_entries_def opt_bind_def Let_def entries_represent_sort)
qed

lemma slot_block_entry: "slot (acb_unlock_time (block_entry k v blk)) n = (if n = k then v else slot (acb_unlock_time blk) n)"
  by (auto simp: slot_def block_entry_def Let_def nth_append nth_list_update)

lemma block_entry_id: "acb_achievement_id (block_entry k v blk) = acb_achievement_id blk"
  by (simp add: block_entry_def Let_def)

lemma expected_slot_update:
  "expected_slot (am((j, b) \<mapsto> (u, t))) i c = (if i = j \<and> c = b then if u then t else 0 else expected_slot am i c)"
  by (simp add: expected_slot_def)

lemma block_represents_update:
  assumes "block_represents am blk" "acb_achievement_id blk = Some i" "b < 32"
  shows "block_represents (am((i, b) \<mapsto> (u, t))) (block_entry (unat b) (if u then t else 0) blk)"
  using assms by (auto simp: block_represents_def block_entry_id slot_block_entry expected_slot_update of_nat_u32_less)

lemma blocks_represent_achievement:
  assumes rep: "blocks_represent am bs" and b: "awi_achievement_bit wid < 32"
  shows "\<exists>bs'. set_legacy_achievement wid u t bs = Some bs'
     \<and> blocks_represent (am((awi_stat_id wid, awi_achievement_bit wid) \<mapsto> (u, t))) bs'"
proof -
  define i b where "i = awi_stat_id wid" and "b = awi_achievement_bit wid"
  let ?f = "block_entry (unat b) (if u then t else 0)" and ?new = "\<lparr>acb_achievement_id = Some i, acb_unlock_time = []\<rparr>"
  let ?old = "unwrap_or ?new (find (\<lambda>e. acb_achievement_id e = Some i) bs)" and ?am = "am((i, b) \<mapsto> (u, t))"
  let ?bs = "update_or_push (\<lambda>e. acb_achievement_id e = Some i) ?f ?new bs"
  have k: "acb_achievement_id (?f e) = acb_achievement_id e" for e by (rule block_entry_id)
  have d: "distinct (map acb_achievement_id bs)" and ids: "acb_achievement_id ` set bs = Some ` fst ` dom am"
    and e: "\<And>e. e \<in> set bs \<Longrightarrow> block_represents am e" using rep by (simp_all add: blocks_represent_def)
  have old: "block_represents am ?old \<and> acb_achievement_id ?old = Some i"
  proof (cases rule: find_key [of acb_achievement_id "Some i" bs])
    case none
    then have "i \<notin> fst ` dom am" by (auto simp: ids)
    then have "am (i, b) = None" for b by (metis domIff fst_conv image_eqI)
    then show ?thesis using none by (auto simp: block_represents_def slot_def expected_slot_def)
  qed (simp_all add: e)
  then have new: "block_represents ?am (?f ?old)" using b by (intro block_represents_update) (simp_all add: b_def)
  have other: "block_represents ?am x" if "x \<in> set bs" "acb_achievement_id x \<noteq> Some i" for x
    using e [OF that(1)] that(2) by (auto simp: block_represents_def expected_slot_update)
  then have "block_represents ?am x" if "x \<in> set ?bs" for x using that new by (auto simp: update_or_push_set [OF d k])
  moreover have "acb_achievement_id ` set ?bs = Some ` fst ` dom ?am"
    using update_or_push_keys [OF d k, of ?new "Some i"] by (auto simp: ids)
  ultimately have "blocks_represent ?am ?bs"
    using update_or_push_distinct [OF d k, of ?new "Some i"] by (simp add: blocks_represent_def)
  then show ?thesis using b by (simp add: set_legacy_achievement_def i_def b_def not_le)
qed


lemma blocks_represent_achievements:
  "blocks_represent am bs \<Longrightarrow>
     blocks_represent (am ++ collect_map (List.map_filter (achievement_update ids) as)) (fold (legacy_achievement_step ids) as bs)"
proof (induction as arbitrary: am bs)
  case Nil
  then show ?case by (simp add: collect_map_def)
next
  case (Cons a as)
  show ?case
  proof (cases "achievement_update ids a")
    case None
    with Cons show ?thesis by (simp add: achievement_steps_None)
  next
    case (Some p)
    then obtain wid t where w: "ids (ay_achievement_key a) = Some wid" "awi_achievement_bit wid < 32" "wire_unlock_time a = Some t"
      and p: "p = ((awi_stat_id wid, awi_achievement_bit wid), (ay_unlocked a, t))" by (rule achievement_update_Some)
    obtain bs' where "set_legacy_achievement wid (ay_unlocked a) t bs = Some bs'" "blocks_represent (am(fst p \<mapsto> snd p)) bs'"
      using blocks_represent_achievement [OF Cons.prems w(2)] p by auto
    then show ?thesis using Cons.IH Some w by (simp add: collect_map_Cons legacy_achievement_step_def)
  qed
qed

lemma legacy_stats_entries_represent:
  assumes "achievement_wire_ids w iter schema = Some aids" "stat_wire_ids w iter schema = Some sids"
  shows "\<exists>ls bs. legacy_stats_entries w iter app schema as ss = Some (ls, bs)
     \<and> blocks_represent (collect_map (achievement_updates aids app as)) bs"
proof -
  have "blocks_represent Map.empty []" by (simp add: blocks_represent_def)
  then have "blocks_represent (collect_map (achievement_updates aids app as))
      (fold (legacy_achievement_step aids) (filter (\<lambda>a. ay_app_id a = app) as) [])"
    using blocks_represent_achievements by (fastforce simp: achievement_updates_def)
  then have "blocks_represent (collect_map (achievement_updates aids app as)) (sort_key f
      (fold (legacy_achievement_step aids) (filter (\<lambda>a. ay_app_id a = app) as) []))" for f :: "achievement_block \<Rightarrow> u32"
    by (simp add: blocks_represent_def distinct_map)
  then show ?thesis using assms by (simp add: legacy_stats_entries_def opt_bind_def Let_def)
qed

text \<open>The entries are determined by what they stand for.\<close>

lemma times_represent_unique:
  assumes "times_represent am i ts" "times_represent am i ts'" shows "ts = ts'"
proof (rule map_sorted_distinct_set_unique)
  let ?k = "\<lambda>x. unwrap_or (- 1) (ut_achievement_bit x)"
  have t: "set ts = {time_at b t |b t. am (i, b) = Some (True, t)}" "set ts' = {time_at b t |b t. am (i, b) = Some (True, t)}"
    using assms by (simp_all add: times_represent_def)
  then show "set ts = set ts'" by simp
  have "inj_on ?k (set ts)" unfolding t by (auto intro!: inj_onI)
  then show "inj_on ?k (set ts \<union> set ts')" using \<open>set ts = set ts'\<close> by simp
  then show "distinct (map ?k ts)" "distinct (map ?k ts')"
    using assms by (auto simp: times_represent_def distinct_map)
qed (use assms in \<open>simp_all add: times_represent_def\<close>)

lemma entry_represents_unique:
  assumes "entry_represents sm am e" "entry_represents sm am e'" "pse_stat_id e = pse_stat_id e'" shows "e = e'"
proof -
  obtain i v v' where i: "pse_stat_id e = Some i" "pse_stat_id e' = Some i" and v: "pse_stat_value e = Some v" "pse_stat_value e' = Some v'"
    and bits: "\<And>n. n < 32 \<Longrightarrow> bit v n \<longleftrightarrow> bit v' n"
    and ts: "times_represent am i (pse_unlock_times e)" "times_represent am i (pse_unlock_times e')"
    using assms by (auto simp: entry_represents_def)
  have "v = v'" using bits by (intro bit_word_eqI) simp
  then show ?thesis using i v times_represent_unique [OF ts] by (cases e; cases e') simp
qed

lemma entries_represent_unique:
  assumes "entries_represent sm am es" "entries_represent sm am es'"
    and sorted: "sorted (map (\<lambda>e. unwrap_or (- 1) (pse_stat_id e)) es)" "sorted (map (\<lambda>e. unwrap_or (- 1) (pse_stat_id e)) es')"
  shows "es = es'"
proof (rule map_sorted_distinct_set_unique)
  let ?k = "\<lambda>e. unwrap_or (- 1) (pse_stat_id e)"
  have sub: "set xs \<subseteq> set ys" if "entries_represent sm am xs" "entries_represent sm am ys" for xs ys
  proof
    fix e assume e: "e \<in> set xs"
    then have "pse_stat_id e \<in> pse_stat_id ` set ys" using that unfolding entries_represent_def by (metis image_eqI)
    then obtain e' where e': "e' \<in> set ys" "pse_stat_id e = pse_stat_id e'" by auto
    then have "e = e'" using that e by (intro entry_represents_unique [of sm am]) (simp_all add: entries_represent_def)
    then show "e \<in> set ys" using e' by simp
  qed
  then show set: "set es = set es'" using assms(1,2) by blast
  have some: "\<exists>i. pse_stat_id e = Some i" if "e \<in> set es" for e
    using assms(1) that by (auto simp: entries_represent_def entry_represents_def)
  have inj: "inj_on pse_stat_id (set es)" using assms(1) by (simp add: entries_represent_def distinct_map)
  have k: "inj_on ?k (set es)" by (rule inj_onI) (metis some inj inj_onD unwrap_or.simps(2))
  then show "inj_on ?k (set es \<union> set es')" using set by simp
  show "distinct (map ?k es)" "distinct (map ?k es')"
    using k set assms(1,2) by (auto simp: distinct_map entries_represent_def)
qed (use sorted in simp_all)

lemma collect_map_perm:
  assumes "mset xs = mset ys" "distinct (map fst xs)" shows "collect_map xs = collect_map ys"
proof -
  have "distinct (map fst ys)" using assms mset_eq_imp_distinct_iff [of "map fst xs" "map fst ys"] by simp
  then show ?thesis using assms map_of_inject_set [of "rev xs" "rev ys"] mset_eq_setD [OF assms(1)]
    by (simp add: collect_map_def distinct_map)
qed

lemma mset_map_filter: "mset xs = mset ys \<Longrightarrow> mset (List.map_filter f xs) = mset (List.map_filter f ys)"
  by (simp add: List.map_filter_def mset_filter)

lemma entries_represent_time:
  assumes "entries_represent sm am es"
  shows "(\<exists>e \<in> set es. pse_stat_id e = Some i \<and> time_at b t \<in> set (pse_unlock_times e)) \<longleftrightarrow> am (i, b) = Some (True, t)"
proof
  assume "\<exists>e \<in> set es. pse_stat_id e = Some i \<and> time_at b t \<in> set (pse_unlock_times e)"
  then show "am (i, b) = Some (True, t)" using assms by (fastforce simp: entries_represent_def entry_represents_def times_represent_def)
next
  assume a: "am (i, b) = Some (True, t)"
  then have "Some i \<in> pse_stat_id ` set es" using assms by (force simp: entries_represent_def)
  then obtain e where e: "e \<in> set es" "pse_stat_id e = Some i" by auto
  then have "times_represent am i (pse_unlock_times e)" using assms by (auto simp: entries_represent_def entry_represents_def)
  then have "time_at b t \<in> set (pse_unlock_times e)" using a by (auto simp: times_represent_def)
  with e show "\<exists>e \<in> set es. pse_stat_id e = Some i \<and> time_at b t \<in> set (pse_unlock_times e)" by blast
qed

lemma blocks_represent_time:
  assumes "blocks_represent am bs" "unat b < 32" "t \<noteq> 0"
  shows "(\<exists>blk \<in> set bs. acb_achievement_id blk = Some i \<and> slot (acb_unlock_time blk) (unat b) = t) \<longleftrightarrow> am (i, b) = Some (True, t)"
proof -
  have slot: "slot (acb_unlock_time blk) (unat b) = expected_slot am i b" if "blk \<in> set bs" "acb_achievement_id blk = Some i" for blk
    using assms(1,2) that by (auto simp: blocks_represent_def block_represents_def)
  have e: "expected_slot am i b = t \<longleftrightarrow> am (i, b) = Some (True, t)" using assms(3) by (auto simp: expected_slot_def split: option.splits)
  have "am (i, b) = Some (True, t) \<Longrightarrow> Some i \<in> acb_achievement_id ` set bs" using assms(1) by (force simp: blocks_represent_def)
  then show ?thesis using slot e by (metis imageE)
qed

lemma wire_unlock_time_nonzero: "wire_unlock_time a = Some t \<Longrightarrow> ay_unlocked a \<Longrightarrow> t \<noteq> 0"
proof -
  have "unwrap_or 1191999600 (u32_try_from v) \<noteq> 0" if "0 < v" for v
    using that by (auto simp: u32_try_from_def word_of_int_eq_0_iff zdvd_not_zless)
  then show "wire_unlock_time a = Some t \<Longrightarrow> ay_unlocked a \<Longrightarrow> t \<noteq> 0"
    by (auto simp: wire_unlock_time_def ACHIEVEMENT_UNLOCK_TIME_UNKNOWN_def opt_bind_def opt_filter_def split: option.splits if_splits)
qed

lemma achievement_updates_nonzero:
  assumes "collect_map (achievement_updates aids app as) k = Some (True, t)" shows "t \<noteq> 0"
proof -
  have "(k, (True, t)) \<in> set (achievement_updates aids app as)" using map_of_SomeD [of "rev (achievement_updates aids app as)"] assms
    by (simp add: collect_map_def)
  then obtain a where "achievement_update aids a = Some (k, (True, t))"
    by (auto simp: achievement_updates_def List.map_filter_def)
  then show ?thesis by (rule achievement_update_Some) (auto dest: wire_unlock_time_nonzero)
qed

lemma service_stats_entries_order:
  assumes "mset as = mset as'" "mset ss = mset ss'"
    and ids: "achievement_wire_ids w iter schema = Some aids" "stat_wire_ids w iter schema = Some sids"
    and "distinct (map fst (stat_updates sids app ss))" "distinct (map fst (achievement_updates aids app as))"
  shows "service_stats_entries w iter app schema as ss = service_stats_entries w iter app schema as' ss'"
proof -
  have "mset (stat_updates sids app ss) = mset (stat_updates sids app ss')"
    unfolding stat_updates_def by (rule mset_map_filter) (simp add: assms(2))
  then have sm: "collect_map (stat_updates sids app ss) = collect_map (stat_updates sids app ss')"
    using assms(5) by (rule collect_map_perm)
  have "mset (achievement_updates aids app as) = mset (achievement_updates aids app as')"
    unfolding achievement_updates_def by (rule mset_map_filter) (simp add: assms(1))
  then have am: "collect_map (achievement_updates aids app as) = collect_map (achievement_updates aids app as')"
    using assms(6) by (rule collect_map_perm)
  show ?thesis
    using service_stats_entries_represent [OF ids, of app as ss] service_stats_entries_represent [OF ids, of app as' ss']
    unfolding sm am using entries_represent_unique by (elim exE conjE) metis
qed

end
