(* ===== verification/Steam_Properties.thy ===== *)
theory Steam_Properties
  imports Steam_Protocol "HOL-Library.Code_Target_Nat"
begin

text \<open>
  The properties of the wire formats: framing, the schema parser, the identifiers read from a schema and the
  stats token.
\<close>

section \<open>Examples\<close>

definition sample_schema :: schema_map where
  "sample_schema = [(''stats'', SObject [(''1'', SObject [(''name'', SString ''kills''), (''type'', SInt 3000000000)]),
     (''2'', SObject [(''bits'', SObject [(''0'', SObject [(''name'', SString ''ACH'')])]), (''hint'', SOther)])])]"

definition sample_stats :: "player_stats_entry list" where
  "sample_stats = [\<lparr>pse_stat_id = Some 7, pse_stat_value = Some 1, pse_unlock_times = []\<rparr>,
     \<lparr>pse_stat_id = Some 11, pse_stat_value = Some 3, pse_unlock_times = [\<lparr>ut_achievement_bit = Some 1, ut_unlock_time = Some 10\<rparr>]\<rparr>]"

definition sample_encoding :: "player_stats_entry \<Rightarrow> bytes" where
  "sample_encoding e = (case pse_stat_id e of None \<Rightarrow> [] | Some i \<Rightarrow> [8, ucast i])"

section \<open>Properties\<close>

text \<open>C33: Packet framing is exact: unpacking returns a header and a body precisely for the packets that
  assembling them produces, with a header whose length fits the 32-bit length field and the address space; every
  other input, including every truncated one, is refused.\<close>

theorem unpack_raw_exact:
  "unpack_raw w data = Some (emsg, header, body) \<longleftrightarrow>
     data = assemble_raw emsg header body \<and> length header < 2 ^ 32 \<and> 8 + length header < 2 ^ w"
proof
  assume "unpack_raw w data = Some (emsg, header, body)"
  then obtain n where n: "n = unat (u32_from_le_bytes (take 4 (drop 4 data)))" "8 + n < 2 ^ w" "8 + n \<le> length data"
    and parts: "emsg = u32_from_le_bytes (take 4 data)" "header = take n (drop 8 data)" "body = drop (8 + n) data"
    unfolding unpack_raw_Some by blast
  have len: "length header = n" using n(3) parts(2) by simp
  have h: "u32_to_le_bytes (of_nat n) = take 4 (drop 4 data)" using n(1,3) le_bytes_of_take [of "drop 4 data"] by simp
  have "assemble_raw emsg header body = take 4 data @ take 4 (drop 4 data) @ take n (drop 8 data) @ drop (8 + n) data"
    using parts len h le_bytes_of_take [of data] n(3) by (simp add: assemble_raw_def)
  then have "assemble_raw emsg header body = data" by (simp only: split_packet)
  moreover have "n < 2 ^ 32" using unat_bound [of "u32_from_le_bytes (take 4 (drop 4 data))"] n(1) by simp
  ultimately show "data = assemble_raw emsg header body \<and> length header < 2 ^ 32 \<and> 8 + length header < 2 ^ w"
    using len n(2) by simp
next
  assume a: "data = assemble_raw emsg header body \<and> length header < 2 ^ 32 \<and> 8 + length header < 2 ^ w"
  then have "unat (of_nat (length header) :: u32) = length header" by (simp add: unat_of_nat)
  with a assemble_raw_parts [of data emsg header body] show "unpack_raw w data = Some (emsg, header, body)"
    unfolding unpack_raw_Some by simp
qed

text \<open>C30: Parsing a schema inverts writing it: every tree of keys that a binary KeyValues file can hold, nested at most
  32 deep and with at most 100000 entries, is read back unchanged, whatever bytes follow it.\<close>

theorem schema_roundtrip:
  assumes "writable_text name" "writable m" "schema_depth m \<le> ACHIEVEMENT_SCHEMA_MAX_DEPTH"
    "schema_count m \<le> ACHIEVEMENT_SCHEMA_MAX_ENTRIES" "length (write_root name m @ rest) < 2 ^ w"
  shows "parse_achievement_schema_root w (write_root name m @ rest) = Inr m"
proof -
  let ?pre = "0 # write_cstring name"
  have "parser_byte ([] @ 0 # write_cstring name @ write_entries m @ rest) schema_parser_new = Inr (0, \<lparr>sp_position = Suc 0, sp_entries = 0\<rparr>)"
    using parser_byte_written [of "[]" 0 _ 0] by (simp add: schema_parser_new_def)
  moreover have "parser_cstring ([0] @ write_cstring name @ write_entries m @ rest) \<lparr>sp_position = length [0 :: u8], sp_entries = 0\<rparr>
      = Inr (name, \<lparr>sp_position = length ?pre, sp_entries = 0\<rparr>)"
    by (subst parser_cstring_written [OF assms(1)]) simp
  moreover have "parser_entries w (?pre @ write_entries m @ rest) 0 [] \<lparr>sp_position = length ?pre, sp_entries = 0\<rparr>
      = Inr ([] @ m, \<lparr>sp_position = length (?pre @ write_entries m), sp_entries = 0 + schema_count m\<rparr>)"
    using assms by (intro parser_entries_written) (simp_all add: write_root_def)
  ultimately show ?thesis
    by (simp add: parse_achievement_schema_root_def write_root_def parser_object.simps)
qed

theorem schema_roundtrip_witness:
  "parse_achievement_schema_root 32 (write_root ''440'' sample_schema @ [9]) = Inr sample_schema"
proof (rule schema_roundtrip)
  show "writable_text ''440''" by code_simp
  show "writable sample_schema" by code_simp
  show "schema_depth sample_schema \<le> ACHIEVEMENT_SCHEMA_MAX_DEPTH" by code_simp
  show "schema_count sample_schema \<le> ACHIEVEMENT_SCHEMA_MAX_ENTRIES" by code_simp
  have "length (write_root ''440'' sample_schema @ [9]) \<le> 100" by code_simp
  then show "length (write_root ''440'' sample_schema @ [9]) < 2 ^ 32" by simp
qed

text \<open>C31: The recursive parser stops on every input and within its limits: reading an object always moves the
  cursor forward and never past the end, counts at most 100000 entries, and builds a tree that, together with the
  depth at which it started, is nested at most 32 deep.\<close>

theorem parser_object_bounded:
  assumes "parser_object w bs depth st = Inr (m, st')" "sp_entries st \<le> ACHIEVEMENT_SCHEMA_MAX_ENTRIES"
  shows "sp_position st < sp_position st' \<and> sp_position st' \<le> length bs
     \<and> sp_entries st \<le> sp_entries st' \<and> sp_entries st' \<le> ACHIEVEMENT_SCHEMA_MAX_ENTRIES
     \<and> depth + schema_depth m \<le> ACHIEVEMENT_SCHEMA_MAX_DEPTH"
  using assms parser_entries_bounds [of w bs depth "[]" st m st'] by (simp add: parser_object.simps split: if_splits)

theorem parser_object_bounded_witness:
  "\<exists>m st'. parser_object 64 [1, 97, 0, 98, 0, 8] 32 schema_parser_new = Inr (m, st') \<and> 32 + schema_depth m \<le> 32 \<and> sp_position st' \<le> 6"
proof -
  have run: "parser_object 64 [1, 97, 0, 98, 0, 8] 32 schema_parser_new = Inr ([(''a'', SString ''b'')], \<lparr>sp_position = 6, sp_entries = 1\<rparr>)"
    by code_simp
  show ?thesis using run parser_object_bounded [OF run]
    by (simp add: schema_parser_new_def ACHIEVEMENT_SCHEMA_MAX_DEPTH_def ACHIEVEMENT_SCHEMA_MAX_ENTRIES_def)
qed

text \<open>C0: The identifiers read from a schema do not depend on the unspecified iteration order of \<open>HashMap\<close>: two orders
  give the same list of achievement bits, provided no two achievements of the schema claim the same bit.\<close>

theorem bit_mappings_order:
  assumes "\<And>m. mset (iter m) = mset m" "\<And>m. mset (iter' m) = mset m"
    and "parse_achievement_bit_mappings w iter bs = Inr ms" "distinct (map (\<lambda>m. (abm_stat_id m, abm_achievement_bit m)) ms)"
  shows "parse_achievement_bit_mappings w iter' bs = Inr ms"
proof -
  let ?f = "\<lambda>m. (abm_stat_id m, abm_achievement_bit m)" and ?l = "\<lambda>iter stats. concat (map (stat_bit_mappings iter) (iter stats))"
  obtain root stats where r: "parse_achievement_schema_root w bs = Inr root" "schema_stats root = Inr stats" "ms = sort_key ?f (?l iter stats)"
    using assms(3) by (auto simp: parse_achievement_bit_mappings_def rbind_eq_Inr)
  have same: "mset (iter m) = mset (iter' m)" for m using assms(1,2) by simp
  have inner: "mset (stat_bit_mappings iter e) = mset (stat_bit_mappings iter' e)" for e
    by (simp add: stat_bit_mappings_def mset_concat_map_cong [OF same] split: prod.split option.split)
  have "mset (?l iter stats) = mset (concat (map (stat_bit_mappings iter) (iter' stats)))" by (rule mset_concat_map_cong [OF same])
  also have "\<dots> = mset (?l iter' stats)" by (rule mset_concat_map_pointwise [OF inner])
  finally have "mset (?l iter stats) = mset (?l iter' stats)" .
  moreover have "distinct (map ?f (?l iter stats))"
    using assms(4) mset_eq_imp_distinct_iff [of "map ?f ms" "map ?f (?l iter stats)"] by (simp add: r(3))
  ultimately have "sort_key ?f (?l iter stats) = sort_key ?f (?l iter' stats)" by (rule sort_key_mset_eq)
  then show ?thesis using r by (simp add: parse_achievement_bit_mappings_def)
qed

theorem bit_mappings_order_witness:
  "parse_achievement_bit_mappings 32 rev (write_root ''440'' sample_schema)
     = Inr [\<lparr>abm_stat_id = 2, abm_achievement_bit = 0, abm_key = ''ACH''\<rparr>]"
  by (rule bit_mappings_order [where iter = "\<lambda>m. m"]) (simp, simp, code_simp, simp)



text \<open>C35: The token changes with every byte: two messages that differ in a single byte have different checksums.\<close>

theorem stats_crc32c_byte: "stats_crc32c (xs @ a # ys) = stats_crc32c (xs @ b # ys) \<longleftrightarrow> a = b"
proof
  assume "stats_crc32c (xs @ a # ys) = stats_crc32c (xs @ b # ys)"
  then have "foldl crc_byte (crc_byte (foldl crc_byte (NOT 0) xs) a) ys = foldl crc_byte (crc_byte (foldl crc_byte (NOT 0) xs) b) ys"
    by (simp add: stats_crc32c_def)
  from crc_byte_inj [OF crc_fold_inj [OF this]] have "ucast a XOR foldl crc_byte (NOT 0) xs = (ucast b :: u32) XOR foldl crc_byte (NOT 0) xs"
    by (simp add: xor.commute)
  from word_xor_cancel [OF this] have "(ucast a :: u32) = ucast b" .
  then show "a = b" by (rule ucast_u32_inj)
qed simp

end
