(* ===== verification/Stats_Properties.thy ===== *)
theory Stats_Properties
  imports Stats_Merge Steam_Properties
begin

text \<open>
  The properties of the merged stats: what the entries say of the backend's state, that the two request forms say the
  same, and that the token names the state.
\<close>

section \<open>Examples\<close>

definition sample_achievement :: achievement_sync_state where
  "sample_achievement = \<lparr>ay_app_id = 440, ay_achievement_key = ''ACH'', ay_unlocked = True, ay_progress_current = None,
     ay_progress_max = None, ay_observed_at = 9, ay_unlocked_at = Some 7\<rparr>"

definition sample_stat :: stat_sync_state where
  "sample_stat = \<lparr>sy_app_id = 440, sy_stat_key = ''kills'', sy_value_type = ''int'', sy_value = ''-1'', sy_observed_at = 9\<rparr>"

definition unknown_stat :: stat_sync_state where
  "unknown_stat = sample_stat\<lparr>sy_stat_key := ''gone''\<rparr>"

definition sample_entries :: "player_stats_entry list" where
  "sample_entries = [\<lparr>pse_stat_id = Some 1, pse_stat_value = Some (- 1), pse_unlock_times = []\<rparr>,
     \<lparr>pse_stat_id = Some 2, pse_stat_value = Some 1, pse_unlock_times = [\<lparr>ut_achievement_bit = Some 0, ut_unlock_time = Some 7\<rparr>]\<rparr>]"

definition sample_schema_bytes :: bytes where
  "sample_schema_bytes = write_root ''440'' sample_schema"

definition sample_service_request :: player_get_user_stats_request where
  "sample_service_request = \<lparr>psq_steamid = None, psq_appid = Some 440, psq_sha_schema = None, psq_crc_stats = None, psq_crc_schema = None\<rparr>"

definition sample_service_donor :: player_get_user_stats_response where
  "sample_service_donor = \<lparr>psr_sha_schema = None, psr_crc_stats = None, psr_schema = None, psr_stats = [], psr_crc_schema = None\<rparr>"

definition sample_legacy_request :: client_get_user_stats_request where
  "sample_legacy_request = \<lparr>csq_game_id = Some 440, csq_crc_stats = None, csq_schema_local_version = None, csq_steam_id_for_user = None\<rparr>"

definition sample_legacy_donor :: client_get_user_stats_response where
  "sample_legacy_donor = \<lparr>csr_game_id = None, csr_eresult = Some 1, csr_crc_stats = None, csr_schema = None, csr_stats = [],
     csr_achievement_blocks = []\<rparr>"

lemma sample_mappings:
  "parse_achievement_bit_mappings 32 (\<lambda>m. m) sample_schema_bytes = Inr [\<lparr>abm_stat_id = 2, abm_achievement_bit = 0, abm_key = ''ACH''\<rparr>]"
  "parse_stat_mappings 32 (\<lambda>m. m) sample_schema_bytes = Inr [\<lparr>smp_stat_id = 1, smp_key = ''kills'', smp_value_type = Some 3000000000\<rparr>]"
  by code_simp+

lemma sample_wire_ids:
  "achievement_wire_ids 32 (\<lambda>m. m) sample_schema_bytes = Some [''ACH'' \<mapsto> \<lparr>awi_stat_id = 2, awi_achievement_bit = 0\<rparr>]"
  "stat_wire_ids 32 (\<lambda>m. m) sample_schema_bytes = Some [''kills'' \<mapsto> 1]"
  by (simp_all add: achievement_wire_ids_def stat_wire_ids_def sample_mappings collect_map_def)

lemma sample_updates:
  "stat_updates [''kills'' \<mapsto> 1] 440 [unknown_stat, sample_stat] = [(1, - 1)]"
  "stat_updates [''kills'' \<mapsto> 1] 440 [sample_stat, unknown_stat] = [(1, - 1)]"
  "achievement_updates [''ACH'' \<mapsto> \<lparr>awi_stat_id = 2, awi_achievement_bit = 0\<rparr>] 440 [sample_achievement] = [((2, 0), (True, 7))]"
  by code_simp+

section \<open>Properties\<close>

text \<open>C37: The service form says exactly what the backend's state says.  For a schema that parses, the merge succeeds
  whatever keys the state holds; the entries are in strictly ascending order of their stat identifiers; there is one
  for each stat with a known stat or achievement and for no other; each bit of its value is that of the last
  achievement with that bit, or of the last stat value where there is none; and it holds an unlock time for exactly the
  achievements that are unlocked.\<close>

theorem service_entries_exact:
  assumes "achievement_wire_ids w iter schema = Some aids" "stat_wire_ids w iter schema = Some sids"
    and sm: "sm = collect_map (stat_updates sids app ss)" and am: "am = collect_map (achievement_updates aids app as)"
  shows "\<exists>es. service_stats_entries w iter app schema as ss = Some es
     \<and> sorted (map (\<lambda>e. unwrap_or (- 1) (pse_stat_id e)) es) \<and> distinct (map pse_stat_id es)
     \<and> pse_stat_id ` set es = Some ` (dom sm \<union> fst ` dom am)
     \<and> (\<forall>e \<in> set es. \<exists>i v. pse_stat_id e = Some i \<and> pse_stat_value e = Some v
          \<and> (\<forall>n < 32. bit v n \<longleftrightarrow> (case am (i, of_nat n) of Some (unlocked, _) \<Rightarrow> unlocked | None \<Rightarrow> bit (unwrap_or 0 (sm i)) n))
          \<and> sorted (map (\<lambda>x. unwrap_or (- 1) (ut_achievement_bit x)) (pse_unlock_times e))
          \<and> set (pse_unlock_times e) = {time_at b t |b t. am (i, b) = Some (True, t)})"
proof -
  obtain es where es: "service_stats_entries w iter app schema as ss = Some es" "sorted (map (\<lambda>e. unwrap_or (- 1) (pse_stat_id e)) es)"
    and rep: "entries_represent sm am es" using service_stats_entries_represent [OF assms(1,2), of app as ss] sm am by blast
  have "\<exists>i v. pse_stat_id e = Some i \<and> pse_stat_value e = Some v
      \<and> (\<forall>n < 32. bit v n \<longleftrightarrow> (case am (i, of_nat n) of Some (unlocked, _) \<Rightarrow> unlocked | None \<Rightarrow> bit (unwrap_or 0 (sm i)) n))
      \<and> sorted (map (\<lambda>x. unwrap_or (- 1) (ut_achievement_bit x)) (pse_unlock_times e))
      \<and> set (pse_unlock_times e) = {time_at b t |b t. am (i, b) = Some (True, t)}" if "e \<in> set es" for e
  proof -
    have "entry_represents sm am e" using rep that by (simp add: entries_represent_def)
    then obtain i v where "pse_stat_id e = Some i" "pse_stat_value e = Some v" "\<forall>n < 32. bit v n \<longleftrightarrow> expected_bit sm am i n"
      "times_represent am i (pse_unlock_times e)" unfolding entry_represents_def by (elim exE conjE)
    then show ?thesis unfolding expected_bit_def times_represent_def by (intro exI conjI) simp_all
  qed
  then show ?thesis using es rep unfolding entries_represent_def by (intro exI [of _ es]) simp
qed

theorem service_entries_exact_witness:
  "\<exists>es. service_stats_entries 32 (\<lambda>m. m) 440 sample_schema_bytes [sample_achievement] [unknown_stat, sample_stat] = Some es
     \<and> distinct (map pse_stat_id es) \<and> pse_stat_id ` set es = {Some 1, Some 2}"
proof -
  obtain es where "service_stats_entries 32 (\<lambda>m. m) 440 sample_schema_bytes [sample_achievement] [unknown_stat, sample_stat] = Some es"
      "distinct (map pse_stat_id es)"
      "pse_stat_id ` set es = Some ` (dom (collect_map [(1 :: u32, - 1 :: u32)]) \<union> fst ` dom (collect_map [((2 :: u32, 0 :: u32), (True, 7 :: u32))]))"
    using service_entries_exact [OF sample_wire_ids refl refl, where app = 440 and as = "[sample_achievement]" and ss = "[unknown_stat, sample_stat]"]
    unfolding sample_updates by (elim exE conjE) (rule that)
  moreover have "Some ` (dom (collect_map [(1 :: u32, - 1 :: u32)]) \<union> fst ` dom (collect_map [((2 :: u32, 0 :: u32), (True, 7 :: u32))])) = {Some 1, Some 2}"
    by (simp add: collect_map_def insert_commute)
  ultimately show ?thesis by simp
qed

text \<open>C38: The two request forms tell the client the same achievements: an unlock time stands in the service form at a
  stat and a bit exactly when it stands in the legacy form's block of that stat at that bit; there 0 means locked, and no unlock
  time is 0.\<close>

theorem legacy_agrees_with_service:
  assumes "service_stats_entries w iter app schema as ss = Some es" "legacy_stats_entries w iter app schema as ss = Some (ls, bs)"
    and "b < 32"
  shows "(\<exists>e \<in> set es. pse_stat_id e = Some i \<and> time_at b t \<in> set (pse_unlock_times e))
     \<longleftrightarrow> (\<exists>blk \<in> set bs. acb_achievement_id blk = Some i \<and> unat b < length (acb_unlock_time blk) \<and> acb_unlock_time blk ! unat b = t \<and> t \<noteq> 0)"
proof -
  obtain aids sids where ids: "achievement_wire_ids w iter schema = Some aids" "stat_wire_ids w iter schema = Some sids"
    using assms(1) by (auto simp: service_stats_entries_def opt_bind_def split: option.splits)
  define am where "am = collect_map (achievement_updates aids app as)"
  have b: "unat b < 32" using assms(3) by (simp add: word_less_nat_alt)
  obtain sm where es: "entries_represent sm am es"
    using service_stats_entries_represent [OF ids, of app as ss] assms(1) by (auto simp: am_def)
  have bs: "blocks_represent am bs" using legacy_stats_entries_represent [OF ids, of app as ss] assms(2) by (auto simp: am_def)
  have "(\<exists>e \<in> set es. pse_stat_id e = Some i \<and> time_at b t \<in> set (pse_unlock_times e)) \<longleftrightarrow> am (i, b) = Some (True, t)"
    by (rule entries_represent_time [OF es])
  also have "\<dots> \<longleftrightarrow> t \<noteq> 0 \<and> (\<exists>blk \<in> set bs. acb_achievement_id blk = Some i \<and> slot (acb_unlock_time blk) (unat b) = t)"
    using blocks_represent_time [OF bs b] achievement_updates_nonzero [of aids app as "(i, b)" t] by (auto simp: am_def)
  also have "\<dots> \<longleftrightarrow> (\<exists>blk \<in> set bs. acb_achievement_id blk = Some i \<and> unat b < length (acb_unlock_time blk)
      \<and> acb_unlock_time blk ! unat b = t \<and> t \<noteq> 0)" by (auto simp: slot_def)
  finally show ?thesis .
qed

theorem legacy_agrees_with_service_witness:
  "\<exists>ls bs blk. legacy_stats_entries 32 (\<lambda>m. m) 440 sample_schema_bytes [sample_achievement] [sample_stat] = Some (ls, bs)
     \<and> blk \<in> set bs \<and> acb_achievement_id blk = Some 2 \<and> acb_unlock_time blk ! 0 = 7"
proof -
  have s: "service_stats_entries 32 (\<lambda>m. m) 440 sample_schema_bytes [sample_achievement] [sample_stat] = Some sample_entries"
    unfolding service_stats_entries_def sample_wire_ids opt_bind_def option.case by code_simp
  have l: "\<exists>p. legacy_stats_entries 32 (\<lambda>m. m) 440 sample_schema_bytes [sample_achievement] [sample_stat] = Some p"
    unfolding legacy_stats_entries_def sample_wire_ids opt_bind_def option.case Let_def by blast
  then obtain ls bs where bs: "legacy_stats_entries 32 (\<lambda>m. m) 440 sample_schema_bytes [sample_achievement] [sample_stat] = Some (ls, bs)" by auto
  have "\<exists>e \<in> set sample_entries. pse_stat_id e = Some 2 \<and> time_at 0 7 \<in> set (pse_unlock_times e)"
    by (simp add: sample_entries_def time_at_def)
  then show ?thesis using bs legacy_agrees_with_service [OF s bs, of 0 2 7] by auto
qed

text \<open>C36: The derived token names the state and not its encoding.  For one state of an app, its lists in whatever order
  the backend returned them, the service form and the legacy form answer the same token, and a service request that
  already carries it gets no payload.  The state must give every stat and every achievement bit at most once.\<close>

theorem stats_token_names_state:
  assumes "mset as = mset as'" "mset ss = mset ss'"
    and "achievement_wire_ids w iter schema = Some aids" "stat_wire_ids w iter schema = Some sids"
    and "distinct (map fst (stat_updates sids app ss))" "distinct (map fst (achievement_updates aids app as))"
    and "psq_appid request = Some app" "app \<noteq> 0" "opt_bind (csq_game_id request') app_id_from_game_id = Some app"
  shows "\<exists>r r' token.
     service_stats_response w iter encode_entry request donor schema (Some (Modified version None as ss)) = Some r
     \<and> legacy_stats_response w iter encode_entry request' donor' schema (Some (Modified version' None as' ss')) = Some r'
     \<and> psr_crc_stats r = Some token \<and> csr_crc_stats r' = Some token
     \<and> (psq_crc_stats request = Some token \<longrightarrow> psr_stats r = [])"
proof -
  obtain es where es: "service_stats_entries w iter app schema as ss = Some es"
    using service_stats_entries_represent [OF assms(3,4), of app as ss] by blast
  have es': "service_stats_entries w iter app schema as' ss' = Some es"
    using es service_stats_entries_order [OF assms(1-6)] by simp
  obtain ls bs where l: "legacy_stats_entries w iter app schema as' ss' = Some (ls, bs)"
    using legacy_stats_entries_represent [OF assms(3,4), of app as' ss'] by blast
  obtain g where g: "csq_game_id request' = Some g" "app_id_from_game_id g = Some app"
    using assms(9) by (auto simp: opt_bind_def split: option.splits)
  have app: "nonzero (psq_appid request) = Some app" using assms(7,8) by (simp add: nonzero_def opt_filter_def)
  show ?thesis
    by (simp add: service_stats_response_def legacy_stats_response_def app g es es' l opt_bind_def Let_def)
qed

theorem stats_token_names_state_witness:
  "\<exists>r r'. service_stats_response 32 (\<lambda>m. m) sample_encoding sample_service_request sample_service_donor sample_schema_bytes
       (Some (Modified ''a'' None [sample_achievement] [unknown_stat, sample_stat])) = Some r
     \<and> legacy_stats_response 32 (\<lambda>m. m) sample_encoding sample_legacy_request sample_legacy_donor sample_schema_bytes
       (Some (Modified ''b'' None [sample_achievement] [sample_stat, unknown_stat])) = Some r'
     \<and> psr_crc_stats r = csr_crc_stats r'"
proof -
  have same: "mset [sample_achievement] = mset [sample_achievement]" "mset [unknown_stat, sample_stat] = mset [sample_stat, unknown_stat]" by simp_all
  have once: "distinct (map fst (stat_updates [''kills'' \<mapsto> 1] 440 [unknown_stat, sample_stat]))"
      "distinct (map fst (achievement_updates [''ACH'' \<mapsto> \<lparr>awi_stat_id = 2, awi_achievement_bit = 0\<rparr>] 440 [sample_achievement]))"
    by (simp_all only: sample_updates) simp_all
  have app: "psq_appid sample_service_request = Some 440" "(440 :: u32) \<noteq> 0"
      "opt_bind (csq_game_id sample_legacy_request) app_id_from_game_id = Some 440"
    by (simp_all add: sample_service_request_def sample_legacy_request_def opt_bind_def app_id_from_game_id_def)
  obtain r r' token where "service_stats_response 32 (\<lambda>m. m) sample_encoding sample_service_request sample_service_donor sample_schema_bytes
       (Some (Modified ''a'' None [sample_achievement] [unknown_stat, sample_stat])) = Some r"
     "legacy_stats_response 32 (\<lambda>m. m) sample_encoding sample_legacy_request sample_legacy_donor sample_schema_bytes
       (Some (Modified ''b'' None [sample_achievement] [sample_stat, unknown_stat])) = Some r'"
     "psr_crc_stats r = Some token" "csr_crc_stats r' = Some token"
    using stats_token_names_state [OF same sample_wire_ids once app, where encode_entry = sample_encoding and donor = sample_service_donor
        and donor' = sample_legacy_donor and version = "''a''" and version' = "''b''"] by (elim exE conjE) (rule that)
  then show ?thesis by (intro exI [of _ r] exI [of _ r'] conjI) (simp_all only:)
qed

end
