(* ===== verification/Rust_Text.thy ===== *)
theory Rust_Text
  imports VF_Prelude
begin

text \<open>
  More of the standard library: slices taken by range, \<open>split_whitespace\<close>, \<open>from_str_radix\<close> with radix 16 and the
  hexadecimal format.
\<close>

text \<open>\<open>slice.get(a..b)\<close>\<close>

definition slice_get :: "'a list \<Rightarrow> nat \<Rightarrow> nat \<Rightarrow> 'a list option" where
  "slice_get xs a b = (if a \<le> b \<and> b \<le> length xs then Some (take (b - a) (drop a xs)) else None)"

text \<open>\<open>slice.get(i)\<close>\<close>

definition get_at :: "'a list \<Rightarrow> nat \<Rightarrow> 'a option" where
  "get_at xs i = (if i < length xs then Some (xs ! i) else None)"

fun find_map :: "('a \<Rightarrow> 'b option) \<Rightarrow> 'a list \<Rightarrow> 'b option" where
  "find_map f [] = None"
| "find_map f (x # xs) = (case f x of None \<Rightarrow> find_map f xs | Some y \<Rightarrow> Some y)"

function split_ws :: "string \<Rightarrow> string \<Rightarrow> string list" where
  "split_ws cur s =
     (case strip_any whitespace_encodings s of
        Some r \<Rightarrow> if cur = [] then split_ws [] r else cur # split_ws [] r
      | None \<Rightarrow> (case s of [] \<Rightarrow> if cur = [] then [] else [cur] | c # cs \<Rightarrow> split_ws (cur @ [c]) cs))"
  by pat_completeness auto
termination
  by (relation "measure (\<lambda>(cur, s). length s)") (auto dest: strip_any_shorter)

declare split_ws.simps [simp del]

definition split_whitespace :: "string \<Rightarrow> string list" where
  "split_whitespace s = split_ws [] s"

definition hex_digit_value :: "char \<Rightarrow> nat option" where
  "hex_digit_value c =
     (if char_in 48 57 c then Some (of_char c - 48)
      else if char_in 65 70 c then Some (of_char c - 55)
      else if char_in 97 102 c then Some (of_char c - 87) else None)"

fun hex_value :: "string \<Rightarrow> nat \<Rightarrow> nat option" where
  "hex_value [] acc = Some acc"
| "hex_value (c # cs) acc = opt_bind (hex_digit_value c) (\<lambda>d. hex_value cs (16 * acc + d))"

text \<open>\<open>from_str_radix(s, 16)\<close> of an unsigned type with \<open>w\<close> bits.\<close>

definition from_hex :: "nat \<Rightarrow> string \<Rightarrow> nat option" where
  "from_hex w s =
     (let digits = (case s of [] \<Rightarrow> [] | c # cs \<Rightarrow> if c = CHR ''+'' then cs else s) in
      if digits = [] then None else opt_filter (\<lambda>n. n < 2 ^ w) (hex_value digits 0))"

fun nat_to_hex :: "nat \<Rightarrow> string" where
  "nat_to_hex n = (if n < 16 then [digit_char n] else nat_to_hex (n div 16) @ [digit_char (n mod 16)])"

declare nat_to_hex.simps [simp del]

text \<open>Arithmetic of \<open>usize\<close> without overflow checks.\<close>

definition usize_wrap :: "nat \<Rightarrow> nat \<Rightarrow> nat" where
  "usize_wrap w n = n mod 2 ^ w"

lemma slice_get_Some: "slice_get xs a b = Some ys \<longleftrightarrow> a \<le> b \<and> b \<le> length xs \<and> ys = take (b - a) (drop a xs)"
  by (auto simp: slice_get_def)

lemma slice_get_nth: "slice_get xs a b = Some ys \<Longrightarrow> length ys = b - a \<and> (\<forall>i < b - a. ys ! i = xs ! (a + i))"
  by (auto simp: slice_get_def split: if_splits)

end
