(* ===== verification/Pattern_Match.thy ===== *)
theory Pattern_Match
  imports Rust_Text
begin

text \<open>
  Byte patterns with wildcards, their search in machine code and the ways from a match to a function entry
  (\<open>crates/patterns/src/lib.rs\<close>).  The substring search of the memchr crate is a parameter.  A computation that may
  panic returns an option, \<open>None\<close> for the panic.  A slice has at most \<open>isize::MAX\<close> bytes, so sums of an offset inside it
  and a small constant do not wrap.
\<close>

section \<open>Patterns\<close>

datatype pattern_token = Byte u8 | Wildcard

datatype pattern_error =
    EmptyPattern
  | InvalidToken string
  | NoMatch
  | Ambiguous nat
  | TooManyMatches nat
  | FollowOutOfBounds
  | FollowUnsupportedOpcode
  | NoCallTarget

fun pattern_error_text :: "pattern_error \<Rightarrow> string" where
  "pattern_error_text EmptyPattern = ''pattern is empty''"
| "pattern_error_text (InvalidToken t) = ''invalid pattern token: '' @ t"
| "pattern_error_text NoMatch = ''pattern has no match''"
| "pattern_error_text (Ambiguous n) = ''pattern is not unique: found '' @ nat_to_string n @ '' matches''"
| "pattern_error_text (TooManyMatches n) = ''pattern exceeds the '' @ nat_to_string n @ ''-match scan limit''"
| "pattern_error_text FollowOutOfBounds = ''relative follow target is out of bounds''"
| "pattern_error_text FollowUnsupportedOpcode =
     ''relative follow requires a call/jmp rel32 opcode at the match offset''"
| "pattern_error_text NoCallTarget = ''no call target found before RET''"

record pattern =
  pt_tokens :: "pattern_token list"

definition parse_token :: "string \<Rightarrow> pattern_error + pattern_token" where
  "parse_token raw =
     (if raw = ''?'' \<or> raw = ''??'' then Inr Wildcard
      else case from_hex 8 raw of None \<Rightarrow> Inl (InvalidToken raw) | Some v \<Rightarrow> Inr (Byte (of_nat v)))"

definition pattern_parse :: "string \<Rightarrow> pattern_error + pattern" where
  "pattern_parse text =
     rbind (rfold (\<lambda>raw tokens. rbind (parse_token raw) (\<lambda>t. Inr (tokens @ [t]))) (split_whitespace text) []) (\<lambda>tokens.
     if tokens = [] then Inl EmptyPattern else Inr \<lparr>pt_tokens = tokens\<rparr>)"

fun token_matches :: "pattern_token \<Rightarrow> u8 \<Rightarrow> bool" where
  "token_matches (Byte expected) b \<longleftrightarrow> expected = b"
| "token_matches Wildcard b \<longleftrightarrow> True"

definition matches_at :: "pattern \<Rightarrow> bytes \<Rightarrow> nat \<Rightarrow> bool" where
  "matches_at p haystack off =
     (case slice_get haystack off (off + length (pt_tokens p)) of
        None \<Rightarrow> False
      | Some window \<Rightarrow> list_all (\<lambda>(t, b). token_matches t b) (zip (pt_tokens p) window))"

section \<open>Search\<close>

text \<open>One token of the loop over the tokens: the best run of literal bytes so far and the current one, each as its
  start and its length.\<close>

fun literal_run :: "pattern_token list \<Rightarrow> nat \<Rightarrow> nat \<times> nat \<Rightarrow> nat \<times> nat \<Rightarrow> nat \<times> nat" where
  "literal_run [] idx best cur = best"
| "literal_run (Byte b # ts) idx best cur =
     (let start = (if snd cur = 0 then idx else fst cur); len = snd cur + 1 in
      literal_run ts (Suc idx) (if snd best < len then (start, len) else best) (start, len))"
| "literal_run (Wildcard # ts) idx best cur = literal_run ts (Suc idx) best (fst cur, 0)"

fun token_byte :: "pattern_token \<Rightarrow> u8 option" where
  "token_byte (Byte b) = Some b"
| "token_byte Wildcard = None"

definition longest_literal_run :: "pattern \<Rightarrow> (nat \<times> bytes) option" where
  "longest_literal_run p =
     (let (start, len) = literal_run (pt_tokens p) 0 (0, 0) (0, 0) in
      if len = 0 then None
      else Some (start, List.map_filter token_byte (take len (drop start (pt_tokens p)))))"

text \<open>The loop over the occurrences of the anchor: \<open>finder needle hay\<close> is memchr's search.\<close>

function anchor_loop ::
  "(bytes \<Rightarrow> bytes \<Rightarrow> nat option) \<Rightarrow> pattern \<Rightarrow> bytes \<Rightarrow> nat \<Rightarrow> nat \<times> bytes \<Rightarrow> nat \<Rightarrow> nat list \<Rightarrow> (nat list \<times> bool) option" where
  "anchor_loop finder p haystack max_matches anchor search_from matches =
     (if length haystack < search_from then None
      else case finder (snd anchor) (drop search_from haystack) of
        None \<Rightarrow> Some (matches, False)
      | Some relative \<Rightarrow>
          let anchor_offset = search_from + relative; candidate = anchor_offset - fst anchor in
          if fst anchor \<le> anchor_offset \<and> candidate \<le> length haystack - length (pt_tokens p) \<and> matches_at p haystack candidate
          then if length matches = max_matches then Some (matches, True)
               else anchor_loop finder p haystack max_matches anchor (anchor_offset + 1) (matches @ [candidate])
          else anchor_loop finder p haystack max_matches anchor (anchor_offset + 1) matches)"
  by pat_completeness auto
termination anchor_loop
  by (relation "measure (\<lambda>(_, _, h, _, _, s, _). Suc (length h) - s)") (auto simp: Let_def)

declare anchor_loop.simps [simp del]

definition find_matches ::
  "(bytes \<Rightarrow> bytes \<Rightarrow> nat option) \<Rightarrow> pattern \<Rightarrow> bytes \<Rightarrow> nat \<Rightarrow> (nat list \<times> bool) option" where
  "find_matches finder p haystack max_matches =
     (if length haystack < length (pt_tokens p) then Some ([], False)
      else case longest_literal_run p of
        None \<Rightarrow> let count = length haystack - length (pt_tokens p) + 1 in
          Some ([0..<min count max_matches], max_matches < count)
      | Some anchor \<Rightarrow> anchor_loop finder p haystack max_matches anchor 0 [])"

definition find_all :: "(bytes \<Rightarrow> bytes \<Rightarrow> nat option) \<Rightarrow> nat \<Rightarrow> pattern \<Rightarrow> bytes \<Rightarrow> nat list option" where
  "find_all finder w p haystack = map_option fst (find_matches finder p haystack (2 ^ w - 1))"

definition find_all_bounded ::
  "(bytes \<Rightarrow> bytes \<Rightarrow> nat option) \<Rightarrow> pattern \<Rightarrow> bytes \<Rightarrow> nat \<Rightarrow> (pattern_error + nat list) option" where
  "find_all_bounded finder p haystack max_matches =
     map_option (\<lambda>(matches, truncated). if truncated then Inl (TooManyMatches max_matches) else Inr matches)
       (find_matches finder p haystack max_matches)"

definition find_unique :: "(bytes \<Rightarrow> bytes \<Rightarrow> nat option) \<Rightarrow> pattern \<Rightarrow> bytes \<Rightarrow> (pattern_error + nat) option" where
  "find_unique finder p haystack =
     map_option (\<lambda>(matches, truncated).
       case matches of [] \<Rightarrow> Inl NoMatch
       | [m] \<Rightarrow> Inr m
       | _ \<Rightarrow> if truncated then Inl (Ambiguous 2) else Inl (Ambiguous (length matches)))
       (find_matches finder p haystack 2)"

section \<open>From a match to an entry\<close>

definition ENTRY_PUSH_SCAN :: nat where "ENTRY_PUSH_SCAN = 0x20"

definition is_push_opcode :: "u8 \<Rightarrow> bool" where
  "is_push_opcode b \<longleftrightarrow> 0x50 \<le> b \<and> b \<le> 0x57"

definition is_rex_prefix :: "u8 \<Rightarrow> bool" where
  "is_rex_prefix b \<longleftrightarrow> 0x40 \<le> b \<and> b \<le> 0x4f"

text \<open>How far one step of the walk goes back from \<open>entry\<close>, 0 when it stops.\<close>

definition push_step :: "bytes \<Rightarrow> nat \<Rightarrow> u32 \<Rightarrow> nat \<Rightarrow> nat" where
  "push_step haystack body_offset bitness entry =
     (let limit = min ENTRY_PUSH_SCAN body_offset; consumed = body_offset - entry in
      if bitness = 64 \<and> 2 \<le> entry \<and> consumed + 2 \<le> limit
         \<and> is_rex_prefix (haystack ! (entry - 2)) \<and> is_push_opcode (haystack ! (entry - 1)) then 2
      else if 1 \<le> entry \<and> consumed < limit \<and> is_push_opcode (haystack ! (entry - 1)) then 1
      else 0)"

lemma push_step_le: "push_step h b bits e \<noteq> 0 \<Longrightarrow> e - push_step h b bits e < e"
  by (auto simp: push_step_def Let_def split: if_splits)

function push_walk :: "bytes \<Rightarrow> nat \<Rightarrow> u32 \<Rightarrow> nat \<Rightarrow> nat" where
  "push_walk haystack body_offset bitness entry =
     (if push_step haystack body_offset bitness entry = 0 then entry
      else push_walk haystack body_offset bitness (entry - push_step haystack body_offset bitness entry))"
  by pat_completeness auto
termination push_walk
  by (relation "measure (\<lambda>(_, _, _, e). e)") (simp_all add: push_step_le)

declare push_walk.simps [simp del]

definition find_entry_pushes :: "bytes \<Rightarrow> nat \<Rightarrow> u32 \<Rightarrow> pattern_error + nat" where
  "find_entry_pushes haystack body_offset bitness =
     (if length haystack < body_offset then Inl NoMatch
      else let entry = push_walk haystack body_offset bitness body_offset in
        if entry = body_offset then Inl NoMatch else Inr entry)"

text \<open>The comparison of the prologue with the bytes at and below \<open>anchor\<close>; an index past the end panics.\<close>

fun prologue_found :: "bytes \<Rightarrow> nat \<Rightarrow> nat \<Rightarrow> bytes \<Rightarrow> bool option" where
  "prologue_found haystack anchor j [] = Some True"
| "prologue_found haystack anchor j (expected # rest) =
     (if anchor < j then Some False
      else opt_bind (get_at haystack (anchor - j)) (\<lambda>b.
        if b \<noteq> expected then Some False else prologue_found haystack anchor (Suc j) rest))"

text \<open>The loop over \<open>i\<close> counts the anchor down from the body.  \<open>anchor - prologue.len() + 1\<close> first subtracts: when the
  entry is at offset 0 the difference wraps below zero, which a build with overflow checks turns into a panic.\<close>

fun prologue_scan :: "bool \<Rightarrow> bytes \<Rightarrow> bytes \<Rightarrow> nat list \<Rightarrow> (pattern_error + nat) option" where
  "prologue_scan overflow_checks haystack prologue [] = Some (Inl NoMatch)"
| "prologue_scan overflow_checks haystack prologue (anchor # anchors) =
     opt_bind (prologue_found haystack anchor 0 prologue) (\<lambda>found.
     if found then if overflow_checks \<and> anchor < length prologue then None
                   else Some (Inr (anchor + 1 - length prologue))
     else prologue_scan overflow_checks haystack prologue anchors)"

definition find_prologue_upwards ::
  "bool \<Rightarrow> bytes \<Rightarrow> nat \<Rightarrow> bytes \<Rightarrow> nat \<Rightarrow> (pattern_error + nat) option" where
  "find_prologue_upwards overflow_checks haystack body_offset prologue max_scan =
     (if prologue = [] then Some (Inl EmptyPattern)
      else prologue_scan overflow_checks haystack prologue
             (map (\<lambda>i. body_offset - i) [0..<min max_scan body_offset + 1]))"

definition i32_le :: "bytes \<Rightarrow> int" where
  "i32_le bs = sint (u32_from_le_bytes bs)"

definition follow_relative_call :: "bytes \<Rightarrow> nat \<Rightarrow> pattern_error + int" where
  "follow_relative_call haystack match_offset =
     rbind (ok_or FollowOutOfBounds (get_at haystack match_offset)) (\<lambda>opcode.
     if opcode \<noteq> 0xE8 \<and> opcode \<noteq> 0xE9 then Inl FollowUnsupportedOpcode
     else rbind (ok_or FollowOutOfBounds (slice_get haystack (match_offset + 1) (match_offset + 5))) (\<lambda>disp_bytes.
          Inr (int match_offset + 5 + i32_le disp_bytes)))"

function last_call_loop :: "bytes \<Rightarrow> nat \<Rightarrow> nat \<Rightarrow> nat option \<Rightarrow> nat option" where
  "last_call_loop haystack end_pos pos last_call_target =
     (if \<not> pos + 5 \<le> end_pos then last_call_target
      else if haystack ! pos = 0xC3 then last_call_target
      else if haystack ! pos = 0xE8
      then let target = int pos + 5 + i32_le (take 4 (drop (pos + 1) haystack)) in
           last_call_loop haystack end_pos (pos + 5)
             (if 0 \<le> target \<and> nat target < length haystack then Some (nat target) else last_call_target)
      else last_call_loop haystack end_pos (pos + 1) last_call_target)"
  by pat_completeness auto
termination last_call_loop
  by (relation "measure (\<lambda>(_, e, pos, _). e - pos)") (auto simp: Let_def)

declare last_call_loop.simps [simp del]

definition follow_last_call_before_ret :: "bytes \<Rightarrow> nat \<Rightarrow> nat \<Rightarrow> pattern_error + nat" where
  "follow_last_call_before_ret haystack off max_scan =
     ok_or NoCallTarget (last_call_loop haystack (min (off + max_scan) (length haystack)) off None)"

end
