(* ===== verification/Pattern_Scan.thy ===== *)
theory Pattern_Scan
  imports Pattern_Match
begin

text \<open>
  The ELF reader and the resolution of pattern groups (\<open>crates/patterns/src/elf.rs\<close> and \<open>crates/patterns/src/scan.rs\<close>).
  \<open>usize\<close> arithmetic on numbers read from the file wraps at the pointer width \<open>w\<close>, as it does in a release build.
\<close>

section \<open>ELF images\<close>

definition PT_LOAD :: u32 where "PT_LOAD = 1"
definition PF_X :: u32 where "PF_X = 1"

datatype elf_class = Elf32 | Elf64

fun word_size :: "elf_class \<Rightarrow> nat" where
  "word_size Elf32 = 4"
| "word_size Elf64 = 8"

definition elf_bits :: "elf_class \<Rightarrow> u8" where
  "elf_bits c = of_nat (word_size c) * 8"

record load_segment =
  ls_offset :: u64
  ls_vaddr :: u64
  ls_filesz :: u64
  ls_memsz :: u64
  ls_flags :: u32

definition is_executable :: "load_segment \<Rightarrow> bool" where
  "is_executable l \<longleftrightarrow> ls_flags l AND PF_X \<noteq> 0"

record elf_image =
  ei_data :: bytes
  ei_class :: elf_class
  ei_loads :: "load_segment list"

definition elf_read :: "nat \<Rightarrow> nat \<Rightarrow> bytes \<Rightarrow> nat \<Rightarrow> string + bytes" where
  "elf_read w k data off = ok_or ''ELF header is truncated'' (slice_get data off (usize_wrap w (off + k)))"

definition elf_read_u16 :: "nat \<Rightarrow> bytes \<Rightarrow> nat \<Rightarrow> string + u16" where
  "elf_read_u16 w data off = rbind (elf_read w 2 data off) (\<lambda>bs. Inr (u16_from_le_bytes bs))"

definition elf_read_u32 :: "nat \<Rightarrow> bytes \<Rightarrow> nat \<Rightarrow> string + u32" where
  "elf_read_u32 w data off = rbind (elf_read w 4 data off) (\<lambda>bs. Inr (u32_from_le_bytes bs))"

definition elf_read_u64 :: "nat \<Rightarrow> bytes \<Rightarrow> nat \<Rightarrow> string + u64" where
  "elf_read_u64 w data off = rbind (elf_read w 8 data off) (\<lambda>bs. Inr (u64_from_le_bytes bs))"

definition load_elf32 :: "nat \<Rightarrow> bytes \<Rightarrow> nat \<Rightarrow> load_segment list \<Rightarrow> string + load_segment list" where
  "load_elf32 w data off loads =
     rbind (elf_read_u32 w data off) (\<lambda>kind.
     if kind \<noteq> PT_LOAD then Inr loads
     else rbind (elf_read_u32 w data (usize_wrap w (off + 4))) (\<lambda>offset.
          rbind (elf_read_u32 w data (usize_wrap w (off + 8))) (\<lambda>vaddr.
          rbind (elf_read_u32 w data (usize_wrap w (off + 16))) (\<lambda>filesz.
          rbind (elf_read_u32 w data (usize_wrap w (off + 20))) (\<lambda>memsz.
          rbind (elf_read_u32 w data (usize_wrap w (off + 24))) (\<lambda>flags.
          Inr (loads @ [\<lparr>ls_offset = ucast offset, ls_vaddr = ucast vaddr, ls_filesz = ucast filesz,
                         ls_memsz = ucast memsz, ls_flags = flags\<rparr>])))))))"

definition parse_loads_elf32 :: "nat \<Rightarrow> bytes \<Rightarrow> string + load_segment list" where
  "parse_loads_elf32 w data =
     rbind (elf_read_u32 w data 28) (\<lambda>phoff.
     rbind (elf_read_u16 w data 42) (\<lambda>phentsize.
     rbind (elf_read_u16 w data 44) (\<lambda>phnum.
     rfold (\<lambda>idx. load_elf32 w data (usize_wrap w (unat phoff + idx * unat phentsize))) [0..<unat phnum] [])))"

definition load_elf64 :: "nat \<Rightarrow> bytes \<Rightarrow> nat \<Rightarrow> load_segment list \<Rightarrow> string + load_segment list" where
  "load_elf64 w data off loads =
     rbind (elf_read_u32 w data off) (\<lambda>kind.
     if kind \<noteq> PT_LOAD then Inr loads
     else rbind (elf_read_u32 w data (usize_wrap w (off + 4))) (\<lambda>flags.
          rbind (elf_read_u64 w data (usize_wrap w (off + 8))) (\<lambda>offset.
          rbind (elf_read_u64 w data (usize_wrap w (off + 16))) (\<lambda>vaddr.
          rbind (elf_read_u64 w data (usize_wrap w (off + 32))) (\<lambda>filesz.
          rbind (elf_read_u64 w data (usize_wrap w (off + 40))) (\<lambda>memsz.
          Inr (loads @ [\<lparr>ls_offset = offset, ls_vaddr = vaddr, ls_filesz = filesz,
                         ls_memsz = memsz, ls_flags = flags\<rparr>])))))))"

definition parse_loads_elf64 :: "nat \<Rightarrow> bytes \<Rightarrow> string + load_segment list" where
  "parse_loads_elf64 w data =
     rbind (elf_read_u64 w data 32) (\<lambda>phoff.
     rbind (elf_read_u16 w data 54) (\<lambda>phentsize.
     rbind (elf_read_u16 w data 56) (\<lambda>phnum.
     rfold (\<lambda>idx. load_elf64 w data (usize_wrap w (usize_wrap w (unat phoff) + idx * unat phentsize))) [0..<unat phnum] [])))"

definition elf_image_parse :: "nat \<Rightarrow> bytes \<Rightarrow> string + elf_image" where
  "elf_image_parse w data =
     (if slice_get data 0 4 \<noteq> Some [0x7f, 0x45, 0x4c, 0x46] then Inl ''input is not an ELF file''
      else if get_at data 5 \<noteq> Some 1 then Inl ''big-endian ELF files are not supported''
      else rbind (case get_at data 4 of
             Some k \<Rightarrow> if k = 1 then Inr Elf32 else if k = 2 then Inr Elf64 else Inl ''unsupported ELF class''
           | None \<Rightarrow> Inl ''unsupported ELF class'') (\<lambda>c.
           rbind (case c of Elf32 \<Rightarrow> parse_loads_elf32 w data | Elf64 \<Rightarrow> parse_loads_elf64 w data) (\<lambda>loads.
           if loads = [] then Inl ''ELF file has no PT_LOAD segments''
           else Inr \<lparr>ei_data = data, ei_class = c, ei_loads = loads\<rparr>)))"

definition load_offset :: "nat \<Rightarrow> u64 \<Rightarrow> load_segment \<Rightarrow> nat option" where
  "load_offset w va load =
     opt_bind (u64_checked_add (ls_vaddr load) (ls_filesz load)) (\<lambda>end_va.
     if ls_vaddr load \<le> va \<and> va < end_va
     then Some (usize_wrap w (unat (ls_offset load + (va - ls_vaddr load)))) else None)"

definition va_to_offset :: "nat \<Rightarrow> elf_image \<Rightarrow> u64 \<Rightarrow> nat option" where
  "va_to_offset w img va = find_map (load_offset w va) (ei_loads img)"

definition in_text :: "elf_image \<Rightarrow> u64 \<Rightarrow> bool" where
  "in_text img va = list_ex (\<lambda>l. is_executable l \<and> ls_vaddr l \<le> va
     \<and> va < u64_saturating_add (ls_vaddr l) (ls_filesz l)) (ei_loads img)"

definition in_module :: "elf_image \<Rightarrow> u64 \<Rightarrow> bool" where
  "in_module img va = list_ex (\<lambda>l. ls_vaddr l \<le> va \<and> va < u64_saturating_add (ls_vaddr l) (ls_memsz l)) (ei_loads img)"

definition read_word_va :: "nat \<Rightarrow> elf_image \<Rightarrow> u64 \<Rightarrow> u64 option" where
  "read_word_va w img va =
     opt_bind (va_to_offset w img va) (\<lambda>off.
     case ei_class img of
       Elf32 \<Rightarrow> map_option ucast (result_ok (elf_read_u32 w (ei_data img) off))
     | Elf64 \<Rightarrow> result_ok (elf_read_u64 w (ei_data img) off))"

definition read_u32_va :: "nat \<Rightarrow> elf_image \<Rightarrow> u64 \<Rightarrow> u32 option" where
  "read_u32_va w img va = opt_bind (va_to_offset w img va) (\<lambda>off. result_ok (elf_read_u32 w (ei_data img) off))"

definition read_i32_va :: "nat \<Rightarrow> elf_image \<Rightarrow> u64 \<Rightarrow> int option" where
  "read_i32_va w img va =
     opt_bind (va_to_offset w img va) (\<lambda>off. map_option i32_le (slice_get (ei_data img) off (usize_wrap w (off + 4))))"

definition read_u8_va :: "nat \<Rightarrow> elf_image \<Rightarrow> u64 \<Rightarrow> u8 option" where
  "read_u8_va w img va = opt_bind (va_to_offset w img va) (get_at (ei_data img))"

text \<open>The loop over at most \<open>max_len\<close> bytes: the text before a zero, nothing when there is none.\<close>

fun printable_text :: "bytes \<Rightarrow> string \<Rightarrow> string" where
  "printable_text [] out = []"
| "printable_text (b # bs) out =
     (if b = 0 then out else if \<not> (0x20 \<le> b \<and> b \<le> 0x7e) then [] else printable_text bs (out @ [byte_char b]))"

definition read_cstring_va :: "nat \<Rightarrow> elf_image \<Rightarrow> u64 \<Rightarrow> nat \<Rightarrow> string option" where
  "read_cstring_va w img va max_len =
     (case va_to_offset w img va of
        None \<Rightarrow> Some []
      | Some off \<Rightarrow> if length (ei_data img) < off then None
                    else Some (printable_text (take max_len (drop off (ei_data img))) []))"

record executable_segment =
  es_bytes :: bytes
  es_file_offset :: u64
  es_vaddr :: u64
  es_elf_class :: elf_class

text \<open>\<open>max_by_key\<close> returns the last of equal maxima.\<close>

fun max_by_filesz :: "load_segment list \<Rightarrow> load_segment option" where
  "max_by_filesz [] = None"
| "max_by_filesz (l # ls) =
     (case max_by_filesz ls of None \<Rightarrow> Some l | Some m \<Rightarrow> if ls_filesz m < ls_filesz l then Some l else Some m)"

definition largest_executable_segment :: "nat \<Rightarrow> elf_image \<Rightarrow> string + executable_segment" where
  "largest_executable_segment w img =
     rbind (ok_or ''ELF file has no executable PT_LOAD segment'' (max_by_filesz (filter is_executable (ei_loads img)))) (\<lambda>load.
     let start = usize_wrap w (unat (ls_offset load)) in
     rbind (ok_or ''executable segment range overflows usize''
              (usize_checked_add w start (usize_wrap w (unat (ls_filesz load))))) (\<lambda>end_off.
     rbind (ok_or ''executable segment extends past EOF'' (slice_get (ei_data img) start end_off)) (\<lambda>bs.
     Inr \<lparr>es_bytes = bs, es_file_offset = ls_offset load, es_vaddr = ls_vaddr load, es_elf_class = ei_class img\<rparr>)))"

section \<open>Resolution\<close>

datatype follow_mode = FollowNone | FollowRelative | FollowUpward | FollowCall | FollowEntry

record pattern_ref =
  pf_name :: string
  pf_pattern :: string
  pf_follow :: follow_mode
  pf_prologue :: "bytes option"
  pf_callee_pattern :: "string option"
  pf_pic_entry :: bool
  pf_steamrt_variant :: bool
  pf_module :: string

record resolve_result =
  rr_target_offset :: nat
  rr_match_count :: nat
  rr_variant_index :: nat

record variant_target =
  vt_variant_index :: nat
  vt_target_offset :: nat

datatype resolve_error =
    PatternParse string
  | CalleePatternParse string
  | RNoMatch
  | RAmbiguous nat
  | VariantConflict "variant_target list"
  | Follow string nat
  | MissingPrologue
  | CalleePatternMismatch nat
  | PicEntryNotFound

datatype pattern_scan_status = ScanOk | ScanMiss | ScanAmbiguous | ScanFail

fun resolve_error_status :: "resolve_error \<Rightarrow> pattern_scan_status" where
  "resolve_error_status RNoMatch = ScanMiss"
| "resolve_error_status (RAmbiguous _) = ScanAmbiguous"
| "resolve_error_status _ = ScanFail"

fun resolve_error_match_count :: "resolve_error \<Rightarrow> nat" where
  "resolve_error_match_count (RAmbiguous n) = n"
| "resolve_error_match_count (Follow _ n) = n"
| "resolve_error_match_count (CalleePatternMismatch n) = n"
| "resolve_error_match_count (VariantConflict targets) = length targets"
| "resolve_error_match_count _ = 0"

fun resolve_error_text :: "resolve_error \<Rightarrow> string" where
  "resolve_error_text (PatternParse e) = ''pattern parse failed: '' @ e"
| "resolve_error_text (CalleePatternParse e) = ''callee pattern parse failed: '' @ e"
| "resolve_error_text RNoMatch = ''pattern has no match''"
| "resolve_error_text (RAmbiguous n) = ''pattern is not unique: found '' @ nat_to_string n @ '' matches''"
| "resolve_error_text (VariantConflict targets) =
     ''pattern variants resolve to different targets:'' @ concat (map (\<lambda>t.
        '' variant='' @ nat_to_string (vt_variant_index t + 1) @ '' text+0x'' @ nat_to_hex (vt_target_offset t)) targets)"
| "resolve_error_text (Follow e _) = ''follow failed: '' @ e"
| "resolve_error_text MissingPrologue = ''upward follow requires prologue bytes''"
| "resolve_error_text (CalleePatternMismatch _) = ''no call target matched callee_pattern''"
| "resolve_error_text PicEntryNotFound = ''PIC entry not found before prologue''"

definition FOLLOW_CALL_SCAN_BYTES :: nat where "FOLLOW_CALL_SCAN_BYTES = 256"
definition UPWARD_SCAN_BYTES :: nat where "UPWARD_SCAN_BYTES = 0x10000"

type_synonym candidate_check = "bytes \<Rightarrow> string \<Rightarrow> nat \<Rightarrow> bool"

definition select_match ::
  "bytes \<Rightarrow> pattern_ref \<Rightarrow> nat list \<Rightarrow> candidate_check option \<Rightarrow> resolve_error + nat" where
  "select_match haystack entry matches accept =
     (case matches of [] \<Rightarrow> Inl RNoMatch
      | [off] \<Rightarrow> Inr off
      | many \<Rightarrow>
          let accepted = (case accept of None \<Rightarrow> [] | Some f \<Rightarrow> filter (f haystack (pf_name entry)) many) in
          ok_or (RAmbiguous (length many)) (get_at accepted 0))"

fun call_targets :: "bytes \<Rightarrow> pattern option \<Rightarrow> nat list \<Rightarrow> nat option" where
  "call_targets haystack callee [] = None"
| "call_targets haystack callee (off # offs) =
     (case follow_last_call_before_ret haystack off FOLLOW_CALL_SCAN_BYTES of
        Inl _ \<Rightarrow> call_targets haystack callee offs
      | Inr target \<Rightarrow>
          if (case callee of None \<Rightarrow> True | Some p \<Rightarrow> matches_at p haystack target) then Some target
          else call_targets haystack callee offs)"

definition resolve_call_target :: "bytes \<Rightarrow> pattern_ref \<Rightarrow> nat list \<Rightarrow> resolve_error + nat" where
  "resolve_call_target haystack entry matches =
     rbind (case pf_callee_pattern entry of
         None \<Rightarrow> Inr None
       | Some text \<Rightarrow> rbind (map_err (\<lambda>e. CalleePatternParse (pattern_error_text e)) (pattern_parse text)) (\<lambda>p. Inr (Some p))) (\<lambda>callee.
     ok_or (if callee \<noteq> None then CalleePatternMismatch (length matches)
            else Follow ''no call before RET'' (length matches))
       (call_targets haystack callee matches))"

definition is_pic_preamble :: "bytes \<Rightarrow> nat \<Rightarrow> nat \<Rightarrow> bool" where
  "is_pic_preamble haystack off len =
     (case slice_get haystack off (off + len) of
        None \<Rightarrow> False
      | Some bs \<Rightarrow> bs ! 0 = 0xe8
          \<and> (if len = 10 then bs ! 5 = 0x05
             else if len = 11 then bs ! 5 = 0x81 \<and> bs ! 6 \<in> {0xc1, 0xc3, 0xc5, 0xc6, 0xc7}
             else False))"

definition find_pic_entry :: "bytes \<Rightarrow> nat \<Rightarrow> nat option" where
  "find_pic_entry haystack prologue_offset =
     (case find_map (\<lambda>off. if off \<le> prologue_offset \<and> is_pic_preamble haystack (prologue_offset - off) off
                           then Some (prologue_offset - off) else None) [10, 11] of
        Some candidate \<Rightarrow> Some candidate
      | None \<Rightarrow> if slice_get haystack prologue_offset (prologue_offset + 3) = Some [0x55, 0x89, 0xe5]
                then Some prologue_offset else None)"

text \<open>The target of one entry before the PIC adjustment.\<close>

definition follow_target ::
  "bool \<Rightarrow> bytes \<Rightarrow> u32 \<Rightarrow> pattern_ref \<Rightarrow> nat list \<Rightarrow> candidate_check option \<Rightarrow> (resolve_error + nat) option" where
  "follow_target overflow_checks haystack bitness entry matches accept =
     (let match_count = length matches;
          followed = (\<lambda>e. Follow (pattern_error_text e) match_count);
          selected = select_match haystack entry matches accept in
      case pf_follow entry of
        FollowNone \<Rightarrow> Some selected
      | FollowRelative \<Rightarrow> Some (rbind selected (\<lambda>off.
          rbind (map_err followed (follow_relative_call haystack off)) (\<lambda>target.
          if target < 0 \<or> length haystack \<le> nat target
          then Inl (Follow ''relative target is out of bounds'' match_count) else Inr (nat target))))
      | FollowUpward \<Rightarrow>
          (case selected of Inl e \<Rightarrow> Some (Inl e)
           | Inr off \<Rightarrow>
               (case pf_prologue entry of None \<Rightarrow> Some (Inl MissingPrologue)
                | Some prologue \<Rightarrow> map_option (map_err followed)
                    (find_prologue_upwards overflow_checks haystack off prologue UPWARD_SCAN_BYTES)))
      | FollowCall \<Rightarrow> Some (resolve_call_target haystack entry matches)
      | FollowEntry \<Rightarrow> Some (rbind selected (\<lambda>off. map_err followed (find_entry_pushes haystack off bitness))))"

definition resolve_entry ::
  "(bytes \<Rightarrow> bytes \<Rightarrow> nat option) \<Rightarrow> nat \<Rightarrow> bool \<Rightarrow> bytes \<Rightarrow> u32 \<Rightarrow> pattern_ref \<Rightarrow> candidate_check option
     \<Rightarrow> (resolve_error + resolve_result) option" where
  "resolve_entry finder w overflow_checks haystack bitness entry accept =
     (case pattern_parse (pf_pattern entry) of
        Inl e \<Rightarrow> Some (Inl (PatternParse (pattern_error_text e)))
      | Inr p \<Rightarrow>
          opt_bind (find_all finder w p haystack) (\<lambda>matches.
          if matches = [] then Some (Inl RNoMatch)
          else opt_bind (follow_target overflow_checks haystack bitness entry matches accept) (\<lambda>r. Some (
            rbind r (\<lambda>target_offset.
            rbind (if pf_pic_entry entry then ok_or PicEntryNotFound (find_pic_entry haystack target_offset)
                   else Inr target_offset) (\<lambda>target_offset.
            Inr \<lparr>rr_target_offset = target_offset, rr_match_count = length matches, rr_variant_index = 0\<rparr>))))))"

fun resolve_error_rank :: "resolve_error \<Rightarrow> u8" where
  "resolve_error_rank RNoMatch = 0"
| "resolve_error_rank (RAmbiguous _) = 1"
| "resolve_error_rank _ = 2"

fun prefer_resolve_error :: "resolve_error option \<Rightarrow> resolve_error \<Rightarrow> resolve_error" where
  "prefer_resolve_error None current = current"
| "prefer_resolve_error (Some previous) current =
     (if resolve_error_rank previous < resolve_error_rank current
         \<or> resolve_error_rank current = resolve_error_rank previous
           \<and> resolve_error_match_count previous < resolve_error_match_count current
      then current else previous)"

fun unique_successful_variant :: "resolve_result list \<Rightarrow> resolve_error + resolve_result option" where
  "unique_successful_variant [] = Inr None"
| "unique_successful_variant (first # rest) =
     (if list_all (\<lambda>r. rr_target_offset r = rr_target_offset first) (first # rest) then Inr (Some first)
      else Inl (VariantConflict (map (\<lambda>r. \<lparr>vt_variant_index = rr_variant_index r,
                                           vt_target_offset = rr_target_offset r\<rparr>) (first # rest))))"

text \<open>The loop over the variants with their indices.\<close>

fun resolve_variants ::
  "(pattern_ref \<Rightarrow> (resolve_error + resolve_result) option) \<Rightarrow> nat \<Rightarrow> pattern_ref list
     \<Rightarrow> resolve_error option \<times> resolve_result list \<Rightarrow> (resolve_error option \<times> resolve_result list) option" where
  "resolve_variants resolve i [] acc = Some acc"
| "resolve_variants resolve i (entry # entries) acc =
     opt_bind (resolve entry) (\<lambda>r.
     resolve_variants resolve (Suc i) entries
       (case r of Inr result \<Rightarrow> (fst acc, snd acc @ [result\<lparr>rr_variant_index := i\<rparr>])
        | Inl e \<Rightarrow> (Some (prefer_resolve_error (fst acc) e), snd acc)))"

definition resolve_entry_group_with ::
  "(bytes \<Rightarrow> bytes \<Rightarrow> nat option) \<Rightarrow> nat \<Rightarrow> bool \<Rightarrow> bytes \<Rightarrow> u32 \<Rightarrow> pattern_ref list \<Rightarrow> candidate_check option
     \<Rightarrow> (resolve_error + resolve_result) option" where
  "resolve_entry_group_with finder w overflow_checks haystack bitness entries accept =
     opt_bind (resolve_variants (\<lambda>e. resolve_entry finder w overflow_checks haystack bitness e accept) 0 entries (None, []))
       (\<lambda>(best_error, successes). Some (
       rbind (unique_successful_variant successes) (\<lambda>r.
       case r of Some result \<Rightarrow> Inr result | None \<Rightarrow> Inl (unwrap_or RNoMatch best_error))))"

definition resolve_entry_group where
  "resolve_entry_group finder w overflow_checks haystack bitness entries =
     resolve_entry_group_with finder w overflow_checks haystack bitness entries None"

section \<open>Scanning a module\<close>

record pattern_scan_entry =
  pne_name :: string
  pne_status :: pattern_scan_status
  pne_match_count :: nat
  pne_target_offset :: "nat option"
  pne_error :: "string option"

record module_scan_report =
  msr_module :: string
  msr_path :: "string list"
  msr_elf_class :: elf_class
  msr_text_file_off :: u64
  msr_text_vaddr :: u64
  msr_text_size :: nat
  msr_entries :: "pattern_scan_entry list"

fun group_variants_from :: "pattern_ref list list \<Rightarrow> pattern_ref list \<Rightarrow> pattern_ref list list" where
  "group_variants_from groups [] = groups"
| "group_variants_from groups (entry # entries) =
     group_variants_from
       (if groups \<noteq> [] \<and> pf_name (hd (last groups)) = pf_name entry \<and> pf_module (hd (last groups)) = pf_module entry
        then butlast groups @ [last groups @ [entry]] else groups @ [[entry]]) entries"

definition group_variants :: "pattern_ref list \<Rightarrow> pattern_ref list list" where
  "group_variants = group_variants_from []"

datatype library_family = Ordinary | SteamRt

text \<open>The path is the list of its components that are valid Unicode.\<close>

definition family_step :: "library_family option \<Rightarrow> string \<Rightarrow> library_family option" where
  "family_step family part =
     (if part \<in> {''steamrt32'', ''steamrt64''} then Some SteamRt
      else if part \<in> {''ubuntu12_32'', ''ubuntu12_64'', ''linux32'', ''linux64''} \<and> family = None then Some Ordinary
      else family)"

definition select_variants_for_library_path :: "pattern_ref list \<Rightarrow> string list \<Rightarrow> pattern_ref list" where
  "select_variants_for_library_path entries path =
     (case foldl family_step None path of
        None \<Rightarrow> entries
      | Some family \<Rightarrow> concat (map (\<lambda>group.
          let use_steamrt = (family = SteamRt \<and> list_ex pf_steamrt_variant group) in
          filter (\<lambda>e. pf_steamrt_variant e = use_steamrt) group) (group_variants entries)))"

definition scan_entry_group ::
  "(bytes \<Rightarrow> bytes \<Rightarrow> nat option) \<Rightarrow> nat \<Rightarrow> bool \<Rightarrow> bytes \<Rightarrow> u32 \<Rightarrow> candidate_check option \<Rightarrow> pattern_ref list
     \<Rightarrow> pattern_scan_entry option" where
  "scan_entry_group finder w overflow_checks haystack bitness accept entries =
     map_option (\<lambda>r. case r of
         Inr result \<Rightarrow> \<lparr>pne_name = pf_name (hd entries), pne_status = ScanOk, pne_match_count = rr_match_count result,
                        pne_target_offset = Some (rr_target_offset result), pne_error = None\<rparr>
       | Inl e \<Rightarrow> \<lparr>pne_name = pf_name (hd entries), pne_status = resolve_error_status e,
                   pne_match_count = resolve_error_match_count e, pne_target_offset = None,
                   pne_error = Some (resolve_error_text e)\<rparr>)
       (resolve_entry_group_with finder w overflow_checks haystack bitness entries accept)"

text \<open>Mapping a function that may panic over a list.\<close>

fun map_panic :: "('a \<Rightarrow> 'b option) \<Rightarrow> 'a list \<Rightarrow> 'b list option" where
  "map_panic f [] = Some []"
| "map_panic f (x # xs) = opt_bind (f x) (\<lambda>y. map_option (Cons y) (map_panic f xs))"

text \<open>The \<open>Debug\<close> format of a string.\<close>

definition debug_char :: "char \<Rightarrow> string" where
  "debug_char c =
     (let n = of_char c :: nat in
      if n = 34 \<or> n = 92 then [char_of (92 :: nat), c]
      else if n = 0 then [char_of (92 :: nat), CHR ''0'']
      else if n = 9 then [char_of (92 :: nat), CHR ''t'']
      else if n = 10 then [char_of (92 :: nat), CHR ''n'']
      else if n = 13 then [char_of (92 :: nat), CHR ''r'']
      else if n < 32 \<or> n = 127 then [char_of (92 :: nat), CHR ''u'', CHR ''{''] @ nat_to_hex n @ ''}''
      else [c])"

definition debug_str :: "string \<Rightarrow> string" where
  "debug_str s = [char_of (34 :: nat)] @ concat (map debug_char s) @ [char_of (34 :: nat)]"

definition scan_module ::
  "(bytes \<Rightarrow> bytes \<Rightarrow> nat option) \<Rightarrow> nat \<Rightarrow> bool \<Rightarrow> string \<Rightarrow> string list \<Rightarrow> bytes \<Rightarrow> pattern_ref list
     \<Rightarrow> candidate_check option \<Rightarrow> (string + module_scan_report) option" where
  "scan_module finder w overflow_checks module path data patterns accept =
     (case rbind (elf_image_parse w data) (largest_executable_segment w) of
        Inl e \<Rightarrow> Some (Inl e)
      | Inr segment \<Rightarrow>
          let variants = filter (\<lambda>e. pf_module e = module) patterns in
          if variants = [] then Some (Inl (''no patterns for module '' @ debug_str module))
          else map_option (\<lambda>entries. Inr \<lparr>msr_module = module, msr_path = path, msr_elf_class = es_elf_class segment,
                 msr_text_file_off = es_file_offset segment, msr_text_vaddr = es_vaddr segment,
                 msr_text_size = length (es_bytes segment), msr_entries = entries\<rparr>)
               (map_panic (scan_entry_group finder w overflow_checks (es_bytes segment) (ucast (elf_bits (es_elf_class segment))) accept)
                  (group_variants (select_variants_for_library_path variants path))))"

definition scan_failures :: "module_scan_report \<Rightarrow> pattern_scan_entry list" where
  "scan_failures report = filter (\<lambda>e. pne_status e \<noteq> ScanOk) (msr_entries report)"

definition failure_count :: "module_scan_report \<Rightarrow> nat" where
  "failure_count report = length (scan_failures report)"

definition ok_count :: "module_scan_report \<Rightarrow> nat" where
  "ok_count report = length (filter (\<lambda>e. pne_status e = ScanOk) (msr_entries report))"

definition miss_count :: "module_scan_report \<Rightarrow> nat" where
  "miss_count report = length (filter (\<lambda>e. pne_status e \<noteq> ScanOk) (msr_entries report))"

end
