(* ===== verification/Pattern_Laws.thy ===== *)
theory Pattern_Laws
  imports Pattern_Scan
begin

text \<open>
  Lemmas on the pattern search and the resolution: the anchor search finds every match, and every way from a match to an
  entry stays inside the scanned code.
\<close>

section \<open>Specification\<close>

text \<open>What memchr documents of its search: the first position at which the needle stands.\<close>

definition occurs_at :: "bytes \<Rightarrow> bytes \<Rightarrow> nat \<Rightarrow> bool" where
  "occurs_at needle hay i \<longleftrightarrow> i + length needle \<le> length hay \<and> take (length needle) (drop i hay) = needle"

definition first_occurrence :: "(bytes \<Rightarrow> bytes \<Rightarrow> nat option) \<Rightarrow> bool" where
  "first_occurrence finder \<longleftrightarrow> (\<forall>needle hay. (case finder needle hay of
       None \<Rightarrow> \<forall>i. \<not> occurs_at needle hay i
     | Some i \<Rightarrow> occurs_at needle hay i \<and> (\<forall>j < i. \<not> occurs_at needle hay j)))"

definition naive_find :: "bytes \<Rightarrow> bytes \<Rightarrow> nat option" where
  "naive_find needle hay = find (occurs_at needle hay) [0..<Suc (length hay)]"

text \<open>The invariant of the loop over the tokens.\<close>

definition literal_at :: "pattern_token list \<Rightarrow> nat \<times> nat \<Rightarrow> bool" where
  "literal_at ts run \<longleftrightarrow> fst run + snd run \<le> length ts \<and> (\<forall>i < snd run. ts ! (fst run + i) \<noteq> Wildcard)"

definition hits :: "pattern \<Rightarrow> bytes \<Rightarrow> nat \<Rightarrow> nat list" where
  "hits p h from = filter (matches_at p h) [from..<Suc (length h - length (pt_tokens p))]"

definition bounded_matches :: "nat \<Rightarrow> nat list \<Rightarrow> nat list \<times> bool" where
  "bounded_matches limit ms = (if length ms \<le> limit then (ms, False) else (take limit ms, True))"

text \<open>The target that a variant resolves to on its own.\<close>

definition variant_target_of :: "(pattern_ref \<Rightarrow> (resolve_error + resolve_result) option) \<Rightarrow> pattern_ref \<Rightarrow> nat option" where
  "variant_target_of resolve e = (case resolve e of Some (Inr r) \<Rightarrow> Some (rr_target_offset r) | _ \<Rightarrow> None)"

section \<open>Lemmas on the search\<close>

lemma naive_find_first: "first_occurrence naive_find"
  unfolding first_occurrence_def
proof (intro allI)
  fix n h
  have bound: "occurs_at n h i \<Longrightarrow> i < Suc (length h)" for i by (simp add: occurs_at_def)
  show "case naive_find n h of None \<Rightarrow> \<forall>i. \<not> occurs_at n h i
      | Some i \<Rightarrow> occurs_at n h i \<and> (\<forall>j < i. \<not> occurs_at n h j)"
  proof (cases "naive_find n h")
    case None
    then have "\<not> (\<exists>i. i \<in> set [0..<Suc (length h)] \<and> occurs_at n h i)" unfolding naive_find_def find_None_iff .
    then have "\<forall>i. \<not> occurs_at n h i" using bound by (metis atLeastLessThan_iff le0 set_upt)
    then show ?thesis using None by simp
  next
    case (Some i)
    then obtain k where k: "k < Suc (length h)" "occurs_at n h ([0..<Suc (length h)] ! k)" "i = [0..<Suc (length h)] ! k"
      "\<forall>j < k. \<not> occurs_at n h ([0..<Suc (length h)] ! j)" unfolding naive_find_def find_Some_iff length_upt by (elim exE conjE) (simp del: upt_Suc)
    have at: "[0..<Suc (length h)] ! j = j" if "j \<le> k" for j using that k(1) by (simp del: upt_Suc)
    have "\<not> occurs_at n h j" if "j < k" for j using k(4) [rule_format, OF that] at [of j] that by (simp del: upt_Suc)
    then show ?thesis using Some k(2,3) at [of k] by simp
  qed
qed

lemma first_occurrence_None: "first_occurrence finder \<Longrightarrow> finder n h = None \<Longrightarrow> \<not> occurs_at n h i"
  unfolding first_occurrence_def by (drule spec [of _ n], drule spec [of _ h]) simp

lemma first_occurrence_Some:
  "first_occurrence finder \<Longrightarrow> finder n h = Some i \<Longrightarrow> occurs_at n h i \<and> (\<forall>j < i. \<not> occurs_at n h j)"
  unfolding first_occurrence_def by (drule spec [of _ n], drule spec [of _ h]) simp

lemma matches_at_iff:
  "matches_at p h off \<longleftrightarrow> off + length (pt_tokens p) \<le> length h
     \<and> (\<forall>i < length (pt_tokens p). token_matches (pt_tokens p ! i) (h ! (off + i)))"
  by (auto simp: matches_at_def slice_get_def list_all_length)

lemma literal_run_inv:
  assumes "literal_at done best" "literal_at done cur" "snd cur \<noteq> 0 \<Longrightarrow> fst cur + snd cur = length done"
    and "snd cur \<le> snd best" "snd best = 0 \<Longrightarrow> set done \<subseteq> {Wildcard}"
    and "run = literal_run ts (length done) best cur"
  shows "literal_at (done @ ts) run \<and> (snd run = 0 \<longrightarrow> set (done @ ts) \<subseteq> {Wildcard})"
  using assms
proof (induction ts arbitrary: "done" best cur)
  case Nil
  then show ?case by simp
next
  case (Cons t ts)
  have grow: "literal_at (done @ [t]) r" if "literal_at done r" for r
    using that by (auto simp: literal_at_def nth_append)
  show ?case
  proof (cases t)
    case Wildcard
    have "literal_at ((done @ [t]) @ ts) run \<and> (snd run = 0 \<longrightarrow> set ((done @ [t]) @ ts) \<subseteq> {Wildcard})"
      by (rule Cons.IH [of "done @ [t]" best "(fst cur, 0)"])
        (use Cons.prems grow Wildcard in \<open>auto simp: literal_at_def\<close>)
    then show ?thesis by simp
  next
    case (Byte b)
    define start len where "start = (if snd cur = 0 then length done else fst cur)" and "len = snd cur + 1"
    have run: "literal_at (done @ [t]) (start, len)" "start + len = length (done @ [t])"
      using Cons.prems(2,3) Byte by (auto simp: literal_at_def start_def len_def nth_append less_Suc_eq)
    define best' where "best' = (if snd best < len then (start, len) else best)"
    have best: "literal_at (done @ [t]) best'" "snd best' \<noteq> 0" "len \<le> snd best'"
      using grow [OF Cons.prems(1)] run(1) by (auto simp: best'_def len_def)
    have eq: "run = literal_run ts (length (done @ [t])) best' (start, len)"
      using Cons.prems(6) by (simp add: Byte Let_def best'_def start_def len_def)
    have "literal_at ((done @ [t]) @ ts) run \<and> (snd run = 0 \<longrightarrow> set ((done @ [t]) @ ts) \<subseteq> {Wildcard})"
      by (rule Cons.IH [OF best(1) run(1) _ _ _ eq]) (use run best in simp_all)
    then show ?thesis by simp
  qed
qed


lemma token_byte_literal: "\<forall>t \<in> set ts. t \<noteq> Wildcard \<Longrightarrow> map Byte (List.map_filter token_byte ts) = ts"
proof (induction ts)
  case (Cons t ts)
  then show ?case by (cases t) simp_all
qed simp

lemma longest_literal_run_None: "longest_literal_run p = None \<Longrightarrow> set (pt_tokens p) \<subseteq> {Wildcard}"
  using literal_run_inv [of "[]" "(0, 0)" "(0, 0)" "literal_run (pt_tokens p) 0 (0, 0) (0, 0)" "pt_tokens p"]
  by (auto simp: longest_literal_run_def literal_at_def Let_def split: if_splits prod.splits)

lemma longest_literal_run_Some:
  assumes "longest_literal_run p = Some (i, bs)"
  shows "bs \<noteq> []" "i + length bs \<le> length (pt_tokens p)" "take (length bs) (drop i (pt_tokens p)) = map Byte bs"
proof -
  obtain run where run: "run = literal_run (pt_tokens p) 0 (0, 0) (0, 0)" "snd run \<noteq> 0" "i = fst run"
    and bs: "bs = List.map_filter token_byte (take (snd run) (drop i (pt_tokens p)))"
    using assms by (auto simp: longest_literal_run_def Let_def split: prod.splits if_splits)
  have inv: "literal_at (pt_tokens p) run"
    using literal_run_inv [of "[]" "(0, 0)" "(0, 0)" run "pt_tokens p"] run(1) by (simp add: literal_at_def)
  let ?ts = "take (snd run) (drop i (pt_tokens p))"
  have len: "length ?ts = snd run" using inv run(3) by (auto simp: literal_at_def)
  have "\<forall>t \<in> set ?ts. t \<noteq> Wildcard" using inv run(3) len by (auto simp: literal_at_def in_set_conv_nth)
  then have eq: "map Byte bs = ?ts" unfolding bs by (rule token_byte_literal)
  then have n: "length bs = snd run" using len by (metis length_map)
  show "bs \<noteq> []" using n run(2) by auto
  show "i + length bs \<le> length (pt_tokens p)" using inv n run(3) by (simp add: literal_at_def)
  show "take (length bs) (drop i (pt_tokens p)) = map Byte bs" using eq n by simp
qed

text \<open>The anchor of a pattern stands in every match.\<close>

lemma match_has_anchor:
  assumes "longest_literal_run p = Some (i, bs)" "matches_at p h off" shows "occurs_at bs h (off + i)"
proof -
  note anchor = longest_literal_run_Some [OF assms(1)]
  have m: "off + length (pt_tokens p) \<le> length h" "\<And>k. k < length (pt_tokens p) \<Longrightarrow> token_matches (pt_tokens p ! k) (h ! (off + k))"
    using assms(2) by (simp_all add: matches_at_iff)
  have "h ! (off + i + k) = bs ! k" if "k < length bs" for k
  proof -
    have "pt_tokens p ! (i + k) = Byte (bs ! k)" using arg_cong [OF anchor(3), of "\<lambda>ts. ts ! k"] anchor(2) that by simp
    then show ?thesis using m(2) [of "i + k"] anchor(2) that by (simp add: add.assoc)
  qed
  then have "take (length bs) (drop (off + i) h) = bs" using m(1) anchor(2) by (intro nth_equalityI) auto
  then show ?thesis using m(1) anchor(2) by (simp add: occurs_at_def)
qed

lemma occurs_at_drop: "s \<le> length h \<Longrightarrow> occurs_at n (drop s h) i \<longleftrightarrow> occurs_at n h (s + i)"
  by (auto simp: occurs_at_def add.commute add.left_commute)

lemma hits_skip:
  assumes "from \<le> to" "\<And>c. from \<le> c \<Longrightarrow> c < to \<Longrightarrow> \<not> matches_at p h c"
  shows "hits p h from = (if to \<le> length h - length (pt_tokens p) \<and> matches_at p h to then [to] else []) @ hits p h (Suc to)"
proof (cases "to \<le> length h - length (pt_tokens p)")
  case True
  let ?L = "Suc (length h - length (pt_tokens p))"
  have "[from..<?L] = [from..<to] @ to # [Suc to..<?L]"
    using True assms(1) upt_add_eq_append [of "from" to "?L - to"] upt_conv_Cons [of to ?L] by simp
  then show ?thesis using assms(2) True by (auto simp: hits_def filter_empty_conv)
next
  case False
  then show ?thesis using assms(2) by (auto simp: hits_def filter_empty_conv)
qed

lemma anchor_loop_exact:
  assumes "first_occurrence finder" "longest_literal_run p = Some anchor" "length (pt_tokens p) \<le> length h"
    and "s \<le> length h" "length ms \<le> limit"
  shows "anchor_loop finder p h limit anchor s ms = Some (bounded_matches limit (ms @ hits p h (s - fst anchor)))"
  using assms(4,5)
proof (induction "Suc (length h) - s" arbitrary: s ms rule: less_induct)
  case less
  obtain ai bs where anchor: "anchor = (ai, bs)" by (cases anchor)
  have run: "longest_literal_run p = Some (ai, bs)" using assms(2) anchor by simp
  have here: "\<exists>j. c + ai = s + j \<and> occurs_at bs (drop s h) j" if "matches_at p h c" "s - ai \<le> c" for c
  proof -
    have "occurs_at bs h (c + ai)" using match_has_anchor [OF run that(1)] .
    then show ?thesis using that(2) less.prems(1) occurs_at_drop [OF less.prems(1), of bs "c + ai - s"] by (intro exI [of _ "c + ai - s"]) auto
  qed
  show ?case
  proof (cases "finder bs (drop s h)")
    case None
    then have "\<not> occurs_at bs (drop s h) j" for j by (rule first_occurrence_None [OF assms(1)])
    then have "hits p h (s - ai) = []" using here by (fastforce simp: hits_def filter_empty_conv)
    then show ?thesis using None less.prems by (simp add: anchor_loop.simps [of _ _ _ _ _ s] anchor bounded_matches_def)
  next
    case (Some rel)
    then have occ: "occurs_at bs (drop s h) rel" and none: "\<And>j. j < rel \<Longrightarrow> \<not> occurs_at bs (drop s h) j"
      using first_occurrence_Some [OF assms(1)] by blast+
    let ?ao = "s + rel" and ?c = "s + rel - ai"
    have ao: "Suc ?ao \<le> length h" using occ longest_literal_run_Some(1) [OF run] less.prems(1)
      by (cases bs) (auto simp: occurs_at_def)
    let ?hit = "ai \<le> ?ao \<and> ?c \<le> length h - length (pt_tokens p) \<and> matches_at p h ?c"
    have split: "hits p h (s - ai) = (if ?hit then [?c] else []) @ hits p h (Suc ?ao - ai)"
    proof (cases "ai \<le> ?ao")
      case True
      have "\<not> matches_at p h c" if "s - ai \<le> c" "c < ?c" for c using here [OF _ that(1)] that(2) none by fastforce
      then show ?thesis using hits_skip [of "s - ai" ?c p h] True by (simp add: Suc_diff_le)
    next
      case False
      then show ?thesis by simp
    qed
    have IH: "length ms' \<le> limit \<Longrightarrow> anchor_loop finder p h limit anchor (Suc ?ao) ms' = Some (bounded_matches limit (ms' @ hits p h (Suc ?ao - ai)))" for ms'
      using less.hyps [of "Suc ?ao" ms'] ao less.prems(1) by (simp add: anchor)
    show ?thesis
      using IH [of ms] IH [of "ms @ [?c]"] split less.prems Some
      by (auto simp: anchor_loop.simps [of _ _ _ _ _ s] anchor Let_def bounded_matches_def not_le)
  qed
qed

lemma find_matches_exact:
  assumes "first_occurrence finder"
  shows "find_matches finder p h limit = Some (bounded_matches limit (if length h < length (pt_tokens p) then [] else hits p h 0))"
proof (cases "length h < length (pt_tokens p)")
  case True
  then show ?thesis by (simp add: find_matches_def bounded_matches_def)
next
  case False
  show ?thesis
  proof (cases "longest_literal_run p")
    case None
    then have w: "set (pt_tokens p) \<subseteq> {Wildcard}" by (rule longest_literal_run_None)
    have "matches_at p h c" if "c < Suc (length h - length (pt_tokens p))" for c
      using w that False by (auto simp: matches_at_iff dest!: subsetD [OF w, OF nth_mem])
    then have "hits p h 0 = [0..<Suc (length h - length (pt_tokens p))]" by (simp add: hits_def filter_id_conv del: upt_Suc)
    then show ?thesis using None False by (simp add: find_matches_def bounded_matches_def Let_def take_upt min_def del: upt_Suc)
  next
    case (Some anchor)
    then show ?thesis using False anchor_loop_exact [OF assms Some, of h 0 "[]" limit] by (simp add: find_matches_def)
  qed
qed


section \<open>Lemmas on the ways to an entry\<close>

lemma push_walk_le: "push_walk h b bits e \<le> e"
proof (induction h b bits e rule: push_walk.induct)
  case (1 h b bits e)
  then show ?case by (subst push_walk.simps) (auto intro: le_trans)
qed

lemma prologue_found_total: "anchor < length h \<Longrightarrow> prologue_found h anchor j pro \<noteq> None"
  by (induction pro arbitrary: j) (auto simp: get_at_def opt_bind_def)

lemma prologue_scan_release:
  assumes "\<forall>a \<in> set anchors. a < length h" "pro \<noteq> []"
  shows "\<exists>r. prologue_scan False h pro anchors = Some r \<and> (\<forall>t. r = Inr t \<longrightarrow> t < length h)"
  using assms
proof (induction anchors)
  case (Cons a anchors)
  then obtain found where "prologue_found h a 0 pro = Some found" using prologue_found_total [of a h 0 pro] by auto
  moreover have "a + 1 - length pro < length h" using Cons.prems by (cases pro) auto
  ultimately show ?case using Cons by (auto simp: opt_bind_def)
qed simp

text \<open>A build with overflow checks panics exactly where the other finds the entry at offset 0.\<close>

lemma prologue_found_long: "prologue_found h anchor j pro = Some True \<Longrightarrow> pro \<noteq> [] \<Longrightarrow> j + length pro \<le> anchor + 1"
proof (induction pro arbitrary: j)
  case (Cons e pro)
  have "\<not> anchor < j" "prologue_found h anchor (Suc j) pro = Some True"
    using Cons.prems(1) by (auto simp: opt_bind_def split: option.splits if_splits)
  then show ?case using Cons.IH [of "Suc j"] by (cases "pro = []") auto
qed simp

lemma prologue_scan_checked:
  assumes "\<forall>a \<in> set anchors. a < length h" "pro \<noteq> []"
  shows "prologue_scan True h pro anchors
     = (if prologue_scan False h pro anchors = Some (Inr 0) then None else prologue_scan False h pro anchors)"
  using assms
proof (induction anchors)
  case (Cons a anchors)
  obtain found where f: "prologue_found h a 0 pro = Some found" using prologue_found_total [of a h 0 pro] Cons.prems by auto
  then show ?case using Cons prologue_found_long [of h a 0 pro] by (cases found) (auto simp: opt_bind_def)
qed simp

lemma upward_anchors: "b < length h \<Longrightarrow> \<forall>a \<in> set (map (\<lambda>i. b - i) [0..<min m b + 1]). a < length h"
  by auto

lemma find_prologue_upwards_release:
  "b < length h \<Longrightarrow> \<exists>r. find_prologue_upwards False h b pro m = Some r \<and> (\<forall>t. r = Inr t \<longrightarrow> t < length h)"
  using prologue_scan_release [OF upward_anchors] by (auto simp: find_prologue_upwards_def)

lemma find_prologue_upwards_checked:
  assumes "b < length h"
  shows "find_prologue_upwards True h b pro m
     = (if find_prologue_upwards False h b pro m = Some (Inr 0) then None else find_prologue_upwards False h b pro m)"
  using prologue_scan_checked [OF upward_anchors [OF assms]] by (simp add: find_prologue_upwards_def)

lemma last_call_loop_bound:
  "last_call_loop h e pos acc = Some t \<Longrightarrow> \<forall>u. acc = Some u \<longrightarrow> u < length h \<Longrightarrow> t < length h"
proof (induction h e pos acc rule: last_call_loop.induct)
  case (1 h e pos acc)
  let ?target = "int pos + 5 + i32_le (take 4 (drop (pos + 1) h))"
  let ?acc = "if 0 \<le> ?target \<and> nat ?target < length h then Some (nat ?target) else acc"
  consider "\<not> pos + 5 \<le> e \<or> h ! pos = 0xC3" | "pos + 5 \<le> e" "h ! pos = 0xE8"
    | "pos + 5 \<le> e" "h ! pos \<noteq> 0xC3" "h ! pos \<noteq> 0xE8" by blast
  then show ?case
  proof cases
    case 1
    then have "last_call_loop h e pos acc = acc" by (subst last_call_loop.simps) auto
    then show ?thesis using "1.prems" by simp
  next
    case 2
    then have "last_call_loop h e pos acc = last_call_loop h e (pos + 5) ?acc"
      by (subst last_call_loop.simps) (simp add: Let_def)
    then show ?thesis using "1.prems" 2 by (intro "1.IH"(1) [OF _ _ _ refl]) auto
  next
    case 3
    then have "last_call_loop h e pos acc = last_call_loop h e (pos + 1) acc" by (subst last_call_loop.simps) simp
    then show ?thesis using "1.prems" 3 by (intro "1.IH"(2)) auto
  qed
qed

lemma follow_last_call_bound: "follow_last_call_before_ret h off m = Inr t \<Longrightarrow> t < length h"
  using last_call_loop_bound [of h "min (off + m) (length h)" off None]
  by (cases "last_call_loop h (min (off + m) (length h)) off None") (auto simp: follow_last_call_before_ret_def)

lemma call_targets_bound: "call_targets h callee offs = Some t \<Longrightarrow> t < length h"
  by (induction h callee offs rule: call_targets.induct) (auto dest: follow_last_call_bound split: sum.splits if_splits)

lemma find_pic_entry_bound: "find_pic_entry h t = Some c \<Longrightarrow> c \<le> t"
  by (auto simp: find_pic_entry_def split: option.splits if_splits)

section \<open>Lemmas on the resolution\<close>

lemma pattern_parse_nonempty: "pattern_parse text = Inr p \<Longrightarrow> pt_tokens p \<noteq> []"
  by (auto simp: pattern_parse_def rbind_def split: sum.splits if_splits)

lemma bounded_matches_subset: "set (fst (bounded_matches limit ms)) \<subseteq> set ms"
  by (auto simp: bounded_matches_def dest: in_set_takeD)

lemma find_all_bound:
  assumes "first_occurrence finder" "pt_tokens p \<noteq> []"
  shows "\<exists>ms. find_all finder w p h = Some ms \<and> (\<forall>m \<in> set ms. m < length h \<and> matches_at p h m)"
proof -
  let ?hits = "if length h < length (pt_tokens p) then [] else hits p h 0"
  have eq: "find_all finder w p h = Some (fst (bounded_matches (2 ^ w - 1) ?hits))"
    by (simp add: find_all_def find_matches_exact [OF assms(1)])
  have "matches_at p h m" if "m \<in> set (fst (bounded_matches (2 ^ w - 1) ?hits))" for m
    using that bounded_matches_subset [of "2 ^ w - 1" ?hits] by (auto simp: hits_def split: if_splits)
  moreover have "matches_at p h m \<Longrightarrow> m < length h" for m using assms(2) by (cases "pt_tokens p") (auto simp: matches_at_iff)
  ultimately show ?thesis using eq by blast
qed

lemma get_at_in: "get_at xs i = Some x \<Longrightarrow> x \<in> set xs"
  by (auto simp: get_at_def split: if_splits)

lemma select_match_in: "select_match h entry ms accept = Inr off \<Longrightarrow> off \<in> set ms"
proof -
  assume a: "select_match h entry ms accept = Inr off"
  have ok: "ok_or e (get_at xs 0) = Inr off \<Longrightarrow> off \<in> set xs" for xs and e :: resolve_error
    by (cases "get_at xs 0") (auto dest: get_at_in)
  consider "ms = []" | m where "ms = [m]" | m a list where "ms = m # a # list" by (cases ms rule: list.exhaust; cases "tl ms") auto
  then show "off \<in> set ms"
  proof cases
    case (3 m x list)
    let ?accepted = "case accept of None \<Rightarrow> [] | Some f \<Rightarrow> filter (f h (pf_name entry)) ms"
    have "select_match h entry ms accept = ok_or (RAmbiguous (length ms)) (get_at ?accepted 0)"
      unfolding 3 select_match_def Let_def by simp
    then have "off \<in> set ?accepted" using a by (intro ok) simp
    then show ?thesis by (cases accept) simp_all
  qed (use a in \<open>simp_all add: select_match_def\<close>)
qed

lemma find_entry_pushes_bound: "find_entry_pushes h b bits = Inr t \<Longrightarrow> t \<le> b"
  using push_walk_le [of h b bits b] by (auto simp: find_entry_pushes_def Let_def split: if_splits)

lemma follow_target_release:
  assumes "\<forall>m \<in> set ms. m < length h"
  shows "\<exists>r. follow_target False h bits entry ms accept = Some r \<and> (\<forall>t. r = Inr t \<longrightarrow> t < length h)"
proof -
  have sel: "off < length h" if "select_match h entry ms accept = Inr off" for off
    using select_match_in [OF that] assms by blast
  show ?thesis
  proof (cases "pf_follow entry")
    case FollowNone
    then show ?thesis using sel by (simp add: follow_target_def Let_def)
  next
    case FollowRelative
    then show ?thesis by (auto simp: follow_target_def Let_def rbind_eq_Inr split: if_splits)
  next
    case FollowUpward
    show ?thesis
    proof (cases "select_match h entry ms accept")
      case (Inr off)
      then show ?thesis using FollowUpward find_prologue_upwards_release [OF sel [OF Inr]]
        by (cases "pf_prologue entry") (fastforce simp: follow_target_def Let_def map_err_Inr)+
    qed (simp add: follow_target_def Let_def FollowUpward)
  next
    case FollowCall
    have "t < length h" if "resolve_call_target h entry ms = Inr t" for t
      using that by (auto simp: resolve_call_target_def rbind_eq_Inr dest: call_targets_bound elim!: ok_or.elims)
    then show ?thesis using FollowCall by (simp add: follow_target_def Let_def)
  next
    case FollowEntry
    then show ?thesis using sel by (fastforce simp: follow_target_def Let_def rbind_eq_Inr map_err_Inr dest: find_entry_pushes_bound)
  qed
qed

lemma resolve_entry_release:
  assumes "first_occurrence finder"
  shows "\<exists>r. resolve_entry finder w False h bits entry accept = Some r \<and> (\<forall>x. r = Inr x \<longrightarrow> rr_target_offset x < length h)"
proof (cases "pattern_parse (pf_pattern entry)")
  case (Inl e)
  then show ?thesis by (simp add: resolve_entry_def)
next
  case (Inr p)
  obtain ms where ms: "find_all finder w p h = Some ms" "\<forall>m \<in> set ms. m < length h"
    using find_all_bound [OF assms pattern_parse_nonempty [OF Inr], of w h] by blast
  obtain r where r: "follow_target False h bits entry ms accept = Some r" "\<forall>t. r = Inr t \<longrightarrow> t < length h"
    using follow_target_release [OF ms(2)] by blast
  have pic: "c < length h" if "ok_or e (find_pic_entry h t) = Inr c" "t < length h" for c t and e :: resolve_error
    using that find_pic_entry_bound [of h t c] by (cases "find_pic_entry h t") auto
  show ?thesis using Inr ms r pic
    by (cases "ms = []"; cases r) (auto simp: resolve_entry_def opt_bind_def rbind_eq_Inr split: if_splits)
qed


lemma resolve_variants_targets:
  assumes "\<forall>e \<in> set entries. resolve e \<noteq> None"
  shows "\<exists>best xs. resolve_variants resolve i entries acc = Some (best, snd acc @ xs)
     \<and> map rr_target_offset xs = List.map_filter (variant_target_of resolve) entries"
  using assms
proof (induction entries arbitrary: i acc)
  case Nil
  then show ?case by (cases acc) simp
next
  case (Cons e entries)
  then obtain r where r: "resolve e = Some r" by auto
  define acc' where "acc' = (case r of Inr result \<Rightarrow> (fst acc, snd acc @ [result\<lparr>rr_variant_index := i\<rparr>])
        | Inl e \<Rightarrow> (Some (prefer_resolve_error (fst acc) e), snd acc))"
  obtain best xs where IH: "resolve_variants resolve (Suc i) entries acc' = Some (best, snd acc' @ xs)"
    "map rr_target_offset xs = List.map_filter (variant_target_of resolve) entries"
    using Cons.IH [of "Suc i" acc'] Cons.prems by auto
  have eq: "resolve_variants resolve i (e # entries) acc = Some (best, snd acc' @ xs)"
    using IH(1) by (simp add: r opt_bind_def acc'_def)
  show ?case
  proof (cases r)
    case (Inl err)
    then have "variant_target_of resolve e = None" using r by (simp add: variant_target_of_def)
    then show ?thesis using eq IH(2) Inl by (intro exI [of _ best] exI [of _ xs]) (simp add: acc'_def)
  next
    case (Inr y)
    then have "variant_target_of resolve e = Some (rr_target_offset y)" using r by (simp add: variant_target_of_def)
    then show ?thesis using eq IH(2) Inr
      by (intro exI [of _ best] exI [of _ "y\<lparr>rr_variant_index := i\<rparr> # xs"]) (simp add: acc'_def)
  qed
qed

lemma unique_successful_variant_Inr:
  "(\<exists>x. unique_successful_variant rs = Inr (Some x) \<and> rr_target_offset x = t)
     \<longleftrightarrow> rs \<noteq> [] \<and> set (map rr_target_offset rs) = {t}"
  by (cases rs) (auto simp: list_all_iff)

lemma resolve_group_exact:
  assumes "\<forall>e \<in> set entries. resolve_entry finder w chk h bits e accept \<noteq> None"
  shows "\<exists>r. resolve_entry_group_with finder w chk h bits entries accept = Some r
     \<and> (\<forall>t. (\<exists>x. r = Inr x \<and> rr_target_offset x = t)
         \<longleftrightarrow> {t'. \<exists>e \<in> set entries. variant_target_of (\<lambda>e. resolve_entry finder w chk h bits e accept) e = Some t'} = {t})"
proof -
  let ?resolve = "\<lambda>e. resolve_entry finder w chk h bits e accept"
  have settled: "(\<exists>x. rbind m (\<lambda>r. case r of Some result \<Rightarrow> Inr result | None \<Rightarrow> Inl b) = Inr x \<and> rr_target_offset x = t)
      \<longleftrightarrow> (\<exists>x. m = Inr (Some x) \<and> rr_target_offset x = t)" for m and b :: resolve_error and t
    by (cases m rule: sum.exhaust) (auto simp: rbind_def split: option.splits)
  obtain best xs where xs: "resolve_variants ?resolve 0 entries (None, []) = Some (best, xs)"
    "map rr_target_offset xs = List.map_filter (variant_target_of ?resolve) entries"
    using resolve_variants_targets [of entries ?resolve 0 "(None, [])"] assms by auto
  have "set (map rr_target_offset xs) = {t'. \<exists>e \<in> set entries. variant_target_of ?resolve e = Some t'}"
    unfolding xs(2) by (force simp: List.map_filter_def)
  moreover have "(\<exists>x. rbind (unique_successful_variant xs) (\<lambda>r. case r of Some result \<Rightarrow> Inr result | None \<Rightarrow> Inl (unwrap_or RNoMatch best)) = Inr x
        \<and> rr_target_offset x = t) \<longleftrightarrow> set (map rr_target_offset xs) = {t}" for t
    using unique_successful_variant_Inr [of xs t] unfolding settled [of "unique_successful_variant xs"] by auto
  ultimately show ?thesis by (simp add: resolve_entry_group_with_def xs(1) opt_bind_def)
qed

end
