(* ===== verification/Pattern_Properties.thy ===== *)
theory Pattern_Properties
  imports Pattern_Laws "HOL-Library.Code_Target_Nat"
begin

text \<open>
  The properties of the pattern search and of the resolution of pattern groups.
\<close>

section \<open>Examples\<close>

definition sample_code :: bytes where
  "sample_code = [0xAA, 0xBB, 0x90, 0xAA, 0xBB]"

definition sample_variant :: "string \<Rightarrow> pattern_ref" where
  "sample_variant text = \<lparr>pf_name = ''Test'', pf_pattern = text, pf_follow = FollowNone, pf_prologue = None,
     pf_callee_pattern = None, pf_pic_entry = False, pf_steamrt_variant = False, pf_module = ''steamclient''\<rparr>"

section \<open>Properties\<close>

text \<open>C39: The anchored search is exact: for every pattern and every code that fits the address space it returns precisely
  the offsets at which the pattern matches, in ascending order; the bounded search refuses exactly when there are more
  than the bound; and the unique search returns the offset exactly when there is one.  Of memchr it needs that the search
  returns the first position of the anchor.\<close>

theorem find_all_exact:
  assumes "first_occurrence finder" "length h + 2 \<le> 2 ^ w"
    and ms: "ms = filter (matches_at p h) [0..<length h + 1]"
  shows "find_all finder w p h = Some ms
     \<and> find_all_bounded finder p h limit = Some (if length ms \<le> limit then Inr ms else Inl (TooManyMatches limit))
     \<and> find_unique finder p h = Some (case ms of [] \<Rightarrow> Inl NoMatch | [m] \<Rightarrow> Inr m | _ \<Rightarrow> Inl (Ambiguous 2))"
proof -
  let ?n = "length (pt_tokens p)"
  have "ms = (if length h < ?n then [] else hits p h 0)"
  proof (cases "length h < ?n")
    case True
    then show ?thesis by (auto simp: ms filter_empty_conv matches_at_iff)
  next
    case False
    then have "[0..<length h + 1] = [0..<Suc (length h - ?n)] @ [Suc (length h - ?n)..<length h + 1]"
      using upt_add_eq_append [of 0 "Suc (length h - ?n)" ?n] by (simp del: upt_Suc)
    moreover have "filter (matches_at p h) [Suc (length h - ?n)..<length h + 1] = []"
      using False by (auto simp: filter_empty_conv matches_at_iff)
    ultimately show ?thesis using False by (simp add: ms hits_def del: upt_Suc)
  qed
  then have find: "find_matches finder p h k = Some (bounded_matches k ms)" for k
    using find_matches_exact [OF assms(1), of p h k] by simp
  have "length ms \<le> 2 ^ w - 1" using assms(2) length_filter_le [of "matches_at p h" "[0..<length h + 1]"] by (simp add: ms del: upt_Suc)
  then have "find_all finder w p h = Some ms" by (simp add: find_all_def find bounded_matches_def)
  moreover have "find_all_bounded finder p h limit = Some (if length ms \<le> limit then Inr ms else Inl (TooManyMatches limit))"
    by (simp add: find_all_bounded_def find bounded_matches_def)
  moreover have "find_unique finder p h = Some (case ms of [] \<Rightarrow> Inl NoMatch | [m] \<Rightarrow> Inr m | _ \<Rightarrow> Inl (Ambiguous 2))"
    by (auto simp: find_unique_def find bounded_matches_def numeral_2_eq_2 split: list.splits)
  ultimately show ?thesis by blast
qed

theorem find_all_exact_witness:
  "find_all naive_find 32 \<lparr>pt_tokens = [Byte 0xAA, Wildcard]\<rparr> sample_code = Some [0, 3]"
proof -
  have "filter (matches_at \<lparr>pt_tokens = [Byte 0xAA, Wildcard]\<rparr> sample_code) [0..<length sample_code + 1] = [0, 3]" by code_simp
  then show ?thesis using find_all_exact [OF naive_find_first _ refl, of sample_code 32 "\<lparr>pt_tokens = [Byte 0xAA, Wildcard]\<rparr>" 0]
    by (simp add: sample_code_def)
qed

text \<open>C40: Resolving a group never panics in a release build, and it is exact: the group resolves to a target precisely when
  its variants that resolve on their own all resolve to that target and at least one does; the target lies inside the
  scanned code, whatever bytes the code holds.\<close>

theorem resolve_group_sound:
  assumes "first_occurrence finder"
  shows "\<exists>r. resolve_entry_group_with finder w False h bits entries accept = Some r
     \<and> (\<forall>t. (\<exists>x. r = Inr x \<and> rr_target_offset x = t) \<longrightarrow> t < length h)
     \<and> (\<forall>t. (\<exists>x. r = Inr x \<and> rr_target_offset x = t)
         \<longleftrightarrow> {t'. \<exists>e \<in> set entries. \<exists>y. resolve_entry finder w False h bits e accept = Some (Inr y) \<and> rr_target_offset y = t'} = {t})"
proof -
  let ?resolve = "\<lambda>e. resolve_entry finder w False h bits e accept"
  have "?resolve e \<noteq> None" for e using resolve_entry_release [OF assms, of w h bits e accept] by auto
  then obtain r where r: "resolve_entry_group_with finder w False h bits entries accept = Some r"
    and iff: "\<And>t. (\<exists>x. r = Inr x \<and> rr_target_offset x = t) \<longleftrightarrow> {t'. \<exists>e \<in> set entries. variant_target_of ?resolve e = Some t'} = {t}"
    using resolve_group_exact [of entries finder w False h bits accept] by auto
  have of: "variant_target_of ?resolve e = Some t \<longleftrightarrow> (\<exists>y. ?resolve e = Some (Inr y) \<and> rr_target_offset y = t)" for e t
    by (auto simp: variant_target_of_def split: option.splits sum.splits)
  have "t < length h" if "\<exists>y. ?resolve e = Some (Inr y) \<and> rr_target_offset y = t" for e t
    using that resolve_entry_release [OF assms, of w h bits e accept] by auto
  then have "t < length h" if "\<exists>x. r = Inr x \<and> rr_target_offset x = t" for t
    using that unfolding iff of by blast
  then show ?thesis using r iff unfolding of by blast
qed

theorem resolve_group_sound_witness:
  "\<exists>x. resolve_entry_group_with naive_find 32 False sample_code 64 [sample_variant ''90 AA''] None = Some (Inr x) \<and> rr_target_offset x = 2"
proof -
  have "resolve_entry naive_find 32 False sample_code 64 (sample_variant ''90 AA'') None
      = Some (Inr \<lparr>rr_target_offset = 2, rr_match_count = 1, rr_variant_index = 0\<rparr>)" by code_simp
  then have targets: "{t'. \<exists>e \<in> set [sample_variant ''90 AA'']. \<exists>y. resolve_entry naive_find 32 False sample_code 64 e None = Some (Inr y)
      \<and> rr_target_offset y = t'} = {2}" (is "?S = _") by simp
  obtain r where r: "resolve_entry_group_with naive_find 32 False sample_code 64 [sample_variant ''90 AA''] None = Some r"
    and iff: "\<forall>t. (\<exists>x. r = Inr x \<and> rr_target_offset x = t) \<longleftrightarrow> ?S = {t}"
    using resolve_group_sound [OF naive_find_first, of 32 sample_code 64 "[sample_variant ''90 AA'']" None] by (elim exE conjE) (rule that)
  show ?thesis unfolding r using iff [rule_format, of 2] targets by simp
qed

end
