(* ===== verification/Rust_Net.thy ===== *)
theory Rust_Net
  imports Rust_Text
begin

text \<open>The part of \<open>std::net\<close> that the Syncthing client uses: \<open>str::parse::<IpAddr>\<close>, as the parser of the
  standard library reads it (four decimal octets without leading zeros, or eight hexadecimal groups with at most one
  \<open>::\<close> and an optional trailing IPv4 part), and \<open>IpAddr::is_loopback\<close>.\<close>

datatype ip_addr = V4 "nat list" | V6 "nat list"

definition decimal_digit_value :: "char \<Rightarrow> nat option" where
  "decimal_digit_value c = (if is_ascii_digit c then Some (of_char c - 48) else None)"

text \<open>\<open>Parser::read_number\<close> with a digit limit.  Like all readers here it returns the rest of the text.\<close>

definition read_number ::
  "nat \<Rightarrow> (char \<Rightarrow> nat option) \<Rightarrow> nat \<Rightarrow> bool \<Rightarrow> nat \<Rightarrow> string \<Rightarrow> (nat \<times> string) option" where
  "read_number radix digit max_digits allow_zero_prefix bound s =
     (let ds = takeWhile (\<lambda>c. digit c \<noteq> None) s; n = foldl (\<lambda>n c. radix * n + unwrap_or 0 (digit c)) 0 ds in
      if ds = [] \<or> max_digits < length ds \<or> \<not> allow_zero_prefix \<and> hd ds = CHR ''0'' \<and> 1 < length ds \<or> bound < n then None
      else Some (n, drop (length ds) s))"

definition read_given_char :: "char \<Rightarrow> string \<Rightarrow> string option" where
  "read_given_char c s = (case s of x # r \<Rightarrow> if x = c then Some r else None | [] \<Rightarrow> None)"

definition read_separator :: "char \<Rightarrow> nat \<Rightarrow> (string \<Rightarrow> 'a option) \<Rightarrow> string \<Rightarrow> 'a option" where
  "read_separator sep index inner s = (if 0 < index then opt_bind (read_given_char sep s) inner else inner s)"

fun read_octets :: "nat \<Rightarrow> nat \<Rightarrow> string \<Rightarrow> (nat list \<times> string) option" where
  "read_octets 0 i s = Some ([], s)"
| "read_octets (Suc k) i s =
     opt_bind (read_separator CHR ''.'' i (read_number 10 decimal_digit_value 3 False 255) s) (\<lambda>(n, s').
     opt_bind (read_octets k (Suc i) s') (\<lambda>(ns, s''). Some (n # ns, s'')))"

definition read_ipv4_addr :: "string \<Rightarrow> (nat list \<times> string) option" where
  "read_ipv4_addr = read_octets 4 0"

text \<open>\<open>read_groups\<close>: the groups read, whether they end with an IPv4 part, and the rest.\<close>

fun read_groups :: "nat \<Rightarrow> nat \<Rightarrow> string \<Rightarrow> nat list \<times> bool \<times> string" where
  "read_groups 0 i s = ([], False, s)"
| "read_groups (Suc k) i s =
     (case (if 0 < k then read_separator CHR '':'' i read_ipv4_addr s else None) of
        Some (octets, s') \<Rightarrow>
          ([256 * octets ! 0 + octets ! 1, 256 * octets ! 2 + octets ! 3], True, s')
      | None \<Rightarrow>
         (case read_separator CHR '':'' i (read_number 16 hex_digit_value 4 True 65535) s of
            Some (g, s') \<Rightarrow> (case read_groups k (Suc i) s' of (gs, v4, s'') \<Rightarrow> (g # gs, v4, s''))
          | None \<Rightarrow> ([], False, s)))"

definition read_ipv6_addr :: "string \<Rightarrow> (nat list \<times> string) option" where
  "read_ipv6_addr s =
     (case read_groups 8 0 s of (head, head_ipv4, s1) \<Rightarrow>
        if length head = 8 then Some (head, s1)
        else if head_ipv4 then None
        else opt_bind (read_given_char CHR '':'' s1) (\<lambda>s2. opt_bind (read_given_char CHR '':'' s2) (\<lambda>s3.
          case read_groups (8 - (length head + 1)) 0 s3 of (tail, _, s4) \<Rightarrow>
            Some (head @ replicate (8 - length head - length tail) 0 @ tail, s4))))"

definition parse_ip_addr :: "string \<Rightarrow> ip_addr option" where
  "parse_ip_addr s =
     (let read = (case read_ipv4_addr s of
                    Some (octets, r) \<Rightarrow> Some (V4 octets, r)
                  | None \<Rightarrow> map_option (\<lambda>(groups, r). (V6 groups, r)) (read_ipv6_addr s)) in
      opt_bind read (\<lambda>(address, r). if r = [] then Some address else None))"

fun is_loopback :: "ip_addr \<Rightarrow> bool" where
  "is_loopback (V4 octets) \<longleftrightarrow> octets \<noteq> [] \<and> hd octets = 127"
| "is_loopback (V6 groups) \<longleftrightarrow> groups = [0, 0, 0, 0, 0, 0, 0, 1]"

end
