(* ===== verification/Syncthing.thy ===== *)
theory Syncthing
  imports Local_Fs_Laws Rust_Net "HOL-Library.Multiset"
begin

text \<open>The Syncthing guard of the local cloud (\<open>src/crates/cloud-local/src/syncthing.rs\<close>): the checks that must
  pass before garbage collection deletes a manifest from a folder that Syncthing shares, and before a play session
  trusts it.  Syncthing itself, the HTTP client \<open>ureq\<close> and the JSON decoder are the fields of
  \<open>syncthing_service\<close>; the service has a state of its own, so that two equal requests may get different answers.\<close>

section \<open>Requests and answers\<close>

record syncthing_gc_config =
  sg_url :: string
  sg_api_key :: string
  sg_folder_id :: string
  sg_timeout_ms :: u64

record syncthing_boundary =
  sb_sequence :: u64
  sb_relative_app :: string
  sb_deleted_files :: "string list"

record syncthing_event_batch =
  eb_last_id :: "u64 option"
  eb_wakes_gc :: bool

record folder_status =
  ft_need_bytes :: u64
  ft_need_deletes :: u64
  ft_need_directories :: u64
  ft_need_files :: u64
  ft_need_symlinks :: u64
  ft_need_total_items :: u64
  ft_pull_errors :: u64
  ft_sequence :: u64
  ft_state :: string

record versioning_config =
  vc_kind :: string

record folder_config =
  fc_id :: string
  fc_path :: string
  fc_paused :: bool
  fc_folder_type :: string
  fc_ignore_delete :: bool
  fc_versioning :: versioning_config

record ignore_patterns =
  ip_ignore :: "string list"
  ip_expanded :: "string list"

record config_sync =
  cs_config_in_sync :: bool

record local_file_record =
  lf_deleted :: bool
  lf_invalid :: bool
  lf_ignored :: bool
  lf_size :: u64

record file_record =
  fr_local :: "local_file_record option"

record syncthing_event_data =
  ed_folder :: "string option"
  ed_to :: "string option"

record syncthing_event =
  ev_id :: u64
  ev_kind :: string
  ev_data :: syncthing_event_data

record http_request =
  hq_method :: string
  hq_timeout_ms :: nat
  hq_url :: string
  hq_api_key :: string
  hq_query :: "(string \<times> string) list"

text \<open>An answer: a transport error, or a status with a body that is read up to a limit.\<close>

datatype http_reply = HttpError string | HttpReply nat "u64 \<Rightarrow> string + string"

record uri =
  uri_scheme :: "string option"
  uri_authority :: "string option"
  uri_query :: "string option"
  uri_host :: "string option"

record 'h syncthing_service =
  ss_http :: "http_request \<Rightarrow> 'h \<Rightarrow> http_reply \<times> 'h"
  ss_uri :: "string \<Rightarrow> uri option"
  ss_config_sync :: "string \<Rightarrow> string + config_sync"
  ss_folders :: "string \<Rightarrow> string + folder_config list"
  ss_ignores :: "string \<Rightarrow> string + ignore_patterns"
  ss_status :: "string \<Rightarrow> string + folder_status"
  ss_file :: "string \<Rightarrow> string + file_record"
  ss_events :: "string \<Rightarrow> string + syncthing_event list"
  ss_cwd :: path

type_synonym ('h, 'a) http_io = "('h, 'a) state_result"

definition retryable :: "string \<Rightarrow> backend_error" where
  "retryable message = backend_error_new message True"

definition MAX_SYNCTHING_RESPONSE_BYTES :: u64 where
  "MAX_SYNCTHING_RESPONSE_BYTES = 4 * 1024 * 1024"

definition EVENT_LONG_POLL_SECONDS :: nat where
  "EVENT_LONG_POLL_SECONDS = 60"

definition EVENT_TRANSPORT_MARGIN :: nat where
  "EVENT_TRANSPORT_MARGIN = 5"

definition GC_EVENT_TYPES :: string where
  "GC_EVENT_TYPES = ''StateChanged,LocalIndexUpdated,ConfigSaved''"

section \<open>Predicates on the answers\<close>

definition folder_ready :: "folder_status \<Rightarrow> bool" where
  "folder_ready s \<longleftrightarrow> ft_state s = ''idle'' \<and> ft_need_bytes s = 0 \<and> ft_need_deletes s = 0
     \<and> ft_need_directories s = 0 \<and> ft_need_files s = 0 \<and> ft_need_symlinks s = 0
     \<and> ft_need_total_items s = 0 \<and> ft_pull_errors s = 0"

definition has_effective_rules :: "ignore_patterns \<Rightarrow> bool" where
  "has_effective_rules p \<longleftrightarrow>
     list_ex (\<lambda>rule. let rule = trim rule in rule \<noteq> [] \<and> \<not> starts_with rule ''//'') (ip_ignore p @ ip_expanded p)"

definition event_wakes_gc :: "syncthing_event \<Rightarrow> string \<Rightarrow> bool" where
  "event_wakes_gc e folder_id \<longleftrightarrow>
     (if ev_kind e = ''ConfigSaved'' then True
      else if ev_kind e = ''LocalIndexUpdated'' then ed_folder (ev_data e) = Some folder_id
      else if ev_kind e = ''StateChanged'' then
        ed_folder (ev_data e) = Some folder_id \<and> ed_to (ev_data e) = Some ''idle''
      else False)"

definition path_to_syncthing :: "path \<Rightarrow> backend_error + string" where
  "path_to_syncthing p =
     rfold (\<lambda>component result.
       rbind (ensure (utf8_valid (as_bytes component)) (permanent ''local cloud path is not UTF-8'')) (\<lambda>_.
       Inr (result @ (if result \<noteq> [] then ''/'' else []) @ component))) p []"

definition is_loopback_host :: "string \<Rightarrow> bool" where
  "is_loopback_host host \<longleftrightarrow>
     (if eq_ignore_ascii_case host ''localhost'' then True else is_some_and (parse_ip_addr host) is_loopback)"

section \<open>Requests\<close>

definition endpoint :: "'h syncthing_service \<Rightarrow> syncthing_gc_config \<Rightarrow> backend_error + string" where
  "endpoint sv cfg =
     (let endpoint = trim_end_matches CHR ''/'' (trim (sg_url cfg)) in
      if endpoint = [] \<or> trim (sg_api_key cfg) = [] \<or> trim (sg_folder_id cfg) = []
      then Inl (permanent ''incomplete Syncthing configuration'')
      else rbind (ok_or (permanent ''invalid Syncthing URL'') (ss_uri sv endpoint)) (\<lambda>uri.
        if \<not> (uri_scheme uri = Some ''http'' \<or> uri_scheme uri = Some ''https'')
           \<or> uri_authority uri = None \<or> uri_query uri \<noteq> None
        then Inl (permanent ''invalid Syncthing URL'')
        else rbind (ok_or (permanent ''invalid Syncthing URL'') (uri_host uri)) (\<lambda>host.
          if uri_scheme uri = Some ''http'' \<and> \<not> is_loopback_host host
          then Inl (permanent ''remote Syncthing URL must use HTTPS'')
          else Inr endpoint)))"

definition validate_for_gc :: "'h syncthing_service \<Rightarrow> syncthing_gc_config \<Rightarrow> backend_error + unit" where
  "validate_for_gc sv cfg = rbind (endpoint sv cfg) (\<lambda>_. Inr ())"

text \<open>The two clients differ in their overall timeout only.\<close>

definition agent :: "syncthing_gc_config \<Rightarrow> nat" where
  "agent cfg = max (unat (sg_timeout_ms cfg)) 1"

definition event_agent :: "syncthing_gc_config \<Rightarrow> nat" where
  "event_agent cfg = max (max (unat (sg_timeout_ms cfg)) 1) (1000 * (EVENT_LONG_POLL_SECONDS + EVENT_TRANSPORT_MARGIN))"

definition is_success :: "nat \<Rightarrow> bool" where
  "is_success status \<longleftrightarrow> 200 \<le> status \<and> status < 300"

definition read_json_response :: "(string \<Rightarrow> string + 'a) \<Rightarrow> http_reply \<Rightarrow> bool \<Rightarrow> backend_error + 'a" where
  "read_json_response from_str response client_errors_retryable =
     (case response of
        HttpError error \<Rightarrow> Inl (retryable (''Syncthing request failed: '' @ error))
      | HttpReply status body \<Rightarrow>
          if \<not> is_success status
          then Inl (backend_error_new (''Syncthing request returned HTTP '' @ nat_to_string status)
                     (client_errors_retryable \<or> status = 408 \<or> status = 429 \<or> 500 \<le> status))
          else rbind (map_err (\<lambda>error. retryable (''invalid Syncthing response: '' @ error))
                        (body MAX_SYNCTHING_RESPONSE_BYTES)) (\<lambda>text.
               map_err (\<lambda>error. retryable (''invalid Syncthing response: '' @ error)) (from_str text)))"

definition get_json ::
  "'h syncthing_service \<Rightarrow> (string \<Rightarrow> string + 'a) \<Rightarrow> syncthing_gc_config \<Rightarrow> string \<Rightarrow> (string \<times> string) list
     \<Rightarrow> ('h, 'a) http_io" where
  "get_json sv from_str cfg url query h =
     (case ss_http sv \<lparr>hq_method = ''GET'', hq_timeout_ms = agent cfg, hq_url = url,
                       hq_api_key = trim (sg_api_key cfg), hq_query = query\<rparr> h of
        (response, h') \<Rightarrow> (read_json_response from_str response True, h'))"

definition scan :: "'h syncthing_service \<Rightarrow> syncthing_gc_config \<Rightarrow> string \<Rightarrow> string option \<Rightarrow> ('h, unit) http_io" where
  "scan sv cfg ep relative h =
     (case ss_http sv \<lparr>hq_method = ''POST'', hq_timeout_ms = agent cfg, hq_url = ep @ ''/rest/db/scan'',
                       hq_api_key = trim (sg_api_key cfg),
                       hq_query = (''folder'', trim (sg_folder_id cfg))
                         # (case relative of Some sub \<Rightarrow> [(''sub'', sub)] | None \<Rightarrow> [])\<rparr> h of
        (HttpError error, h') \<Rightarrow> (Inl (retryable (''Syncthing request failed: '' @ error)), h')
      | (HttpReply status body, h') \<Rightarrow>
          (if \<not> is_success status
           then Inl (retryable (''Syncthing request returned HTTP '' @ nat_to_string status)) else Inr (), h'))"

definition get_folder_status :: "'h syncthing_service \<Rightarrow> syncthing_gc_config \<Rightarrow> string \<Rightarrow> ('h, folder_status) http_io" where
  "get_folder_status sv cfg ep =
     get_json sv (ss_status sv) cfg (ep @ ''/rest/db/status'') [(''folder'', trim (sg_folder_id cfg))]"

text \<open>The request for the index record of a file, as three functions of the source write it.\<close>

definition get_file_record ::
  "'h syncthing_service \<Rightarrow> syncthing_gc_config \<Rightarrow> string \<Rightarrow> string \<Rightarrow> ('h, file_record) http_io" where
  "get_file_record sv cfg ep relative =
     get_json sv (ss_file sv) cfg (ep @ ''/rest/db/file'')
       [(''folder'', trim (sg_folder_id cfg)), (''file'', relative)]"

section \<open>The folder\<close>

text \<open>\<open>canonicalize\<close> of a path given as text, on a tree without symbolic links.\<close>

fun canonical_walk :: "node \<Rightarrow> path \<Rightarrow> string list \<Rightarrow> path option" where
  "canonical_walk fs p [] = (if fs_exists fs p then Some p else None)"
| "canonical_walk fs p (c # cs) =
     (if \<not> fs_is_dir fs p then None
      else if c = [] \<or> c = ''.'' then canonical_walk fs p cs
      else if c = ''..'' then canonical_walk fs (butlast p) cs
      else canonical_walk fs (p @ [c]) cs)"

definition canonicalize :: "path \<Rightarrow> string \<Rightarrow> node \<Rightarrow> path option" where
  "canonicalize cwd s fs =
     (if s = [] then None
      else canonical_walk fs (if starts_with s ''/'' then [] else cwd) (split_on CHR ''/'' s))"

definition validate_folder ::
  "'h syncthing_service \<Rightarrow> syncthing_gc_config \<Rightarrow> string \<Rightarrow> path \<Rightarrow> node \<Rightarrow> ('h, unit) http_io" where
  "validate_folder sv cfg ep repository fs =
     io_bind (get_json sv (ss_config_sync sv) cfg (ep @ ''/rest/system/config/insync'') []) (\<lambda>sync.
     if \<not> cs_config_in_sync sync then io_fail (retryable ''Syncthing configuration is not active'')
     else io_bind (get_json sv (ss_folders sv) cfg (ep @ ''/rest/config/folders'') []) (\<lambda>folders.
     io_bind (io_lift (ok_or (permanent ''Syncthing folder is not configured'')
                (List.find (\<lambda>f. fc_id f = trim (sg_folder_id cfg)) folders))) (\<lambda>folder.
     if fc_paused folder then io_fail (retryable ''Syncthing folder is paused'')
     else if fc_folder_type folder \<noteq> ''sendreceive''
     then io_fail (permanent ''Syncthing folder must use send-receive mode'')
     else if fc_ignore_delete folder then io_fail (permanent ''Syncthing folder must propagate deletions'')
     else if trim (vc_kind (fc_versioning folder)) \<noteq> []
     then io_fail (permanent ''Syncthing file versioning must be disabled for local cloud'')
     else io_bind (io_lift (ok_or (permanent ''Syncthing folder path is unavailable'')
                     (canonicalize (ss_cwd sv) (fc_path folder) fs))) (\<lambda>folder_root.
     io_bind (io_lift (ok_or (permanent ''local cloud path is unavailable'')
                (if fs_exists fs repository then Some repository else None))) (\<lambda>repository.
     if folder_root \<noteq> repository
     then io_fail (permanent ''Syncthing folder path must equal the local cloud repository'')
     else io_bind (get_json sv (ss_ignores sv) cfg (ep @ ''/rest/db/ignores'')
                     [(''folder'', trim (sg_folder_id cfg))]) (\<lambda>ignores.
     if has_effective_rules ignores
     then io_fail (permanent ''Syncthing folder must not ignore local cloud paths'')
     else io_ret ()))))))"

section \<open>Indexed trees\<close>

definition strip_repository :: "path \<Rightarrow> path \<Rightarrow> backend_error + path" where
  "strip_repository repository p =
     (if take (length repository) p = repository then Inr (drop (length repository) p)
      else Inl (permanent ''local cloud manifest escaped the repository''))"

text \<open>The entries of one directory: every regular file must be in the index with its size.\<close>

fun verify_entries ::
  "'h syncthing_service \<Rightarrow> syncthing_gc_config \<Rightarrow> string \<Rightarrow> path \<Rightarrow> path \<Rightarrow> entries \<Rightarrow> string list \<Rightarrow> ('h, string list) http_io" where
  "verify_entries sv cfg ep repository dir [] indexed_files = io_ret indexed_files"
| "verify_entries sv cfg ep repository dir ((name, Dir sub) # es) indexed_files =
     verify_entries sv cfg ep repository dir es indexed_files"
| "verify_entries sv cfg ep repository dir ((name, Special) # es) indexed_files =
     io_fail (permanent ''local cloud manifest contains an unsupported entry'')"
| "verify_entries sv cfg ep repository dir ((name, File contents) # es) indexed_files =
     io_bind (io_lift (rbind (strip_repository repository (dir @ [name])) path_to_syncthing)) (\<lambda>relative.
     io_bind (get_file_record sv cfg ep relative) (\<lambda>indexed.
     io_bind (io_lift (ok_or (retryable ''Syncthing local index is incomplete'') (fr_local indexed))) (\<lambda>l.
     if lf_deleted l \<or> lf_invalid l \<or> lf_ignored l \<or> lf_size l \<noteq> word_of_nat (length contents)
     then io_fail (retryable ''Syncthing local index is incomplete'')
     else verify_entries sv cfg ep repository dir es (indexed_files @ [relative]))))"

text \<open>The loop over the stack of directories, whose top is the head of the list.  The directories of an
  entry list are pushed in its order.\<close>

definition subdirectories :: "path \<Rightarrow> entries \<Rightarrow> path list" where
  "subdirectories dir es = [dir @ [name]. (name, n) \<leftarrow> es, is_dir n]"

function verify_loop ::
  "'h syncthing_service \<Rightarrow> syncthing_gc_config \<Rightarrow> string \<Rightarrow> path \<Rightarrow> node \<Rightarrow> path list \<Rightarrow> string list \<Rightarrow> ('h, string list) http_io" where
  "verify_loop sv cfg ep repository fs [] indexed_files = io_ret indexed_files"
| "verify_loop sv cfg ep repository fs (dir # pending) indexed_files =
     (case fs_read_dir fs dir of
        Inl k \<Rightarrow> io_fail (io_error k)
      | Inr es \<Rightarrow>
          io_bind (verify_entries sv cfg ep repository dir es indexed_files)
            (\<lambda>files. verify_loop sv cfg ep repository fs (rev (subdirectories dir es) @ pending) files))"
  by pat_completeness auto

text \<open>A directory is replaced on the stack by directories of smaller trees.\<close>

definition stack_sizes :: "node \<Rightarrow> path list \<Rightarrow> nat multiset" where
  "stack_sizes fs pending = image_mset (\<lambda>p. case lookup fs p of Some n \<Rightarrow> size n | None \<Rightarrow> 0) (mset pending)"

lemma size_entry: "map_of es name = Some n \<Longrightarrow> size n < size (Dir es)"
  by (induction es) (auto split: if_splits)

lemma stack_sizes_decrease:
  assumes "fs_read_dir fs dir = Inr es"
  shows "(stack_sizes fs (rev (subdirectories dir es) @ pending), stack_sizes fs (dir # pending)) \<in> mult less_than"
proof -
  let ?f = "\<lambda>p. case lookup fs p of Some n \<Rightarrow> size n | None \<Rightarrow> 0"
  have d: "lookup fs dir = Some (Dir es)"
    using assms by (auto simp: fs_read_dir_def split: option.splits node.splits)
  have "?f p < size (Dir es)" if "p \<in> set (subdirectories dir es)" for p
    using that d size_entry [of es] by (fastforce simp: subdirectories_def lookup_snoc split: option.splits)
  then have "(stack_sizes fs pending + image_mset ?f (mset (rev (subdirectories dir es))),
      stack_sizes fs pending + {#size (Dir es)#}) \<in> mult less_than"
    by (intro one_step_implies_mult) auto
  then show ?thesis using d by (simp add: stack_sizes_def add.commute)
qed

termination verify_loop
  by (relation "inv_image (mult less_than) (\<lambda>(sv, cfg, ep, repository, fs, pending, files). stack_sizes fs pending)")
    (auto intro: stack_sizes_decrease wf_mult)

definition verify_indexed_tree ::
  "'h syncthing_service \<Rightarrow> syncthing_gc_config \<Rightarrow> string \<Rightarrow> path \<Rightarrow> path \<Rightarrow> node \<Rightarrow> ('h, string list) http_io" where
  "verify_indexed_tree sv cfg ep repository directory fs =
     (if \<not> fs_is_dir fs directory then io_fail (retryable ''local cloud manifest is unavailable'')
      else io_bind (io_lift (rbind (strip_repository repository directory) path_to_syncthing)) (\<lambda>relative_directory.
      io_bind (get_file_record sv cfg ep relative_directory) (\<lambda>indexed.
      io_bind (io_lift (ok_or (retryable ''Syncthing local index is incomplete'') (fr_local indexed))) (\<lambda>l.
      if lf_deleted l \<or> lf_invalid l \<or> lf_ignored l
      then io_fail (retryable ''Syncthing local index is incomplete'')
      else verify_loop sv cfg ep repository fs [directory] [relative_directory]))))"

section \<open>The guard\<close>

definition path_join :: "path \<Rightarrow> string \<Rightarrow> path" where
  "path_join p s =
     (if starts_with s ''/'' then [] else p) @ filter (\<lambda>c. c \<noteq> [] \<and> c \<noteq> ''.'') (split_on CHR ''/'' s)"

definition ensure_ready_for_app ::
  "'h syncthing_service \<Rightarrow> syncthing_gc_config \<Rightarrow> path \<Rightarrow> string \<Rightarrow> node \<Rightarrow> ('h, unit) http_io" where
  "ensure_ready_for_app sv cfg repository relative_app fs =
     io_bind (io_lift (endpoint sv cfg)) (\<lambda>ep.
     io_bind (validate_folder sv cfg ep repository fs) (\<lambda>_.
     let relative = (if fs_exists fs (path_join repository relative_app) then Some relative_app else None) in
     io_bind (scan sv cfg ep relative) (\<lambda>_.
     io_bind (get_folder_status sv cfg ep) (\<lambda>before.
     if \<not> folder_ready before then io_fail (retryable ''Syncthing folder is not locally settled'')
     else io_bind (get_folder_status sv cfg ep) (\<lambda>after.
     if \<not> folder_ready after \<or> ft_sequence after \<noteq> ft_sequence before
     then io_fail (retryable ''Syncthing folder changed during readiness check'')
     else io_ret ())))))"

fun verify_manifests ::
  "'h syncthing_service \<Rightarrow> syncthing_gc_config \<Rightarrow> string \<Rightarrow> path \<Rightarrow> string \<Rightarrow> node \<Rightarrow> string list \<Rightarrow> string list
     \<Rightarrow> ('h, string list) http_io" where
  "verify_manifests sv cfg ep repository scope fs [] files = io_ret files"
| "verify_manifests sv cfg ep repository scope fs (i # is) files =
     io_bind (verify_indexed_tree sv cfg ep repository (path_join (path_join repository scope) i) fs) (\<lambda>found.
     verify_manifests sv cfg ep repository scope fs is (files @ found))"

definition prepare_for_gc ::
  "'h syncthing_service \<Rightarrow> syncthing_gc_config \<Rightarrow> path \<Rightarrow> gc_report \<Rightarrow> node \<Rightarrow> ('h, syncthing_boundary) http_io" where
  "prepare_for_gc sv cfg repository report fs =
     io_bind (io_lift (endpoint sv cfg)) (\<lambda>ep.
     io_bind (validate_folder sv cfg ep repository fs) (\<lambda>_.
     io_bind (scan sv cfg ep (Some (gr_manifest_scope report))) (\<lambda>_.
     io_bind (get_folder_status sv cfg ep) (\<lambda>status.
     if \<not> folder_ready status then io_fail (retryable ''Syncthing folder is not locally settled'')
     else io_bind (verify_manifests sv cfg ep repository (gr_manifest_scope report) fs
                     (gr_retained_manifests report) []) (\<lambda>_.
     io_bind (verify_manifests sv cfg ep repository (gr_manifest_scope report) fs
                (gr_candidate_manifests report) []) (\<lambda>deleted_files.
     io_ret \<lparr>sb_sequence = ft_sequence status, sb_relative_app = gr_manifest_scope report,
             sb_deleted_files = remdups_adj (sort deleted_files)\<rparr>))))))"

definition publish_gc ::
  "'h syncthing_service \<Rightarrow> syncthing_gc_config \<Rightarrow> syncthing_boundary \<Rightarrow> ('h, unit) http_io" where
  "publish_gc sv cfg boundary =
     io_bind (io_lift (endpoint sv cfg)) (\<lambda>ep.
     io_bind (scan sv cfg ep (Some (sb_relative_app boundary))) (\<lambda>_.
     io_bind (get_folder_status sv cfg ep) (\<lambda>status.
     if \<not> folder_ready status \<or> ft_sequence status \<le> sb_sequence boundary
     then io_fail (retryable ''Syncthing did not index the local cloud deletion'')
     else io_for (sb_deleted_files boundary) (\<lambda>relative.
       io_bind (get_file_record sv cfg ep relative) (\<lambda>indexed.
       if \<not> is_some_and (fr_local indexed) lf_deleted
       then io_fail (retryable ''Syncthing did not index the local cloud deletion'')
       else io_ret ())))))"

definition wait_for_gc_events ::
  "'h syncthing_service \<Rightarrow> syncthing_gc_config \<Rightarrow> u64 option \<Rightarrow> ('h, syncthing_event_batch) http_io" where
  "wait_for_gc_events sv cfg since =
     io_bind (io_lift (endpoint sv cfg)) (\<lambda>ep.
     io_bind (\<lambda>h. case ss_http sv
         \<lparr>hq_method = ''GET'', hq_timeout_ms = event_agent cfg, hq_url = ep @ ''/rest/events'',
          hq_api_key = trim (sg_api_key cfg),
          hq_query = [(''events'', GC_EVENT_TYPES), (''since'', nat_to_string (unat (unwrap_or 0 since))),
                      (''timeout'', nat_to_string EVENT_LONG_POLL_SECONDS)]
                     @ (if since = None then [(''limit'', ''1'')] else [])\<rparr> h of
         (response, h') \<Rightarrow> (read_json_response (ss_events sv) response False, h')) (\<lambda>events.
     if is_some_and since (\<lambda>since. list_ex (\<lambda>e. ev_id e \<le> since) events)
     then io_fail (retryable ''Syncthing event cursor did not advance'')
     else io_ret \<lparr>eb_last_id = (if events = [] then since else Some (Max (ev_id ` set events))),
                  eb_wakes_gc = list_ex (\<lambda>e. event_wakes_gc e (trim (sg_folder_id cfg))) events\<rparr>))"

end
