(* ===== verification/Syncthing_Laws.thy ===== *)
theory Syncthing_Laws
  imports Syncthing
begin

text \<open>What the Syncthing guard guarantees.  The walk over a manifest directory is compared with the set of the
  paths below it, against an index that does not change during the walk; and every request of the client is shown
  to go to an address that the configuration check accepted, by logging the requests of an arbitrary service.\<close>

named_theorems sends_intros

section \<open>Reference definitions\<close>

text \<open>An index that answers every request for a file.\<close>

definition index_answers :: "'h syncthing_service \<Rightarrow> syncthing_gc_config \<Rightarrow> string \<Rightarrow> (string \<Rightarrow> file_record) \<Rightarrow> bool" where
  "index_answers sv cfg ep idx \<longleftrightarrow> (\<forall>relative h. fst (get_file_record sv cfg ep relative h) = Inr (idx relative))"

text \<open>The name under which Syncthing indexes a path of the repository.\<close>

definition index_name :: "path \<Rightarrow> path \<Rightarrow> backend_error + string" where
  "index_name repository p = rbind (strip_repository repository p) path_to_syncthing"

definition indexed_with :: "(string \<Rightarrow> file_record) \<Rightarrow> path \<Rightarrow> path \<Rightarrow> (u64 \<Rightarrow> bool) \<Rightarrow> bool" where
  "indexed_with idx repository p size_ok \<longleftrightarrow> (\<exists>s l. index_name repository p = Inr s \<and> fr_local (idx s) = Some l
     \<and> \<not> lf_deleted l \<and> \<not> lf_invalid l \<and> \<not> lf_ignored l \<and> size_ok (lf_size l))"

fun node_indexed :: "(string \<Rightarrow> file_record) \<Rightarrow> path \<Rightarrow> path \<Rightarrow> node \<Rightarrow> bool" where
  "node_indexed idx repository p (Dir es) \<longleftrightarrow> True"
| "node_indexed idx repository p Special \<longleftrightarrow> False"
| "node_indexed idx repository p (File c) \<longleftrightarrow> indexed_with idx repository p (\<lambda>n. n = word_of_nat (length c))"

definition tree_indexed :: "(string \<Rightarrow> file_record) \<Rightarrow> path \<Rightarrow> node \<Rightarrow> path \<Rightarrow> bool" where
  "tree_indexed idx repository fs p \<longleftrightarrow>
     (\<forall>q n. lookup fs (p @ q) = Some n \<longrightarrow> node_indexed idx repository (p @ q) n)"

definition file_names :: "path \<Rightarrow> node \<Rightarrow> path \<Rightarrow> string set" where
  "file_names repository fs p = {s. \<exists>q c. lookup fs (p @ q) = Some (File c) \<and> index_name repository (p @ q) = Inr s}"

text \<open>The names of the regular files among the entries of a directory.\<close>

definition entry_names :: "path \<Rightarrow> path \<Rightarrow> entries \<Rightarrow> string set" where
  "entry_names repository dir es = {s. \<exists>name c. (name, File c) \<in> set es \<and> index_name repository (dir @ [name]) = Inr s}"

text \<open>Directories with distinct names, as file systems have them.\<close>

definition proper_tree :: "node \<Rightarrow> bool" where
  "proper_tree fs \<longleftrightarrow> (\<forall>p es. lookup fs p = Some (Dir es) \<longrightarrow> distinct (map fst es))"

text \<open>The same service with a log of the requests, newest first, and the requests that satisfy the promise of the
  configuration check: they ask for a path below \<open>/rest/\<close> of the checked address, and this address uses TLS or names the loopback interface.\<close>

definition logging :: "'h syncthing_service \<Rightarrow> (http_request list \<times> 'h) syncthing_service" where
  "logging sv = \<lparr>ss_http = (\<lambda>rq (log, h). case ss_http sv rq h of (reply, h') \<Rightarrow> (reply, (rq # log, h'))),
     ss_uri = ss_uri sv, ss_config_sync = ss_config_sync sv, ss_folders = ss_folders sv, ss_ignores = ss_ignores sv,
     ss_status = ss_status sv, ss_file = ss_file sv, ss_events = ss_events sv, ss_cwd = ss_cwd sv\<rparr>"

definition requests_of :: "(http_request list \<times> 'h, 'a) http_io \<Rightarrow> 'h \<Rightarrow> http_request list" where
  "requests_of m h = fst (snd (m ([], h)))"

definition secure_request :: "'h syncthing_service \<Rightarrow> syncthing_gc_config \<Rightarrow> http_request \<Rightarrow> bool" where
  "secure_request sv cfg rq \<longleftrightarrow> (let ep = trim_end_matches CHR ''/'' (trim (sg_url cfg)) in
     starts_with (hq_url rq) (ep @ ''/rest/'') \<and> hq_api_key rq = trim (sg_api_key cfg)
     \<and> is_some_and (ss_uri sv ep) (\<lambda>u. uri_scheme u = Some ''https''
          \<or> uri_scheme u = Some ''http'' \<and> is_some_and (uri_host u) is_loopback_host))"

definition sends_only :: "(http_request \<Rightarrow> bool) \<Rightarrow> (http_request list \<times> 'h, 'a) http_io \<Rightarrow> bool" where
  "sends_only P m \<longleftrightarrow> (\<forall>log h. list_all P log \<longrightarrow> list_all P (fst (snd (m (log, h)))))"

section \<open>The walk\<close>

lemma fst_io_bind:
  "fst (io_bind m f h) = Inr y \<longleftrightarrow> (\<exists>x. fst (m h) = Inr x \<and> fst (f x (snd (m h))) = Inr y)"
  by (auto simp: io_bind_def split: prod.splits sum.splits)

lemma fst_io [simp]: "fst (io_lift r h) = r" "fst (io_ret x h) = Inr x" "fst (io_fail e h) = Inl e"
  by (simp_all add: io_lift_def io_ret_def io_fail_def)

lemma entry_names_Cons [simp]:
  "entry_names repository dir ((name, n) # es) =
     (case n of File c \<Rightarrow> {s. index_name repository (dir @ [name]) = Inr s} | _ \<Rightarrow> {}) \<union> entry_names repository dir es"
  by (auto simp: entry_names_def split: node.splits)

lemma verify_entries_sound:
  assumes idx: "index_answers sv cfg ep idx" and "fst (verify_entries sv cfg ep repository dir es files h) = Inr out"
  shows "(\<forall>(name, n) \<in> set es. node_indexed idx repository (dir @ [name]) n)
    \<and> set out = set files \<union> entry_names repository dir es"
  using assms(2)
proof (induction es arbitrary: files h)
  case Nil
  then show ?case by (simp add: entry_names_def)
next
  case (Cons e es)
  obtain name n where e: "e = (name, n)" by fastforce
  show ?case
  proof (cases n)
    case (File c)
    with Cons.prems obtain s l h' where s: "index_name repository (dir @ [name]) = Inr s" "fr_local (idx s) = Some l"
        "\<not> lf_deleted l" "\<not> lf_invalid l" "\<not> lf_ignored l" "lf_size l = word_of_nat (length c)"
      and rest: "fst (verify_entries sv cfg ep repository dir es (files @ [s]) h') = Inr out"
      using idx by (auto simp: e fst_io_bind index_answers_def index_name_def split: if_splits)
    then show ?thesis using Cons.IH [OF rest] by (auto simp: e File indexed_with_def)
  qed (use Cons e in auto)
qed

lemma verify_entries_complete:
  assumes idx: "index_answers sv cfg ep idx" and "\<forall>(name, n) \<in> set es. node_indexed idx repository (dir @ [name]) n"
  shows "\<exists>out. fst (verify_entries sv cfg ep repository dir es files h) = Inr out"
  using assms(2)
proof (induction es arbitrary: files h)
  case (Cons e es)
  obtain name n where e: "e = (name, n)" by fastforce
  show ?case
  proof (cases n)
    case (File c)
    then obtain s l where s: "index_name repository (dir @ [name]) = Inr s" "fr_local (idx s) = Some l"
        "\<not> lf_deleted l" "\<not> lf_invalid l" "\<not> lf_ignored l" "lf_size l = word_of_nat (length c)"
      using Cons.prems by (auto simp: e indexed_with_def)
    have "\<exists>out. fst (verify_entries sv cfg ep repository dir es (files @ [s]) h') = Inr out" for h'
      using Cons by simp
    then show ?thesis using s idx by (auto simp: e File fst_io_bind index_answers_def index_name_def)
  qed (use Cons e in auto)
qed simp

text \<open>The tree below a directory, by its entries.\<close>

lemma entry_lookup:
  assumes "lookup fs p = Some (Dir es)" "proper_tree fs"
  shows "(name, n) \<in> set es \<longleftrightarrow> lookup fs (p @ [name]) = Some n"
  using assms unfolding proper_tree_def by (simp add: lookup_snoc)

lemma proper_tree_simps:
  "proper_tree (File c)" "proper_tree Special"
  "distinct (map fst es) \<Longrightarrow> \<forall>(name, n) \<in> set es. proper_tree n \<Longrightarrow> proper_tree (Dir es)"
proof -
  show "proper_tree (File c)" "proper_tree Special"
    unfolding proper_tree_def by (auto elim: lookup.elims)
  assume d: "distinct (map fst es)" "\<forall>(name, n) \<in> set es. proper_tree n"
  show "proper_tree (Dir es)"
    unfolding proper_tree_def
  proof (intro allI impI)
    fix p sub assume l: "lookup (Dir es) p = Some (Dir sub)"
    show "distinct (map fst sub)"
    proof (cases p)
      case (Cons c q)
      then obtain n where n: "map_of es c = Some n" "lookup n q = Some (Dir sub)" using l by (auto simp: opt_bind_eq_Some)
      then have "proper_tree n" using d(2) map_of_SomeD by fastforce
      then show ?thesis using n(2) unfolding proper_tree_def by blast
    qed (use l d in simp)
  qed
qed

lemma subdirectories_iff:
  assumes "lookup fs p = Some (Dir es)" "proper_tree fs"
  shows "d \<in> set (subdirectories p es) \<longleftrightarrow> (\<exists>name sub. d = p @ [name] \<and> lookup fs d = Some (Dir sub))"
proof -
  have "d \<in> set (subdirectories p es) \<longleftrightarrow> (\<exists>name n. d = p @ [name] \<and> is_dir n \<and> (name, n) \<in> set es)"
    unfolding subdirectories_def by force
  also have "\<dots> \<longleftrightarrow> (\<exists>name sub. d = p @ [name] \<and> lookup fs d = Some (Dir sub))"
    unfolding entry_lookup [OF assms] by (metis is_dir.elims(2) is_dir.simps(1))
  finally show ?thesis .
qed

lemma below_directory:
  assumes d: "lookup fs p = Some (Dir es)" "proper_tree fs"
  shows "(\<forall>q n. lookup fs (p @ q) = Some n \<longrightarrow> Q (p @ q) n) \<longleftrightarrow>
    Q p (Dir es) \<and> (\<forall>(name, n) \<in> set es. Q (p @ [name]) n)
    \<and> (\<forall>d \<in> set (subdirectories p es). \<forall>q n. lookup fs (d @ q) = Some n \<longrightarrow> Q (d @ q) n)"
    (is "?all \<longleftrightarrow> ?top \<and> ?entries \<and> ?subs")
proof (intro iffI conjI)
  assume all: ?all
  show ?top using all [rule_format, of "[]"] d(1) by simp
  show ?entries using all entry_lookup [OF d] by auto
  show ?subs
  proof (intro ballI allI impI)
    fix x q n assume x: "x \<in> set (subdirectories p es)" "lookup fs (x @ q) = Some n"
    then obtain name where "x = p @ [name]" unfolding subdirectories_iff [OF d] by blast
    then show "Q (x @ q) n" using all [rule_format, of "name # q"] x(2) by simp
  qed
next
  assume r: "?top \<and> ?entries \<and> ?subs"
  show ?all
  proof (intro allI impI)
    fix q n assume q: "lookup fs (p @ q) = Some n"
    show "Q (p @ q) n"
    proof (cases q)
      case (Cons name q')
      have l: "lookup fs ((p @ [name]) @ q') = Some n" using q Cons by simp
      show ?thesis
      proof (cases q')
        case Nil
        then have "(name, n) \<in> set es" using l entry_lookup [OF d] by simp
        then show ?thesis using r Cons Nil by fastforce
      next
        case (Cons c q'')
        obtain sub where "lookup fs (p @ [name]) = Some (Dir sub)"
          using l unfolding Cons lookup_append [of fs "p @ [name]"] opt_bind_eq_Some by (metis lookup.simps node.exhaust option.distinct(1))
        then have "p @ [name] \<in> set (subdirectories p es)" unfolding subdirectories_iff [OF d] by blast
        then have "Q ((p @ [name]) @ q') n" using r l by blast
        then show ?thesis using \<open>q = name # q'\<close> by simp
      qed
    qed (use r q d in simp)
  qed
qed

lemma tree_indexed_directory:
  assumes "lookup fs p = Some (Dir es)" "proper_tree fs"
  shows "tree_indexed idx repository fs p \<longleftrightarrow> (\<forall>(name, n) \<in> set es. node_indexed idx repository (p @ [name]) n)
      \<and> (\<forall>d \<in> set (subdirectories p es). tree_indexed idx repository fs d)"
  unfolding tree_indexed_def below_directory [OF assms, of "node_indexed idx repository"] by simp

lemma is_file_iff: "is_file n \<longleftrightarrow> (\<exists>c. n = File c)"
  by (cases n) auto

lemma file_names_alt:
  "s \<notin> file_names repository fs p \<longleftrightarrow>
     (\<forall>q n. lookup fs (p @ q) = Some n \<longrightarrow> \<not> (is_file n \<and> index_name repository (p @ q) = Inr s))"
  unfolding file_names_def is_file_iff by auto

lemma file_names_directory:
  assumes "lookup fs p = Some (Dir es)" "proper_tree fs"
  shows "file_names repository fs p =
    entry_names repository p es \<union> (\<Union>d \<in> set (subdirectories p es). file_names repository fs d)"
proof -
  have "s \<notin> entry_names repository p es \<longleftrightarrow> (\<forall>(name, n) \<in> set es. \<not> (is_file n \<and> index_name repository (p @ [name]) = Inr s))" for s
    unfolding entry_names_def is_file_iff by auto
  then have "s \<notin> file_names repository fs p \<longleftrightarrow>
      s \<notin> entry_names repository p es \<union> (\<Union>d \<in> set (subdirectories p es). file_names repository fs d)" for s
    unfolding file_names_alt below_directory [OF assms, of "\<lambda>p n. \<not> (is_file n \<and> index_name repository p = Inr s)"]
    by (simp add: file_names_alt)
  then show ?thesis by blast
qed

lemma verify_loop_sound:
  assumes "index_answers sv cfg ep idx" "proper_tree fs" "\<forall>p \<in> set pending. fs_is_dir fs p"
    and "fst (verify_loop sv cfg ep repository fs pending files h) = Inr out"
  shows "(\<forall>p \<in> set pending. tree_indexed idx repository fs p)
    \<and> set out = set files \<union> (\<Union>p \<in> set pending. file_names repository fs p)"
  using assms
proof (induction sv cfg ep repository fs pending files arbitrary: h rule: verify_loop.induct)
  case (2 sv cfg ep repository fs dir pending files)
  have "fs_is_dir fs dir" using "2.prems"(3) by simp
  then obtain es where es: "lookup fs dir = Some (Dir es)" unfolding fs_is_dir_iff by blast
  from "2.prems"(4) obtain out1 h1 where o: "fst (verify_entries sv cfg ep repository dir es files h) = Inr out1"
      "fst (verify_loop sv cfg ep repository fs (rev (subdirectories dir es) @ pending) out1 h1) = Inr out"
    by (auto simp: fst_io_bind fs_read_dir_def es)
  have d: "\<forall>p \<in> set (rev (subdirectories dir es) @ pending). fs_is_dir fs p"
    using "2.prems"(3) by (auto simp: fs_is_dir_iff subdirectories_iff [OF es "2.prems"(2)])
  have "fs_read_dir fs dir = Inr es" using es by simp
  from "2.IH" [OF this "2.prems"(1,2) d o(2)] verify_entries_sound [OF "2.prems"(1) o(1)]
  show ?case using tree_indexed_directory [OF es "2.prems"(2)] file_names_directory [OF es "2.prems"(2)] by auto
qed simp

lemma verify_loop_complete:
  assumes "index_answers sv cfg ep idx" "proper_tree fs" "\<forall>p \<in> set pending. fs_is_dir fs p \<and> tree_indexed idx repository fs p"
  shows "\<exists>out. fst (verify_loop sv cfg ep repository fs pending files h) = Inr out"
  using assms
proof (induction sv cfg ep repository fs pending files arbitrary: h rule: verify_loop.induct)
  case (2 sv cfg ep repository fs dir pending files)
  have "fs_is_dir fs dir" using "2.prems"(3) by simp
  then obtain es where es: "lookup fs dir = Some (Dir es)" unfolding fs_is_dir_iff by blast
  note t = tree_indexed_directory [OF es "2.prems"(2), of idx repository]
  obtain out1 where o: "fst (verify_entries sv cfg ep repository dir es files h) = Inr out1"
    using verify_entries_complete [OF "2.prems"(1), of es repository dir files h] t "2.prems"(3) by auto
  have d: "\<forall>p \<in> set (rev (subdirectories dir es) @ pending). fs_is_dir fs p \<and> tree_indexed idx repository fs p"
    using "2.prems"(3) t by (auto simp: fs_is_dir_iff subdirectories_iff [OF es "2.prems"(2)])
  have "fs_read_dir fs dir = Inr es" using es by simp
  from "2.IH" [OF this "2.prems"(1,2) d] show ?case using o by (auto simp: fst_io_bind fs_read_dir_def es)
qed simp

section \<open>The requests\<close>

lemma sends_only_bind [sends_intros]:
  assumes m: "sends_only P m" and f: "\<And>x. sends_only P (f x)"
  shows "sends_only P (io_bind m f)"
  unfolding sends_only_def
proof (intro allI impI)
  fix log h assume "list_all P log"
  then have "list_all P (fst (snd (m (log, h))))" using m by (auto simp: sends_only_def)
  then show "list_all P (fst (snd (io_bind m f (log, h))))"
    using f unfolding sends_only_def by (cases "m (log, h)"; cases "fst (m (log, h))") (auto simp: io_bind_def)
qed

lemma sends_only_io [sends_intros]:
  "sends_only P (io_lift r)" "sends_only P (io_ret x)" "sends_only P (io_fail e)"
  by (simp_all add: sends_only_def io_lift_def io_ret_def io_fail_def)

lemma sends_only_if [sends_intros]: "(b \<Longrightarrow> sends_only P m) \<Longrightarrow> (\<not> b \<Longrightarrow> sends_only P m') \<Longrightarrow> sends_only P (if b then m else m')"
  by simp

lemma sends_only_for [sends_intros]: "(\<And>x. sends_only P (body x)) \<Longrightarrow> sends_only P (io_for xs body)"
  by (induction xs) (auto intro: sends_intros)

lemma sends_only_http:
  assumes "P rq" shows "sends_only P (\<lambda>h. case ss_http (logging sv) rq h of (reply, h') \<Rightarrow> (f reply, h'))"
  using assms by (auto simp: sends_only_def logging_def split: prod.splits)

lemma logging_endpoint [simp]: "endpoint (logging sv) cfg = endpoint sv cfg"
  by (simp add: endpoint_def logging_def Let_def)

lemma starts_with_append: "starts_with (p @ s) (p @ t) \<longleftrightarrow> starts_with s t"
  by (simp add: starts_with_def)

lemma endpoint_secure:
  assumes "endpoint sv cfg = Inr ep" "starts_with rest ''/rest/''"
  shows "secure_request sv cfg \<lparr>hq_method = m, hq_timeout_ms = t, hq_url = ep @ rest, hq_api_key = trim (sg_api_key cfg), hq_query = q\<rparr>"
  using assms by (auto simp: endpoint_def secure_request_def Let_def starts_with_append rbind_eq_Inr is_some_and_def split: if_splits)

lemma sends_get_json:
  "endpoint sv cfg = Inr ep \<Longrightarrow> starts_with rest ''/rest/''
     \<Longrightarrow> sends_only (secure_request sv cfg) (get_json (logging sv) from_str cfg (ep @ rest) query)"
  unfolding get_json_def by (intro sends_only_http endpoint_secure)

lemma sends_scan: "endpoint sv cfg = Inr ep \<Longrightarrow> sends_only (secure_request sv cfg) (scan (logging sv) cfg ep relative)"
  using endpoint_secure [of sv cfg ep "''/rest/db/scan''" "''POST''"] by (auto simp: sends_only_def scan_def logging_def starts_with_def split: prod.splits http_reply.splits)

lemmas sends_requests = sends_get_json sends_scan

lemma sends_queries:
  assumes "endpoint sv cfg = Inr ep"
  shows "sends_only (secure_request sv cfg) (get_folder_status (logging sv) cfg ep)"
    and "sends_only (secure_request sv cfg) (get_file_record (logging sv) cfg ep relative)"
    and "sends_only (secure_request sv cfg) (validate_folder (logging sv) cfg ep repository fs)"
  unfolding get_folder_status_def get_file_record_def validate_folder_def
  by (intro sends_intros sends_requests assms; simp add: starts_with_def)+

lemma sends_entries:
  assumes ep: "endpoint sv cfg = Inr ep"
  shows "sends_only (secure_request sv cfg) (verify_entries (logging sv) cfg ep repository dir es files)"
proof (induction es arbitrary: files)
  case (Cons e es)
  then show ?case by (cases e; cases "snd e") (auto intro!: sends_intros sends_queries ep)
qed (auto intro: sends_intros)

lemma sends_loop:
  assumes "endpoint sv cfg = Inr ep" "sv' = logging sv"
  shows "sends_only (secure_request sv cfg) (verify_loop sv' cfg ep repository fs pending files)"
  using assms
proof (induction sv' cfg ep repository fs pending files rule: verify_loop.induct)
  case (2 sv' cfg ep repository fs dir pending files)
  then show ?case by (cases "fs_read_dir fs dir") (auto simp del: fs_read_dir_Inr intro!: sends_intros sends_entries)
qed (auto intro: sends_intros)

lemma sends_tree:
  assumes ep: "endpoint sv cfg = Inr ep"
  shows "sends_only (secure_request sv cfg) (verify_indexed_tree (logging sv) cfg ep repository dir fs)"
  unfolding verify_indexed_tree_def by (intro sends_intros sends_queries sends_loop refl ep)

lemma sends_manifests:
  assumes ep: "endpoint sv cfg = Inr ep"
  shows "sends_only (secure_request sv cfg) (verify_manifests (logging sv) cfg ep repository scope fs is files)"
  by (induction "is" arbitrary: files) (auto intro!: sends_intros sends_tree ep)

lemma sends_after_endpoint:
  assumes "\<And>ep. endpoint sv cfg = Inr ep \<Longrightarrow> sends_only (secure_request sv cfg) (f ep)"
  shows "sends_only (secure_request sv cfg) (io_bind (io_lift (endpoint (logging sv) cfg)) f)"
  using assms by (cases "endpoint sv cfg") (auto simp: sends_only_def io_bind_def io_lift_def)

lemma sends_guard:
  "sends_only (secure_request sv cfg) (ensure_ready_for_app (logging sv) cfg repository relative_app fs)"
  "sends_only (secure_request sv cfg) (prepare_for_gc (logging sv) cfg repository report fs)"
  "sends_only (secure_request sv cfg) (publish_gc (logging sv) cfg boundary)"
  "sends_only (secure_request sv cfg) (wait_for_gc_events (logging sv) cfg since)"
  unfolding ensure_ready_for_app_def prepare_for_gc_def publish_gc_def wait_for_gc_events_def Let_def
  by (rule sends_after_endpoint, intro sends_intros sends_queries sends_scan sends_manifests sends_only_http endpoint_secure; simp add: starts_with_def)+

lemma requests_sent: "sends_only P m \<Longrightarrow> list_all P (requests_of m h)"
  by (simp add: sends_only_def requests_of_def)

end
