(* ===== verification/Gc_Coordinator.thy ===== *)
theory Gc_Coordinator
  imports Local_Failure Syncthing_Laws
begin

text \<open>The background garbage collection of the local cloud (\<open>src/crates/cloud-local/src/gc.rs\<close>): the queue of
  inspections, the worker that runs them, and the listeners that wake inspections which had to wait for Syncthing.
  The state behind the mutex and the epoch counter are records; the channel to the worker is the list of the messages
  that are still in it; every function that holds the mutex is one function on the state.  The threads are the rules of
  a step relation, which interleaves them at every point where the code holds no lock.\<close>

section \<open>State\<close>

datatype inspection_key = InspectionKey (ik_repository: path) (ik_manifest_scope: string)

text \<open>The derived order compares the fields in turn.\<close>

instantiation inspection_key :: linorder
begin

definition less_eq_inspection_key :: "inspection_key \<Rightarrow> inspection_key \<Rightarrow> bool" where
  "less_eq_inspection_key a b \<longleftrightarrow> ik_repository a < ik_repository b
     \<or> ik_repository a = ik_repository b \<and> ik_manifest_scope a \<le> ik_manifest_scope b"

definition less_inspection_key :: "inspection_key \<Rightarrow> inspection_key \<Rightarrow> bool" where
  "less_inspection_key a b \<longleftrightarrow> ik_repository a < ik_repository b
     \<or> ik_repository a = ik_repository b \<and> ik_manifest_scope a < ik_manifest_scope b"

instance
  by standard (auto simp: less_eq_inspection_key_def less_inspection_key_def intro: inspection_key.expand)

end

record inspection_request =
  iq_store :: folder_store
  iq_app_id :: u32
  iq_syncthing :: "syncthing_gc_config option"
  iq_epoch :: u64
  iq_revision :: u64

record syncthing_listener_key =
  lk_repository :: path
  lk_settings :: syncthing_gc_config

record listener_registration =
  lg_id :: u64
  lg_wake_queued :: bool

text \<open>Only \<open>deferred\<close> is ever iterated; the other two maps are looked up by key.\<close>

record coordinator_state =
  co_revisions :: "inspection_key \<rightharpoonup> u64"
  co_deferred :: "(inspection_key, inspection_request) btree"
  co_listeners :: "syncthing_listener_key \<rightharpoonup> listener_registration"
  co_next_listener_id :: u64

datatype worker_message =
    Inspect inspection_request
  | SyncthingEvent syncthing_listener_key u64
  | SyncthingListenerStopped syncthing_listener_key u64 string

record local_gc_coordinator =
  gc_state :: coordinator_state
  gc_sender :: "worker_message list"
  gc_epoch :: u64

datatype inspection_outcome = Finished | DeferForSyncthing

definition try_new :: local_gc_coordinator where
  "try_new = \<lparr>gc_state = \<lparr>co_revisions = Map.empty, co_deferred = [], co_listeners = Map.empty, co_next_listener_id = 0\<rparr>,
     gc_sender = [], gc_epoch = 1\<rparr>"

definition request_key :: "inspection_request \<Rightarrow> inspection_key" where
  "request_key r = InspectionKey (fo_root (iq_store r)) (manifest_scope (iq_store r) (iq_app_id r))"

definition request_listener_key :: "inspection_request \<Rightarrow> syncthing_listener_key option" where
  "request_listener_key r =
     map_option (\<lambda>settings. \<lparr>lk_repository = fo_root (iq_store r), lk_settings = settings\<rparr>) (iq_syncthing r)"

section \<open>Queueing\<close>

definition advance_revision :: "(inspection_key \<rightharpoonup> u64) \<Rightarrow> inspection_key \<Rightarrow> u64 \<times> (inspection_key \<rightharpoonup> u64)" where
  "advance_revision revisions key =
     (let revision = max (unwrap_or 0 (revisions key) + 1) 1 in (revision, revisions(key \<mapsto> revision)))"

definition send_request :: "inspection_request \<Rightarrow> local_gc_coordinator \<Rightarrow> local_gc_coordinator" where
  "send_request request c = c\<lparr>gc_sender := gc_sender c @ [Inspect request]\<rparr>"

definition queue_inspection ::
  "'h syncthing_service \<Rightarrow> folder_store \<Rightarrow> u32 \<Rightarrow> syncthing_gc_config option \<Rightarrow> local_gc_coordinator \<Rightarrow> local_gc_coordinator" where
  "queue_inspection sv store app_id syncthing c =
     (if is_some_and syncthing (\<lambda>settings. \<not> is_ok (validate_for_gc sv settings)) then c
      else let key = InspectionKey (fo_root store) (manifest_scope store app_id);
               (revision, revisions) = advance_revision (co_revisions (gc_state c)) key;
               state = (gc_state c)\<lparr>co_revisions := revisions, co_deferred := bt_remove key (co_deferred (gc_state c))\<rparr> in
           send_request \<lparr>iq_store = store, iq_app_id = app_id, iq_syncthing = syncthing,
                         iq_epoch = gc_epoch c, iq_revision = revision\<rparr> (c\<lparr>gc_state := state\<rparr>))"

definition invalidate :: "local_gc_coordinator \<Rightarrow> local_gc_coordinator" where
  "invalidate c = c\<lparr>gc_epoch := gc_epoch c + 1,
     gc_state := (gc_state c)\<lparr>co_revisions := Map.empty, co_deferred := [], co_listeners := Map.empty\<rparr>\<rparr>"

section \<open>Requests\<close>

definition request_is_current_locked :: "coordinator_state \<Rightarrow> u64 \<Rightarrow> inspection_request \<Rightarrow> bool" where
  "request_is_current_locked state epoch request \<longleftrightarrow>
     iq_epoch request = epoch \<and> co_revisions state (request_key request) = Some (iq_revision request)"

definition request_is_current :: "local_gc_coordinator \<Rightarrow> inspection_request \<Rightarrow> bool" where
  "request_is_current c request \<longleftrightarrow>
     (if iq_epoch request \<noteq> gc_epoch c then False else request_is_current_locked (gc_state c) (gc_epoch c) request)"

definition merge_pending_request ::
  "inspection_request \<Rightarrow> (inspection_key, inspection_request) btree \<Rightarrow> (inspection_key, inspection_request) btree" where
  "merge_pending_request request pending =
     (case map_of pending (request_key request) of
        None \<Rightarrow> bt_insert (request_key request) request pending
      | Some cur \<Rightarrow>
          if iq_epoch cur < iq_epoch request \<or> iq_epoch cur = iq_epoch request \<and> iq_revision cur < iq_revision request
          then bt_insert (request_key request) request pending else pending)"

definition take_deferred_requests ::
  "u64 \<Rightarrow> syncthing_listener_key \<Rightarrow> u64 \<Rightarrow> coordinator_state \<Rightarrow> inspection_request list \<times> coordinator_state" where
  "take_deferred_requests epoch listener_key listener_id state =
     (case co_listeners state listener_key of
        None \<Rightarrow> ([], state)
      | Some listener \<Rightarrow>
          if lg_id listener \<noteq> listener_id then ([], state)
          else
            let state = state\<lparr>co_listeners := (co_listeners state)(listener_key \<mapsto> listener\<lparr>lg_wake_queued := False\<rparr>)\<rparr>;
                keys = map fst (filter (\<lambda>(_, request). request_listener_key request = Some listener_key) (co_deferred state)) in
            fold (\<lambda>key (requests, state).
                case map_of (co_deferred state) key of
                  None \<Rightarrow> (requests, state)
                | Some request \<Rightarrow>
                    let state = state\<lparr>co_deferred := bt_remove key (co_deferred state)\<rparr> in
                    (if request_is_current_locked state epoch request then requests @ [request] else requests, state))
              keys ([], state))"

text \<open>The registration of a listener goes when its thread stopped or could not be started.\<close>

definition drop_listener :: "syncthing_listener_key \<Rightarrow> u64 \<Rightarrow> coordinator_state \<Rightarrow> coordinator_state" where
  "drop_listener key listener_id state =
     (if map_option lg_id (co_listeners state key) = Some listener_id
      then state\<lparr>co_listeners := (co_listeners state)(key := None)\<rparr> else state)"

definition merge_worker_message ::
  "worker_message \<Rightarrow> (inspection_key, inspection_request) btree \<Rightarrow> local_gc_coordinator
     \<Rightarrow> (inspection_key, inspection_request) btree \<times> local_gc_coordinator" where
  "merge_worker_message message pending c =
     (case message of
        Inspect request \<Rightarrow> (merge_pending_request request pending, c)
      | SyncthingEvent key listener_id \<Rightarrow>
          (case take_deferred_requests (gc_epoch c) key listener_id (gc_state c) of (deferred, state) \<Rightarrow>
             (fold merge_pending_request deferred pending, c\<lparr>gc_state := state\<rparr>))
      | SyncthingListenerStopped key listener_id error \<Rightarrow>
          (pending, c\<lparr>gc_state := drop_listener key listener_id (gc_state c)\<rparr>))"

text \<open>The part of \<open>defer_request\<close> that holds the mutex; it returns the listener to start.\<close>

definition defer_request ::
  "inspection_request \<Rightarrow> local_gc_coordinator \<Rightarrow> (syncthing_listener_key \<times> u64) option \<times> local_gc_coordinator" where
  "defer_request request c =
     (case request_listener_key request of
        None \<Rightarrow> (None, c)
      | Some listener_key \<Rightarrow>
          let state = gc_state c in
          if \<not> request_is_current_locked state (gc_epoch c) request then (None, c)
          else let state = state\<lparr>co_deferred := bt_insert (request_key request) request (co_deferred state)\<rparr> in
            if co_listeners state listener_key \<noteq> None then (None, c\<lparr>gc_state := state\<rparr>)
            else let listener_id = max (co_next_listener_id state + 1) 1 in
              (Some (listener_key, listener_id),
               c\<lparr>gc_state := state\<lparr>co_next_listener_id := listener_id,
                  co_listeners := (co_listeners state)(listener_key \<mapsto> \<lparr>lg_id = listener_id, lg_wake_queued = False\<rparr>)\<rparr>\<rparr>))"

definition finish_request :: "inspection_request \<Rightarrow> coordinator_state \<Rightarrow> coordinator_state" where
  "finish_request request state =
     (case request_listener_key request of
        None \<Rightarrow> state
      | Some listener_key \<Rightarrow>
          let state = state\<lparr>co_deferred := bt_remove (request_key request) (co_deferred state)\<rparr> in
          if \<not> list_ex (\<lambda>(_, deferred). request_listener_key deferred = Some listener_key) (co_deferred state)
          then state\<lparr>co_listeners := (co_listeners state)(listener_key := None)\<rparr> else state)"

section \<open>Inspections\<close>

text \<open>An inspection reads the epoch and the revision while other threads may change them: \<open>c1\<close> and \<open>c2\<close> are the
  coordinator at the first and at the second check.\<close>

definition after_sweep ::
  "'h syncthing_service \<Rightarrow> inspection_request \<Rightarrow> syncthing_boundary option \<Rightarrow> gc_sweep \<Rightarrow> 'h \<Rightarrow> world
     \<Rightarrow> inspection_outcome \<times> 'h \<times> world" where
  "after_sweep sv request syncthing_boundary sweep h w =
     (let published = (case (iq_syncthing request, syncthing_boundary) of
                         (Some syncthing, Some boundary) \<Rightarrow> publish_gc sv syncthing boundary h
                       | _ \<Rightarrow> (Inr (), h)) in
      case published of
        (Inl error, h') \<Rightarrow>
          (case restore_gc_sweep (iq_store request) (iq_app_id request) sweep w of (restored, w') \<Rightarrow>
             (if is_ok restored \<and> is_retryable error then DeferForSyncthing else Finished, h', w'))
      | (Inr _, h') \<Rightarrow> (Finished, h', snd (finalize_gc_sweep (iq_store request) sweep w)))"

definition inspect_once ::
  "codec \<Rightarrow> 'h syncthing_service \<Rightarrow> local_gc_coordinator \<Rightarrow> local_gc_coordinator \<Rightarrow> inspection_request \<Rightarrow> 'h \<Rightarrow> world
     \<Rightarrow> inspection_outcome \<times> 'h \<times> world" where
  "inspect_once cd sv c1 c2 request h w =
     (case inspect_gc cd (iq_store request) (iq_app_id request) (w_fs w) of
        Inl error \<Rightarrow> (Finished, h, w)
      | Inr report \<Rightarrow>
        (let boundary = (if gr_candidate_manifests report = [] then (Inr None, h)
             else case iq_syncthing request of
                    Some syncthing \<Rightarrow>
                      (case prepare_for_gc sv syncthing (fo_root (iq_store request)) report (w_fs w) h of
                         (Inr b, h') \<Rightarrow> (Inr (Some b), h') | (Inl e, h') \<Rightarrow> (Inl e, h'))
                  | None \<Rightarrow> (Inr None, h)) in
         case boundary of
           (Inl error, h') \<Rightarrow> (if is_retryable error then DeferForSyncthing else Finished, h', w)
         | (Inr syncthing_boundary, h') \<Rightarrow>
             if iq_epoch request \<noteq> gc_epoch c1 then (Finished, h', w)
             else (case prepare_gc_sweep (iq_store request) report (w_fs w) of
                     Inr (Some plan) \<Rightarrow>
                       if \<not> request_is_current c2 request then (Finished, h', w)
                       else (case apply_gc_sweep (iq_store request) plan w of
                               (Inr (Some sweep), w') \<Rightarrow> after_sweep sv request syncthing_boundary sweep h' w'
                             | (_, w') \<Rightarrow> (Finished, h', w'))
                   | _ \<Rightarrow> (Finished, h', w))))"

section \<open>Listeners\<close>

text \<open>The delays are in milliseconds.\<close>

definition INITIAL_RECONNECT_DELAY :: nat where
  "INITIAL_RECONNECT_DELAY = 250"

definition MAX_RECONNECT_DELAY :: nat where
  "MAX_RECONNECT_DELAY = 5000"

definition listener_is_current :: "syncthing_listener_key \<Rightarrow> u64 \<Rightarrow> coordinator_state \<Rightarrow> bool" where
  "listener_is_current key listener_id state \<longleftrightarrow> map_option lg_id (co_listeners state key) = Some listener_id"

definition mark_listener_wake_queued :: "syncthing_listener_key \<Rightarrow> u64 \<Rightarrow> coordinator_state \<Rightarrow> bool \<times> coordinator_state" where
  "mark_listener_wake_queued key listener_id state =
     (case co_listeners state key of
        None \<Rightarrow> (False, state)
      | Some listener \<Rightarrow>
          if lg_id listener \<noteq> listener_id \<or> lg_wake_queued listener then (False, state)
          else (True, state\<lparr>co_listeners := (co_listeners state)(key \<mapsto> listener\<lparr>lg_wake_queued := True\<rparr>)\<rparr>))"

text \<open>The variables of \<open>run_syncthing_listener\<close>, and what one turn of its loop does with the answer of
  Syncthing: go on, try to queue a wake, sleep, or stop with an error.\<close>

record listener_loop =
  ll_cursor :: "u64 option"
  ll_connected :: bool
  ll_reconnect_delay :: nat

datatype listener_action = Continue | Wake | Sleep nat | Stop string

definition listener_start :: listener_loop where
  "listener_start = \<lparr>ll_cursor = None, ll_connected = False, ll_reconnect_delay = INITIAL_RECONNECT_DELAY\<rparr>"

definition listener_turn :: "backend_error + syncthing_event_batch \<Rightarrow> listener_loop \<Rightarrow> listener_action \<times> listener_loop" where
  "listener_turn result l =
     (case result of
        Inr batch \<Rightarrow>
          (if \<not> ll_connected l \<or> eb_wakes_gc batch then Wake else Continue,
           \<lparr>ll_cursor = eb_last_id batch, ll_connected = True, ll_reconnect_delay = INITIAL_RECONNECT_DELAY\<rparr>)
      | Inl error \<Rightarrow>
          if is_retryable error
          then (Sleep (ll_reconnect_delay l),
                \<lparr>ll_cursor = None, ll_connected = False,
                 ll_reconnect_delay = min (2 * ll_reconnect_delay l) MAX_RECONNECT_DELAY\<rparr>)
          else (Stop (be_message error), l))"

section \<open>Threads\<close>

text \<open>The threads of a live coordinator: the worker with the requests it has merged and the one it runs, listeners
  that are about to be started, that wait for Syncthing, and that have marked a wake and are about to send it.\<close>

record gc_system =
  sy_gc :: local_gc_coordinator
  sy_pending :: "(inspection_key, inspection_request) btree"
  sy_running :: "inspection_request option"
  sy_spawning :: "(syncthing_listener_key \<times> u64) list"
  sy_polling :: "(syncthing_listener_key \<times> u64 \<times> listener_loop) list"
  sy_sending :: "(syncthing_listener_key \<times> u64 \<times> listener_loop) list"

abbreviation sy_state :: "gc_system \<Rightarrow> coordinator_state" where
  "sy_state s \<equiv> gc_state (sy_gc s)"

definition set_state :: "coordinator_state \<Rightarrow> gc_system \<Rightarrow> gc_system" where
  "set_state st s = s\<lparr>sy_gc := (sy_gc s)\<lparr>gc_state := st\<rparr>\<rparr>"

definition send_message :: "worker_message \<Rightarrow> gc_system \<Rightarrow> gc_system" where
  "send_message m s = s\<lparr>sy_gc := (sy_gc s)\<lparr>gc_sender := gc_sender (sy_gc s) @ [m]\<rparr>\<rparr>"

text \<open>One turn of a listener that got the answer \<open>result\<close>.\<close>

definition poll_listener ::
  "syncthing_listener_key \<Rightarrow> u64 \<Rightarrow> listener_loop \<Rightarrow> backend_error + syncthing_event_batch \<Rightarrow> gc_system \<Rightarrow> gc_system" where
  "poll_listener key i l result s =
     (let others = remove1 (key, i, l) (sy_polling s) in
      case listener_turn result l of
        (Stop error, _) \<Rightarrow> send_message (SyncthingListenerStopped key i error) (s\<lparr>sy_polling := others\<rparr>)
      | (Wake, l') \<Rightarrow>
          (case mark_listener_wake_queued key i (sy_state s) of
             (True, st) \<Rightarrow> set_state st (s\<lparr>sy_polling := others, sy_sending := (key, i, l') # sy_sending s\<rparr>)
           | (False, st) \<Rightarrow> set_state st (s\<lparr>sy_polling := (key, i, l') # others\<rparr>))
      | (_, l') \<Rightarrow> s\<lparr>sy_polling := (key, i, l') # others\<rparr>)"

inductive gc_step :: "'h syncthing_service \<Rightarrow> gc_system \<Rightarrow> gc_system \<Rightarrow> bool" for sv where
  queue: "gc_step sv s (s\<lparr>sy_gc := queue_inspection sv store app_id syncthing (sy_gc s)\<rparr>)"
| invalidate: "gc_step sv s (s\<lparr>sy_gc := invalidate (sy_gc s)\<rparr>)"
| receive: "gc_sender (sy_gc s) = m # ms \<Longrightarrow> sy_running s = None
    \<Longrightarrow> merge_worker_message m (sy_pending s) ((sy_gc s)\<lparr>gc_sender := ms\<rparr>) = (pending, c)
    \<Longrightarrow> gc_step sv s (s\<lparr>sy_gc := c, sy_pending := pending\<rparr>)"
| start: "sy_pending s = (k, r) # pending \<Longrightarrow> sy_running s = None
    \<Longrightarrow> gc_step sv s (s\<lparr>sy_pending := pending, sy_running := (if request_is_current (sy_gc s) r then Some r else None)\<rparr>)"
| finish: "sy_running s = Some r \<Longrightarrow> gc_step sv s (set_state (finish_request r (sy_state s)) (s\<lparr>sy_running := None\<rparr>))"
| defer_it: "sy_running s = Some r \<Longrightarrow> defer_request r (sy_gc s) = (started, c)
    \<Longrightarrow> gc_step sv s (s\<lparr>sy_gc := c, sy_running := None,
          sy_spawning := (case started of Some x \<Rightarrow> x # sy_spawning s | None \<Rightarrow> sy_spawning s)\<rparr>)"
| spawned: "(key, i) \<in> set (sy_spawning s) \<Longrightarrow> gc_step sv s (s\<lparr>sy_spawning := remove1 (key, i) (sy_spawning s),
    sy_polling := (key, i, listener_start) # sy_polling s\<rparr>)"
| not_spawned: "(key, i) \<in> set (sy_spawning s)
    \<Longrightarrow> gc_step sv s (set_state (drop_listener key i (sy_state s)) (s\<lparr>sy_spawning := remove1 (key, i) (sy_spawning s)\<rparr>))"
| poll: "(key, i, l) \<in> set (sy_polling s) \<Longrightarrow> gc_step sv s (poll_listener key i l result s)"
| leave: "(key, i, l) \<in> set (sy_polling s) \<Longrightarrow> \<not> listener_is_current key i (sy_state s)
    \<Longrightarrow> gc_step sv s (s\<lparr>sy_polling := remove1 (key, i, l) (sy_polling s)\<rparr>)"
| send: "(key, i, l) \<in> set (sy_sending s) \<Longrightarrow> gc_step sv s (send_message (SyncthingEvent key i)
    (s\<lparr>sy_sending := remove1 (key, i, l) (sy_sending s), sy_polling := (key, i, l) # sy_polling s\<rparr>))"

definition gc_start :: gc_system where
  "gc_start = \<lparr>sy_gc = try_new, sy_pending = [], sy_running = None, sy_spawning = [], sy_polling = [], sy_sending = []\<rparr>"

inductive gc_reachable :: "'h syncthing_service \<Rightarrow> gc_system \<Rightarrow> bool" for sv where
  start: "gc_reachable sv gc_start"
| step: "gc_reachable sv s \<Longrightarrow> gc_step sv s s' \<Longrightarrow> gc_reachable sv s'"

end
