(* ===== verification/Gc_Laws.thy ===== *)
theory Gc_Laws
  imports Gc_Coordinator
begin

text \<open>The invariant of the coordinator over all interleavings, and what an inspection does to the repository.\<close>

section \<open>The invariant\<close>

definition deferred_current :: "local_gc_coordinator \<Rightarrow> bool" where
  "deferred_current c \<longleftrightarrow> bt_wf (co_deferred (gc_state c))
     \<and> (\<forall>(k, r) \<in> set (co_deferred (gc_state c)). k = request_key r \<and> request_listener_key r \<noteq> None
          \<and> request_is_current_locked (gc_state c) (gc_epoch c) r)"

definition wake_in_flight :: "gc_system \<Rightarrow> syncthing_listener_key \<Rightarrow> u64 \<Rightarrow> bool" where
  "wake_in_flight s key i \<longleftrightarrow> SyncthingEvent key i \<in> set (gc_sender (sy_gc s)) \<or> (\<exists>l. (key, i, l) \<in> set (sy_sending s))"

definition listener_alive :: "gc_system \<Rightarrow> syncthing_listener_key \<Rightarrow> u64 \<Rightarrow> bool" where
  "listener_alive s key i \<longleftrightarrow> (key, i) \<in> set (sy_spawning s) \<or> (\<exists>l. (key, i, l) \<in> set (sy_polling s) \<union> set (sy_sending s))
     \<or> (\<exists>error. SyncthingListenerStopped key i error \<in> set (gc_sender (sy_gc s)))"

definition served :: "gc_system \<Rightarrow> syncthing_listener_key \<Rightarrow> listener_registration \<Rightarrow> bool" where
  "served s key reg \<longleftrightarrow> listener_alive s key (lg_id reg) \<and> (lg_wake_queued reg \<longrightarrow> wake_in_flight s key (lg_id reg))"

definition listeners_served :: "gc_system \<Rightarrow> bool" where
  "listeners_served s \<longleftrightarrow> (\<forall>key reg. co_listeners (sy_state s) key = Some reg \<longrightarrow> served s key reg)"

definition gc_inv :: "gc_system \<Rightarrow> bool" where
  "gc_inv s \<longleftrightarrow> deferred_current (sy_gc s) \<and> listeners_served s"

text \<open>What readers of an app may observe of a collection: the contents and the heads stay, older manifests may go.\<close>

definition collected :: "codec \<Rightarrow> folder_store \<Rightarrow> u32 \<Rightarrow> resolved_app \<Rightarrow> node \<Rightarrow> node \<Rightarrow> bool" where
  "collected cd store app_id r fs fs' \<longleftrightarrow> contents_of cd store app_id fs' = contents_of cd store app_id fs
     \<and> (\<exists>r'. resolve_app cd store app_id fs' = Inr r' \<and> ra_heads r' = ra_heads r \<and> set (ra_manifests r') \<subseteq> set (ra_manifests r))"

text \<open>The guard of a request: without Syncthing there is none; with it, the boundary was prepared before the sweep
  and published after it.\<close>

definition guarded ::
  "'h syncthing_service \<Rightarrow> inspection_request \<Rightarrow> gc_report \<Rightarrow> node \<Rightarrow> 'h \<Rightarrow> 'h \<Rightarrow> bool" where
  "guarded sv q report fs h h' \<longleftrightarrow> (\<forall>cfg. iq_syncthing q = Some cfg \<longrightarrow>
     (\<exists>b h1. prepare_for_gc sv cfg (fo_root (iq_store q)) report fs h = (Inr b, h1) \<and> publish_gc sv cfg b h1 = (Inr (), h')))"

section \<open>Taking the deferred requests of a listener\<close>

lemma current_locked_deferred [simp]:
  "request_is_current_locked (st\<lparr>co_deferred := d\<rparr>) = request_is_current_locked st"
  "request_is_current_locked (st\<lparr>co_listeners := ls\<rparr>) = request_is_current_locked st"
  "request_is_current_locked (st\<lparr>co_next_listener_id := i\<rparr>) = request_is_current_locked st"
  by (simp_all add: fun_eq_iff request_is_current_locked_def)

lemma take_fold:
  assumes "distinct keys" "set keys \<subseteq> fst ` set (co_deferred st)"
  shows "fold (\<lambda>key (requests, state).
           case map_of (co_deferred state) key of
             None \<Rightarrow> (requests, state)
           | Some request \<Rightarrow>
               let state = state\<lparr>co_deferred := bt_remove key (co_deferred state)\<rparr> in
               (if request_is_current_locked state epoch request then requests @ [request] else requests, state))
         keys (rs, st)
    = (rs @ filter (request_is_current_locked st epoch) (map (\<lambda>k. the (map_of (co_deferred st) k)) keys),
       st\<lparr>co_deferred := filter (\<lambda>e. fst e \<notin> set keys) (co_deferred st)\<rparr>)"
  using assms
proof (induction keys arbitrary: rs st)
  case (Cons k keys)
  obtain r where r: "map_of (co_deferred st) k = Some r" using Cons.prems(2) by (metis list.set_intros(1) map_of_eq_None_iff option.exhaust subsetD)
  let ?st = "st\<lparr>co_deferred := bt_remove k (co_deferred st)\<rparr>"
  have sub: "set keys \<subseteq> fst ` set (co_deferred ?st)" using Cons.prems by (force simp: bt_remove_def)
  have same: "map (\<lambda>j. the (map_of (co_deferred ?st) j)) keys = map (\<lambda>j. the (map_of (co_deferred st) j)) keys"
    using Cons.prems(1) by (auto simp: map_of_bt_remove)
  show ?case using Cons.IH [OF _ sub] Cons.prems(1) same
    by (simp add: r Let_def bt_remove_def conj_commute cong: map_cong)
qed simp

lemma take_deferred_exact:
  assumes inv: "deferred_current c" and reg: "co_listeners (gc_state c) key = Some reg"
  shows "take_deferred_requests (gc_epoch c) key (lg_id reg) (gc_state c) =
    (map snd (filter (\<lambda>(_, r). request_listener_key r = Some key) (co_deferred (gc_state c))),
     (gc_state c)\<lparr>co_listeners := (co_listeners (gc_state c))(key \<mapsto> reg\<lparr>lg_wake_queued := False\<rparr>),
       co_deferred := filter (\<lambda>(_, r). request_listener_key r \<noteq> Some key) (co_deferred (gc_state c))\<rparr>)"
proof -
  let ?D = "co_deferred (gc_state c)"
  let ?F = "filter (\<lambda>(_, r). request_listener_key r = Some key) ?D"
  have wf: "distinct (map fst ?D)" using inv bt_wf_distinct unfolding deferred_current_def by blast
  then have d: "distinct (map fst ?F)" by (rule distinct_map_filter)
  have "map (\<lambda>k. the (map_of ?D k)) (map fst ?F) = map snd ?F" using wf by (auto simp: comp_def)
  moreover have "filter (request_is_current_locked (gc_state c) (gc_epoch c)) (map snd ?F) = map snd ?F"
    using inv by (intro filter_True) (auto simp: deferred_current_def)
  moreover have "filter (\<lambda>e. fst e \<notin> set (map fst ?F)) ?D = filter (\<lambda>(_, r). request_listener_key r \<noteq> Some key) ?D"
    using wf by (intro filter_cong refl) (auto dest: eq_key_imp_eq_value)
  ultimately show ?thesis using d reg
    by (simp add: take_deferred_requests_def Let_def image_mono filter_is_subset take_fold del: map_map)
qed

section \<open>Preservation\<close>

lemma deferred_subset:
  assumes "deferred_current c" "gc_epoch c' = gc_epoch c" "co_revisions (gc_state c') = co_revisions (gc_state c)"
    "co_deferred (gc_state c') = filter P (co_deferred (gc_state c))"
  shows "deferred_current c'"
  using assms by (auto simp: deferred_current_def request_is_current_locked_def bt_wf_filter)

lemma deferred_queue:
  assumes "deferred_current c" shows "deferred_current (queue_inspection sv store app_id syncthing c)"
  using assms
  by (auto simp: queue_inspection_def Let_def advance_revision_def send_request_def deferred_current_def
      request_is_current_locked_def bt_wf_filter bt_remove_def)

lemma deferred_invalidate: "deferred_current (invalidate c)"
  by (simp add: deferred_current_def invalidate_def)

lemma deferred_defer:
  assumes "deferred_current c" "defer_request r c = (started, c')" shows "deferred_current c'"
  using assms
  by (auto simp: defer_request_def Let_def deferred_current_def bt_wf_insert split: option.splits if_splits
      dest!: bt_insert_subset [THEN subsetD])

lemma deferred_take:
  assumes "deferred_current c" "take_deferred_requests (gc_epoch c) key i (gc_state c) = (rs, st)"
  shows "deferred_current (c\<lparr>gc_state := st\<rparr>)"
proof (cases "\<exists>reg. co_listeners (gc_state c) key = Some reg \<and> lg_id reg = i")
  case True
  then show ?thesis using assms take_deferred_exact [OF assms(1)] by (intro deferred_subset [OF assms(1)]) auto
next
  case False
  then have "st = gc_state c" using assms(2) by (auto simp: take_deferred_requests_def split: option.splits)
  then show ?thesis using assms(1) by simp
qed

lemma deferred_merge:
  assumes "deferred_current c" "merge_worker_message m pending c = (pending', c')" shows "deferred_current c'"
proof (cases m)
  case (SyncthingEvent key i)
  then show ?thesis using assms deferred_take [OF assms(1)] by (auto simp: merge_worker_message_def split: prod.splits)
next
  case (SyncthingListenerStopped key i e)
  then show ?thesis using assms by (intro deferred_subset [OF assms(1), of _ "\<lambda>_. True"]) (auto simp: merge_worker_message_def drop_listener_def)
qed (use assms in \<open>auto simp: merge_worker_message_def\<close>)

lemma deferred_step:
  assumes "gc_step sv s s'" "deferred_current (sy_gc s)" shows "deferred_current (sy_gc s')"
  using assms
proof (induction rule: gc_step.induct)
  case (receive s m ms pending c)
  have "deferred_current ((sy_gc s)\<lparr>gc_sender := ms\<rparr>)" using receive.prems by (simp add: deferred_current_def)
  from deferred_merge [OF this receive.hyps(3)] show ?case by simp
next
  case (finish s r)
  then show ?case
    by (intro deferred_subset [OF finish.prems, where P = "\<lambda>e. request_listener_key r = None \<or> fst e \<noteq> request_key r"])
      (auto simp: set_state_def finish_request_def Let_def bt_remove_def split: option.splits)
next
  case (poll key i l s result)
  then show ?case
    by (intro deferred_subset [OF poll.prems, where P = "\<lambda>_. True"])
      (auto simp: poll_listener_def set_state_def send_message_def mark_listener_wake_queued_def Let_def split: prod.splits option.splits
        listener_action.splits if_splits)
qed (auto simp: deferred_queue deferred_invalidate set_state_def drop_listener_def send_message_def intro: deferred_defer
  deferred_subset [where P = "\<lambda>_. True"])

lemmas served_simps = served_def listener_alive_def wake_in_flight_def

lemma servedI: "(\<And>key reg. co_listeners (sy_state s) key = Some reg \<Longrightarrow> served s key reg) \<Longrightarrow> listeners_served s"
  and servedD: "listeners_served s \<Longrightarrow> co_listeners (sy_state s) key = Some reg \<Longrightarrow> served s key reg"
  by (auto simp: listeners_served_def)

lemma remove1_keeps: "(key, i, l) \<in> set xs \<Longrightarrow> (key, i) \<noteq> (key', i') \<Longrightarrow> (key, i, l) \<in> set (remove1 (key', i', l') xs)"
  and remove1_keeps_pair: "x \<in> set xs \<Longrightarrow> x \<noteq> y \<Longrightarrow> x \<in> set (remove1 y xs)"
  by (metis Pair_inject in_set_remove1)+

lemma served_queue:
  assumes "listeners_served s" shows "listeners_served (s\<lparr>sy_gc := queue_inspection sv store app_id syncthing (sy_gc s)\<rparr>)"
proof (rule servedI)
  fix key reg assume "co_listeners (sy_state (s\<lparr>sy_gc := queue_inspection sv store app_id syncthing (sy_gc s)\<rparr>)) key = Some reg"
  then have "co_listeners (sy_state s) key = Some reg" by (simp add: queue_inspection_def Let_def advance_revision_def send_request_def split: if_splits)
  from servedD [OF assms this] show "served (s\<lparr>sy_gc := queue_inspection sv store app_id syncthing (sy_gc s)\<rparr>) key reg"
    by (auto simp: served_simps queue_inspection_def Let_def advance_revision_def send_request_def)
qed

lemma served_defer:
  assumes "listeners_served s" "defer_request r (sy_gc s) = (started, c)"
  shows "listeners_served (s\<lparr>sy_gc := c, sy_running := None,
    sy_spawning := (case started of Some x \<Rightarrow> x # sy_spawning s | None \<Rightarrow> sy_spawning s)\<rparr>)" (is "listeners_served ?s")
proof (rule servedI)
  fix key reg assume reg: "co_listeners (sy_state ?s) key = Some reg"
  show "served ?s key reg"
    using assms(2) reg servedD [OF assms(1), of key reg]
    by (auto simp: served_simps defer_request_def Let_def split: option.splits if_splits)
qed

lemma served_finish:
  assumes "listeners_served s" shows "listeners_served (set_state (finish_request r (sy_state s)) (s\<lparr>sy_running := None\<rparr>))" (is "listeners_served ?s")
proof (rule servedI)
  fix key reg assume "co_listeners (sy_state ?s) key = Some reg"
  then show "served ?s key reg" using servedD [OF assms, of key reg]
    by (auto simp: served_simps set_state_def finish_request_def Let_def split: option.splits if_splits)
qed

lemma served_receive:
  assumes served: "listeners_served s" and m: "gc_sender (sy_gc s) = m # ms"
    and run: "merge_worker_message m (sy_pending s) ((sy_gc s)\<lparr>gc_sender := ms\<rparr>) = (pending, c)" and inv: "deferred_current (sy_gc s)"
  shows "listeners_served (s\<lparr>sy_gc := c, sy_pending := pending\<rparr>)" (is "listeners_served ?s")
proof (rule servedI)
  fix key reg assume reg: "co_listeners (sy_state ?s) key = Some reg"
  let ?c = "(sy_gc s)\<lparr>gc_sender := ms\<rparr>"
  have d: "deferred_current ?c" using inv by (simp add: deferred_current_def)
  show "served ?s key reg"
  proof (cases m)
    case (SyncthingEvent k i)
    show ?thesis
    proof (cases "\<exists>reg0. co_listeners (sy_state s) k = Some reg0 \<and> lg_id reg0 = i")
      case True
      then obtain reg0 where r0: "co_listeners (gc_state ?c) k = Some reg0" "lg_id reg0 = i" by auto
      have c: "c = ?c\<lparr>gc_state := snd (take_deferred_requests (gc_epoch ?c) k i (gc_state ?c))\<rparr>"
        using run by (auto simp: SyncthingEvent merge_worker_message_def split: prod.splits)
      show ?thesis
      proof (cases "key = k")
        case True
        then have "reg = reg0\<lparr>lg_wake_queued := False\<rparr>" using reg take_deferred_exact [OF d r0(1)] by (simp add: c r0(2) [symmetric])
        then show ?thesis using True servedD [OF served, of k reg0] r0 m by (auto simp: served_simps c SyncthingEvent)
      next
        case False
        then have "co_listeners (sy_state s) key = Some reg" using reg take_deferred_exact [OF d r0(1)] by (simp add: c r0(2) [symmetric])
        from servedD [OF served this] show ?thesis using False m by (auto simp: served_simps c SyncthingEvent)
      qed
    next
      case False
      then have "take_deferred_requests (gc_epoch ?c) k i (gc_state ?c) = ([], gc_state ?c)"
        by (auto simp: take_deferred_requests_def split: option.splits)
      then show ?thesis using run reg m False servedD [OF served, of key reg]
        by (auto simp: SyncthingEvent merge_worker_message_def served_simps)
    qed
  qed (use run reg m servedD [OF served, of key reg] in \<open>auto simp: merge_worker_message_def drop_listener_def served_simps split: if_splits\<close>)
qed

lemma served_poll:
  assumes "listeners_served s" "(k, i, l) \<in> set (sy_polling s)"
  shows "listeners_served (poll_listener k i l result s)" (is "listeners_served ?s")
proof (rule servedI)
  fix key reg assume "co_listeners (sy_state ?s) key = Some reg"
  then show "served ?s key reg"
    using servedD [OF assms(1), of key reg] servedD [OF assms(1), of key "reg\<lparr>lg_wake_queued := False\<rparr>"]
    by (cases "listener_turn result l"; cases "fst (listener_turn result l)")
      (auto simp: served_simps poll_listener_def set_state_def send_message_def mark_listener_wake_queued_def Let_def
        split: option.splits if_splits intro: remove1_keeps remove1_keeps_pair)
qed

lemma served_invalidate: "listeners_served (s\<lparr>sy_gc := invalidate c\<rparr>)"
  by (simp add: listeners_served_def invalidate_def)

lemma served_worker [simp]: "listeners_served (s\<lparr>sy_pending := p, sy_running := r\<rparr>) = listeners_served s"
  by (simp add: listeners_served_def served_simps)

lemma served_step:
  assumes "gc_step sv s s'" "deferred_current (sy_gc s)" "listeners_served s" shows "listeners_served s'"
  using assms
proof (induction rule: gc_step.induct)
  case (spawned k i s)
  show ?case
  proof (rule servedI)
    fix key reg assume "co_listeners (sy_state (s\<lparr>sy_spawning := remove1 (k, i) (sy_spawning s), sy_polling := (k, i, listener_start) # sy_polling s\<rparr>)) key = Some reg"
    then show "served (s\<lparr>sy_spawning := remove1 (k, i) (sy_spawning s), sy_polling := (k, i, listener_start) # sy_polling s\<rparr>) key reg"
      using servedD [OF spawned.prems(2), of key reg] by (cases "(key, lg_id reg) = (k, i)") (auto simp: served_simps intro: remove1_keeps_pair)
  qed
next
  case (not_spawned k i s)
  let ?s = "set_state (drop_listener k i (sy_state s)) (s\<lparr>sy_spawning := remove1 (k, i) (sy_spawning s)\<rparr>)"
  show ?case
  proof (rule servedI)
    fix key reg assume "co_listeners (sy_state ?s) key = Some reg"
    then show "served ?s key reg" using servedD [OF not_spawned.prems(2), of key reg]
      by (cases "(key, lg_id reg) = (k, i)") (auto simp: served_simps set_state_def drop_listener_def split: if_splits intro: remove1_keeps_pair)
  qed
next
  case (leave k i l s)
  let ?s = "s\<lparr>sy_polling := remove1 (k, i, l) (sy_polling s)\<rparr>"
  show ?case
  proof (rule servedI)
    fix key reg assume "co_listeners (sy_state ?s) key = Some reg"
    then show "served ?s key reg" using servedD [OF leave.prems(2), of key reg] leave.hyps(2)
      by (cases "(key, lg_id reg) = (k, i)") (auto simp: served_simps listener_is_current_def intro: remove1_keeps)
  qed
next
  case (send k i l s)
  let ?s = "send_message (SyncthingEvent k i) (s\<lparr>sy_sending := remove1 (k, i, l) (sy_sending s), sy_polling := (k, i, l) # sy_polling s\<rparr>)"
  show ?case
  proof (rule servedI)
    fix key reg assume "co_listeners (sy_state ?s) key = Some reg"
    then show "served ?s key reg" using servedD [OF send.prems(2), of key reg]
      by (cases "(key, lg_id reg) = (k, i)") (auto simp: served_simps send_message_def intro: remove1_keeps)
  qed
qed (auto simp: served_queue served_finish served_poll served_invalidate intro: served_defer served_receive)

lemma gc_reachable_inv: "gc_reachable sv s \<Longrightarrow> gc_inv s"
proof (induction rule: gc_reachable.induct)
  case start
  show ?case by (simp add: gc_inv_def gc_start_def try_new_def deferred_current_def listeners_served_def)
next
  case (step s s')
  then show ?case using deferred_step served_step unfolding gc_inv_def by blast
qed

section \<open>Inspections and the repository\<close>

lemma harmless_for_all: "(\<And>x. x \<in> set xs \<Longrightarrow> harmless A (body x)) \<Longrightarrow> harmless A (io_for xs body)"
  by (induction xs) (auto intro!: harmless_intros)

lemma harmless_finalize:
  assumes "apart (fo_work_root store) A" "\<forall>(i, t) \<in> set (gs_moved_manifests sweep). \<exists>c. t = fo_work_root store @ [c]"
  shows "harmless A (finalize_gc_sweep store sweep)"
  unfolding finalize_gc_sweep_def
proof (rule harmless_bind, rule harmless_for_all)
  fix x assume "x \<in> set (gs_moved_manifests sweep)"
  then obtain i c where "x = (i, fo_work_root store @ [c])" using assms(2) by fast
  then show "harmless A (case x of (_, trash) \<Rightarrow> remove_dir_all_if_exists trash)" using harmless_remove(2) [OF assms(1)] by simp
qed (simp add: harmless_def sync_directory_def io_read_def)

lemma after_sweep_safe:
  assumes ap: "apart (fo_work_root (iq_store q)) (app_dir (iq_store q) (iq_app_id q))"
    and moved: "\<forall>(i, t) \<in> set (gs_moved_manifests sweep). \<exists>c. t = fo_work_root (iq_store q) @ [c]"
    and swept: "collected cd (iq_store q) (iq_app_id q) r fs (w_fs w)"
    and undo: "restore_gc_sweep (iq_store q) (iq_app_id q) sweep w = (Inr (), w2)"
      "resolve_app cd (iq_store q) (iq_app_id q) (w_fs w2) = Inr r"
      "contents_of cd (iq_store q) (iq_app_id q) (w_fs w2) = contents_of cd (iq_store q) (iq_app_id q) fs"
    and run: "after_sweep sv q boundary sweep h w = (outcome, h', w')"
  shows "collected cd (iq_store q) (iq_app_id q) r fs (w_fs w')
    \<and> (outcome = DeferForSyncthing \<longrightarrow> resolve_app cd (iq_store q) (iq_app_id q) (w_fs w') = Inr r)
    \<and> (resolve_app cd (iq_store q) (iq_app_id q) (w_fs w') = Inr r
       \<or> resolve_app cd (iq_store q) (iq_app_id q) (w_fs w') = resolve_app cd (iq_store q) (iq_app_id q) (w_fs w)
         \<and> (\<forall>cfg b. iq_syncthing q = Some cfg \<and> boundary = Some b \<longrightarrow> publish_gc sv cfg b h = (Inr (), h')))"
proof -
  have "unseen (app_dir (iq_store q) (iq_app_id q)) (w_fs w) (w_fs (snd (finalize_gc_sweep (iq_store q) sweep w)))"
    using harmless_finalize [OF ap moved] by (simp add: harmless_def)
  note same = unseen_readers [OF this]
  show ?thesis using run undo swept
    by (auto simp: after_sweep_def Let_def collected_def same split: prod.splits sum.splits if_splits option.splits)
qed

lemma inspect_once_cases:
  assumes "inspect_once cd sv c1 c2 q h w = (outcome, h', w')"
  obtains "w' = w"
  | report plan b h1 x w1 where "inspect_gc cd (iq_store q) (iq_app_id q) (w_fs w) = Inr report"
      "prepare_gc_sweep (iq_store q) report (w_fs w) = Inr (Some plan)" "iq_epoch q = gc_epoch c1" "request_is_current c2 q"
      "gr_candidate_manifests report = [] \<or> (\<forall>cfg. iq_syncthing q = Some cfg \<longrightarrow>
         (\<exists>boundary. b = Some boundary \<and> prepare_for_gc sv cfg (fo_root (iq_store q)) report (w_fs w) h = (Inr boundary, h1)))"
      "apply_gc_sweep (iq_store q) plan w = (x, w1)"
      "case x of Inr (Some sweep) \<Rightarrow> after_sweep sv q b sweep h1 w1 = (outcome, h', w') | _ \<Rightarrow> outcome = Finished \<and> w' = w1"
  using assms unfolding inspect_once_def Let_def
  by (auto split: sum.splits option.splits prod.splits if_splits)

lemma nothing_to_collect:
  assumes insp: "inspect_gc cd store app_id fs = Inr report" and res: "resolve_app cd store app_id fs = Inr r"
    and "gr_candidate_manifests report = []"
  shows "(let ms = filter (\<lambda>e. fst e \<in> set (gr_retained_manifests report)) (ra_manifests r) in
     \<lparr>ra_manifests = ms, ra_heads = ra_heads r, ra_max_revision = max_revision_of ms\<rparr>) = r"
proof -
  have i: "gr_retained_manifests report = gc_retained_ids (ra_manifests r)"
      "filter (\<lambda>i. i \<notin> set (gc_retained_ids (ra_manifests r))) (map fst (ra_manifests r)) = []"
    using inspect_gc_Inr [OF insp res] assms(3) by simp_all
  have "filter (\<lambda>e. fst e \<in> set (gr_retained_manifests report)) (ra_manifests r) = ra_manifests r"
    using i(2) unfolding i(1) by (intro filter_True) (auto simp: filter_empty_conv)
  then show ?thesis using res by (auto simp: Let_def resolve_app_Inr)
qed

lemma inspect_once_safe:
  assumes ap: "apart (fo_work_root (iq_store q)) (app_dir (iq_store q) (iq_app_id q))"
    and dirs: "fs_is_dir (w_fs w) (fo_work_root (iq_store q))" "fs_is_dir (w_fs w) (app_dir (iq_store q) (iq_app_id q))"
    and res: "resolve_app cd (iq_store q) (iq_app_id q) (w_fs w) = Inr r"
    and run: "inspect_once cd sv c1 c2 q h w = (outcome, h', w')"
  shows "collected cd (iq_store q) (iq_app_id q) r (w_fs w) (w_fs w')
    \<and> (outcome = DeferForSyncthing \<longrightarrow> resolve_app cd (iq_store q) (iq_app_id q) (w_fs w') = Inr r)
    \<and> (iq_epoch q \<noteq> gc_epoch c1 \<or> \<not> request_is_current c2 q \<longrightarrow> w' = w)
    \<and> (resolve_app cd (iq_store q) (iq_app_id q) (w_fs w') = Inr r
       \<or> (\<exists>report. inspect_gc cd (iq_store q) (iq_app_id q) (w_fs w) = Inr report \<and> guarded sv q report (w_fs w) h h'))"
  using run
proof (cases rule: inspect_once_cases)
  case (2 report plan b h1 x w1)
  note o = gc_sweep_outcome [OF ap dirs res 2(1,2,6)]
  show ?thesis
  proof (cases "\<exists>s. x = Inr (Some s)")
    case True
    then obtain s where x: "x = Inr (Some s)" ..
    let ?ms = "filter (\<lambda>e. fst e \<in> set (gr_retained_manifests report)) (ra_manifests r)"
    have now: "resolve_app cd (iq_store q) (iq_app_id q) (w_fs w1)
        = Inr \<lparr>ra_manifests = ?ms, ra_heads = ra_heads r, ra_max_revision = max_revision_of ?ms\<rparr>"
      using o by (simp add: x Let_def)
    have swept: "collected cd (iq_store q) (iq_app_id q) r (w_fs w) (w_fs w1)" using o by (auto simp: x collected_def Let_def)
    obtain w2 where w2: "restore_gc_sweep (iq_store q) (iq_app_id q) s w1 = (Inr (), w2)"
        "resolve_app cd (iq_store q) (iq_app_id q) (w_fs w2) = Inr r"
        "contents_of cd (iq_store q) (iq_app_id q) (w_fs w2) = contents_of cd (iq_store q) (iq_app_id q) (w_fs w)"
      using o unfolding x by (simp only: sum.case option.case) (elim exE conjE, rule that)
    have moved: "\<forall>(i, t) \<in> set (gs_moved_manifests s). \<exists>c. t = fo_work_root (iq_store q) @ [c]"
      using o unfolding x by (simp only: sum.case option.case) (elim conjE)
    have run2: "after_sweep sv q b s h1 w1 = (outcome, h', w')" using 2(7) by (simp add: x)
    have "gr_candidate_manifests report = [] \<Longrightarrow> resolve_app cd (iq_store q) (iq_app_id q) (w_fs w1) = Inr r"
      using nothing_to_collect [OF 2(1) res] by (simp add: now Let_def)
    with after_sweep_safe [OF ap moved swept w2 run2] 2(1,3,4,5) show ?thesis by (auto simp: guarded_def)
  next
    case False
    then have "w' = w1" "outcome = Finished" using 2(7) by (auto split: sum.splits option.splits)
    then show ?thesis using o False 2(3,4) res by (auto simp: collected_def split: sum.splits option.splits)
  qed
qed (use res in \<open>auto simp: collected_def\<close>)

end
