(* ===== verification/Gc_Properties.thy ===== *)
theory Gc_Properties
  imports Gc_Laws Local_Samples
begin

text \<open>The properties of the background garbage collection and of its Syncthing guard.\<close>

section \<open>Sample values\<close>

text \<open>A service whose index knows every file with one byte, and a request that it guards.\<close>

definition sample_record :: file_record where
  "sample_record = \<lparr>fr_local = Some \<lparr>lf_deleted = False, lf_invalid = False, lf_ignored = False, lf_size = 1\<rparr>\<rparr>"

definition sample_service :: "unit syncthing_service" where
  "sample_service = \<lparr>ss_http = (\<lambda>_ h. (HttpReply 200 (\<lambda>_. Inr []), h)),
     ss_uri = (\<lambda>_. Some \<lparr>uri_scheme = Some ''http'', uri_authority = Some ''127.0.0.1:8384'', uri_query = None, uri_host = Some ''127.0.0.1''\<rparr>),
     ss_config_sync = (\<lambda>_. Inl []), ss_folders = (\<lambda>_. Inl []), ss_ignores = (\<lambda>_. Inl []), ss_status = (\<lambda>_. Inl []),
     ss_file = (\<lambda>_. Inr sample_record), ss_events = (\<lambda>_. Inl []), ss_cwd = []\<rparr>"

definition sample_guard :: syncthing_gc_config where
  "sample_guard = \<lparr>sg_url = ''http://127.0.0.1:8384'', sg_api_key = ''secret'', sg_folder_id = ''cloud'', sg_timeout_ms = 1000\<rparr>"

definition sample_tree :: node where
  "sample_tree = Dir [(''r'', Dir [(''m'', Dir [(''manifest.json'', File [7]), (''blobs'', Dir [(''b'', File [8])])])])]"

definition sample_inspection :: "syncthing_gc_config option \<Rightarrow> inspection_request" where
  "sample_inspection syncthing =
     \<lparr>iq_store = sample_store, iq_app_id = 10, iq_syncthing = syncthing, iq_epoch = 1, iq_revision = 1\<rparr>"

definition sample_queued :: local_gc_coordinator where
  "sample_queued = queue_inspection sample_service sample_store 10 None try_new"

definition sample_listener :: syncthing_listener_key where
  "sample_listener = \<lparr>lk_repository = [''r''], lk_settings = sample_guard\<rparr>"

text \<open>A guarded request that was deferred, with a listener that has just marked a wake.\<close>

definition sample_woken :: gc_system where
  "sample_woken =
     \<lparr>sy_gc = \<lparr>gc_state = \<lparr>co_revisions = [InspectionKey [''r''] ''9/10'' \<mapsto> 1],
                co_deferred = [(InspectionKey [''r''] ''9/10'', sample_inspection (Some sample_guard))],
                co_listeners = [sample_listener \<mapsto> \<lparr>lg_id = 1, lg_wake_queued = True\<rparr>], co_next_listener_id = 1\<rparr>,
               gc_sender = [], gc_epoch = 1\<rparr>,
      sy_pending = [], sy_running = None, sy_spawning = [], sy_polling = [],
      sy_sending = [(sample_listener, 1, \<lparr>ll_cursor = Some 5, ll_connected = True, ll_reconnect_delay = 250\<rparr>)]\<rparr>"

lemma sample_scope: "manifest_scope sample_store 10 = ''9/10''"
  by code_simp

lemma sample_validated: "is_ok (validate_for_gc sample_service sample_guard)"
  by code_simp

lemma sample_woken_reachable: "gc_reachable sample_service sample_woken"
proof -
  let ?q = "sample_inspection (Some sample_guard)" and ?k = "InspectionKey [''r''] ''9/10''"
  have key: "request_key ?q = ?k" "request_listener_key ?q = Some sample_listener"
    by (simp_all add: request_key_def request_listener_key_def sample_inspection_def sample_scope sample_listener_def)
      (simp_all add: sample_store_def)
  define c1 where "c1 = queue_inspection sample_service sample_store 10 (Some sample_guard) try_new"
  have c1: "c1 = \<lparr>gc_state = \<lparr>co_revisions = [?k \<mapsto> 1], co_deferred = [], co_listeners = Map.empty, co_next_listener_id = 0\<rparr>,
      gc_sender = [Inspect ?q], gc_epoch = 1\<rparr>"
    using sample_validated by (simp add: c1_def queue_inspection_def try_new_def Let_def advance_revision_def send_request_def
        sample_scope sample_inspection_def bt_remove_def) (simp add: sample_store_def)
  have "gc_reachable sample_service (gc_start\<lparr>sy_gc := c1\<rparr>)"
    using gc_reachable.step [OF gc_reachable.start gc_step.queue [of sample_service gc_start sample_store 10 "Some sample_guard"]]
    by (simp add: c1_def gc_start_def)
  then have "gc_reachable sample_service (gc_start\<lparr>sy_gc := c1\<lparr>gc_sender := []\<rparr>, sy_pending := [(?k, ?q)]\<rparr>)"
    by (rule gc_reachable.step) (rule gc_step.receive [where m = "Inspect ?q" and ms = "[]" and s = "gc_start\<lparr>sy_gc := c1\<rparr>", simplified],
      simp_all add: c1 gc_start_def merge_worker_message_def merge_pending_request_def key)
  then have run: "gc_reachable sample_service (gc_start\<lparr>sy_gc := c1\<lparr>gc_sender := []\<rparr>, sy_running := Some ?q\<rparr>)"
    by (rule gc_reachable.step) (rule gc_step.start [where k = ?k and r = ?q and pending = "[]"
        and s = "gc_start\<lparr>sy_gc := c1\<lparr>gc_sender := []\<rparr>, sy_pending := [(?k, ?q)]\<rparr>", THEN back_subst [of "gc_step sample_service _"]],
      simp_all add: c1 gc_start_def request_is_current_def request_is_current_locked_def key, simp_all add: sample_inspection_def)
  define d where "d = gc_start\<lparr>sy_gc := c1\<lparr>gc_sender := [], gc_state := (gc_state c1)\<lparr>co_deferred := [(?k, ?q)],
      co_next_listener_id := 1, co_listeners := [sample_listener \<mapsto> \<lparr>lg_id = 1, lg_wake_queued = False\<rparr>]\<rparr>\<rparr>\<rparr>"
  have "defer_request ?q (c1\<lparr>gc_sender := []\<rparr>) = (Some (sample_listener, 1), sy_gc d)"
    by (simp add: defer_request_def key Let_def d_def c1 gc_start_def request_is_current_locked_def) (simp add: sample_inspection_def)
  then have "gc_reachable sample_service (d\<lparr>sy_spawning := [(sample_listener, 1)]\<rparr>)"
    using gc_reachable.step [OF run gc_step.defer_it [where r = ?q and started = "Some (sample_listener, 1)" and c = "sy_gc d"]]
    by (simp add: d_def gc_start_def)
  then have "gc_reachable sample_service (d\<lparr>sy_polling := [(sample_listener, 1, listener_start)]\<rparr>)"
    using gc_step.spawned [of sample_listener 1 "d\<lparr>sy_spawning := [(sample_listener, 1)]\<rparr>" sample_service]
    by (auto simp: d_def gc_start_def dest: gc_reachable.step)
  from gc_reachable.step [OF this gc_step.poll [of sample_listener 1 listener_start _ _ "Inr \<lparr>eb_last_id = Some 5, eb_wakes_gc = False\<rparr>"]]
  show ?thesis
    by (simp add: d_def c1 gc_start_def poll_listener_def listener_turn_def listener_start_def mark_listener_wake_queued_def set_state_def
        sample_woken_def INITIAL_RECONNECT_DELAY_def)
qed

lemma sample_woken_facts:
  "length (co_deferred (sy_state sample_woken)) = 1" "gc_epoch (sy_gc sample_woken) = 1"
  "co_listeners (sy_state sample_woken) sample_listener = Some \<lparr>lg_id = 1, lg_wake_queued = True\<rparr>"
  by (simp_all add: sample_woken_def)

lemma sample_woken_take: "length (filter (\<lambda>(_, r). request_listener_key r = Some sample_listener) (co_deferred (sy_state sample_woken))) = 1"
  by (simp add: sample_woken_def request_listener_key_def sample_inspection_def sample_listener_def sample_store_def)

lemma sample_index: "index_answers sample_service cfg ep (\<lambda>_. sample_record)"
  by (simp add: index_answers_def get_file_record_def get_json_def sample_service_def read_json_response_def is_success_def map_err_def)

lemma sample_tree_proper: "proper_tree sample_tree"
  unfolding sample_tree_def by (intro proper_tree_simps ballI) (auto intro!: proper_tree_simps)

section \<open>Inspections\<close>



text \<open>C5: No wake of the garbage collection is lost, in any interleaving of its threads: every deferred request is
  still the newest of its key, a registered listener has a thread or a notice of its end in the queue, a listener that
  counts as woken has its event on the way to the worker, and the event of a registered listener returns all requests
  that were deferred for it.\<close>

theorem gc_wakes_not_lost:
  assumes "gc_reachable sv s"
  shows "list_all (\<lambda>(k, r). k = request_key r \<and> request_is_current (sy_gc s) r) (co_deferred (sy_state s))
    \<and> (\<forall>key reg. co_listeners (sy_state s) key = Some reg \<longrightarrow>
        listener_alive s key (lg_id reg) \<and> (lg_wake_queued reg \<longrightarrow> wake_in_flight s key (lg_id reg))
        \<and> fst (take_deferred_requests (gc_epoch (sy_gc s)) key (lg_id reg) (sy_state s))
            = map snd (filter (\<lambda>(_, r). request_listener_key r = Some key) (co_deferred (sy_state s))))"
proof -
  have inv: "deferred_current (sy_gc s)" "listeners_served s" using gc_reachable_inv [OF assms] by (simp_all add: gc_inv_def)
  have "list_all (\<lambda>(k, r). k = request_key r \<and> request_is_current (sy_gc s) r) (co_deferred (sy_state s))"
    using inv(1) by (auto simp: deferred_current_def list_all_iff request_is_current_def request_is_current_locked_def)
  moreover have "fst (take_deferred_requests (gc_epoch (sy_gc s)) key (lg_id reg) (sy_state s))
      = map snd (filter (\<lambda>(_, r). request_listener_key r = Some key) (co_deferred (sy_state s)))"
    if "co_listeners (sy_state s) key = Some reg" for key reg
    using take_deferred_exact [OF inv(1) that] by simp
  ultimately show ?thesis using servedD [OF inv(2)] by (simp add: served_def)
qed

theorem gc_wakes_not_lost_witness:
  "gc_reachable sample_service sample_woken \<and> length (co_deferred (sy_state sample_woken)) = 1
   \<and> co_listeners (sy_state sample_woken) sample_listener = Some \<lparr>lg_id = 1, lg_wake_queued = True\<rparr>
   \<and> wake_in_flight sample_woken sample_listener 1
   \<and> length (fst (take_deferred_requests 1 sample_listener 1 (sy_state sample_woken))) = 1"
proof -
  note r = sample_woken_reachable and f = sample_woken_facts
  from gc_wakes_not_lost [OF r, THEN conjunct2, rule_format, OF f(3)] f r sample_woken_take show ?thesis by simp
qed

section \<open>Syncthing\<close>




end
