(* ===== verification/Proc_Maps.thy ===== *)
theory Proc_Maps
  imports Rust_Text "HOL-Library.Code_Target_Nat"
begin

text \<open>The reader of \<open>/proc/self/maps\<close> (\<open>src/crates/memory/src/proc_maps.rs\<close>, \<open>targets.rs\<close>): parsing of a line, the
  queries for permissions, the data ranges of a module and the inventory of the Steam modules.  The text of the file is
  an argument; addresses are natural numbers below \<open>2 ^ w\<close>.  The loop that follows the anonymous mappings behind a module
  is a partial function, whose value \<open>None\<close> means that it does not end.\<close>

section \<open>Lines\<close>

text \<open>\<open>str::lines\<close>: a line ends with a newline or with a carriage return and a newline; the last one may lack both.\<close>

definition strip_cr :: "string \<Rightarrow> string" where
  "strip_cr s = (if s \<noteq> [] \<and> last s = CHR 0x0D then butlast s else s)"

definition str_lines :: "string \<Rightarrow> string list" where
  "str_lines s = (let ps = split_on CHR 0x0A s in map strip_cr (butlast ps) @ (if last ps = [] then [] else [last ps]))"

definition split_dash :: "string \<Rightarrow> string \<times> string option" where
  "split_dash s = (let a = takeWhile (\<lambda>c. c \<noteq> CHR ''-'') s in
     (a, if length a < length s then Some (drop (Suc (length a)) s) else None))"

definition file_name :: "string \<Rightarrow> string" where
  "file_name p = last (split_on CHR ''/'' p)"

section \<open>Entries\<close>

record module_range =
  mr_base :: nat
  mr_end :: nat
  mr_size :: nat

record proc_maps_entry =
  pm_range :: module_range
  pm_permissions :: string
  pm_file_offset :: nat
  pm_path :: string

record proc_maps_module_inventory =
  pi_name :: string
  pi_path :: string
  pi_entry_count :: nat
  pi_range :: module_range
  pi_permissions :: string

record process_range_query =
  rq_address :: nat
  rq_len :: nat
  rq_read :: "bool option"
  rq_write :: "bool option"
  rq_execute :: "bool option"
  rq_file_backed :: bool

record proc_maps_module_inventory_builder =
  pb_name :: string
  pb_path :: string
  pb_entry_count :: nat
  pb_lowest_base :: nat
  pb_highest_end :: nat
  pb_permissions :: "string list"

definition MAX_PROC_MAPS_LINE_LEN :: nat where
  "MAX_PROC_MAPS_LINE_LEN = 4096"

definition MAX_PROC_MAPS_PATH_LEN :: nat where
  "MAX_PROC_MAPS_PATH_LEN = 1024"

definition parse_proc_maps_entry :: "nat \<Rightarrow> string \<Rightarrow> proc_maps_entry option" where
  "parse_proc_maps_entry w line =
     (if MAX_PROC_MAPS_LINE_LEN < length line then None
      else let parts = split_whitespace line in
        opt_bind (get_at parts 0) (\<lambda>range.
        opt_bind (get_at parts 1) (\<lambda>permissions.
        if 16 < length permissions then None
        else case split_dash range of (lo, hi) \<Rightarrow>
          opt_bind (from_hex w lo) (\<lambda>start_address.
          opt_bind (opt_bind hi (from_hex w)) (\<lambda>end_address.
          opt_bind (opt_bind (get_at parts 2) (from_hex w)) (\<lambda>file_offset.
          opt_bind (get_at parts 3) (\<lambda>_.
          opt_bind (get_at parts 4) (\<lambda>_.
          let path = unwrap_or [] (get_at parts 5) in
          if MAX_PROC_MAPS_PATH_LEN < length path then None
          else Some \<lparr>pm_range = \<lparr>mr_base = start_address, mr_end = end_address, mr_size = end_address - start_address\<rparr>,
                      pm_permissions = permissions, pm_file_offset = file_offset, pm_path = path\<rparr>))))))))"

definition proc_maps_entries :: "nat \<Rightarrow> string \<Rightarrow> proc_maps_entry list" where
  "proc_maps_entries w maps = List.map_filter (parse_proc_maps_entry w) (str_lines maps)"

definition range_is_contained_in_entry :: "nat \<Rightarrow> proc_maps_entry \<Rightarrow> nat \<Rightarrow> nat \<Rightarrow> bool" where
  "range_is_contained_in_entry w entry address len =
     (if len = 0 \<or> address < mr_base (pm_range entry) then False
      else case usize_checked_add w address len of
             None \<Rightarrow> False
           | Some end_address \<Rightarrow> end_address \<le> mr_end (pm_range entry))"

section \<open>Permissions\<close>

definition has_flag :: "proc_maps_entry \<Rightarrow> nat \<Rightarrow> char \<Rightarrow> bool" where
  "has_flag entry i c \<longleftrightarrow> get_at (pm_permissions entry) i = Some c"

definition current_process_range_has_permissions ::
  "nat \<Rightarrow> string \<Rightarrow> nat \<Rightarrow> nat \<Rightarrow> bool \<Rightarrow> bool \<Rightarrow> bool \<Rightarrow> bool" where
  "current_process_range_has_permissions w maps address len r wr x \<longleftrightarrow>
     list_ex (\<lambda>entry. range_is_contained_in_entry w entry address len
       \<and> (\<not> r \<or> has_flag entry 0 CHR ''r'') \<and> (\<not> wr \<or> has_flag entry 1 CHR ''w'') \<and> (\<not> x \<or> has_flag entry 2 CHR ''x''))
       (proc_maps_entries w maps)"

definition current_process_range_is_readonly_data :: "nat \<Rightarrow> string \<Rightarrow> nat \<Rightarrow> nat \<Rightarrow> bool" where
  "current_process_range_is_readonly_data w maps address len \<longleftrightarrow>
     list_ex (\<lambda>entry. range_is_contained_in_entry w entry address len
       \<and> has_flag entry 0 CHR ''r'' \<and> \<not> has_flag entry 1 CHR ''w'' \<and> \<not> has_flag entry 2 CHR ''x''
       \<and> starts_with (pm_path entry) ''/'') (proc_maps_entries w maps)"

definition is_none_or :: "'a option \<Rightarrow> ('a \<Rightarrow> bool) \<Rightarrow> bool" where
  "is_none_or m P = (case m of None \<Rightarrow> True | Some x \<Rightarrow> P x)"

definition current_process_ranges_match :: "nat \<Rightarrow> string \<Rightarrow> process_range_query list \<Rightarrow> bool" where
  "current_process_ranges_match w maps queries =
     (let entries = proc_maps_entries w maps in
      list_all (\<lambda>query. list_ex (\<lambda>entry.
        range_is_contained_in_entry w entry (rq_address query) (rq_len query)
        \<and> is_none_or (rq_read query) (\<lambda>expected. has_flag entry 0 CHR ''r'' = expected)
        \<and> is_none_or (rq_write query) (\<lambda>expected. has_flag entry 1 CHR ''w'' = expected)
        \<and> is_none_or (rq_execute query) (\<lambda>expected. has_flag entry 2 CHR ''x'' = expected)
        \<and> (\<not> rq_file_backed query \<or> starts_with (pm_path entry) ''/'')) entries) queries)"

section \<open>The data of a module\<close>

definition is_readable_data :: "string \<Rightarrow> bool" where
  "is_readable_data permissions \<longleftrightarrow> starts_with permissions ''r'' \<and> CHR ''x'' \<notin> set permissions"

definition follows :: "nat \<Rightarrow> proc_maps_entry \<Rightarrow> bool" where
  "follows e entry \<longleftrightarrow> mr_base (pm_range entry) = e \<and> pm_path entry = [] \<and> starts_with (pm_permissions entry) ''rw''"

partial_function (option) bss_ranges :: "proc_maps_entry list \<Rightarrow> nat \<Rightarrow> module_range list \<Rightarrow> module_range list option" where
  "bss_ranges entries e ranges =
     (case List.find (follows e) entries of
        None \<Rightarrow> Some ranges
      | Some entry \<Rightarrow> bss_ranges entries (mr_end (pm_range entry)) (ranges @ [pm_range entry]))"

definition module_data_ranges_in_text :: "nat \<Rightarrow> string \<Rightarrow> string \<Rightarrow> nat \<Rightarrow> module_range list option" where
  "module_data_ranges_in_text w maps name max_entries =
     (let entries = proc_maps_entries w maps;
          named = take max_entries (filter (\<lambda>entry. file_name (pm_path entry) = name) entries) in
      if named = [] then Some []
      else let module_end = Max (set (map (\<lambda>entry. mr_end (pm_range entry)) named));
               ranges = map pm_range (filter (\<lambda>entry. is_readable_data (pm_permissions entry)) named) in
        bss_ranges entries module_end ranges)"

section \<open>The inventory\<close>

definition module_name_matches :: "string \<Rightarrow> string \<Rightarrow> bool" where
  "module_name_matches name_or_path expected \<longleftrightarrow> name_or_path = expected \<or> file_name name_or_path = expected"

definition is_steam_target_name :: "string \<Rightarrow> bool" where
  "is_steam_target_name p \<longleftrightarrow> module_name_matches p ''steamclient.so'' \<or> module_name_matches p ''steamui.so''"

definition steam_target_display_name :: "string \<Rightarrow> string option" where
  "steam_target_display_name p =
     (if module_name_matches p ''steamclient.so'' then Some ''steamclient.so''
      else if module_name_matches p ''steamui.so'' then Some ''steamui.so'' else None)"

definition find_proc_maps_targets_in_text :: "nat \<Rightarrow> string \<Rightarrow> nat \<Rightarrow> proc_maps_entry list" where
  "find_proc_maps_targets_in_text w maps max_entries =
     take max_entries (filter (\<lambda>entry. is_steam_target_name (pm_path entry)) (proc_maps_entries w maps))"

fun join_with :: "string \<Rightarrow> string list \<Rightarrow> string" where
  "join_with sep [] = []"
| "join_with sep [s] = s"
| "join_with sep (s # ss) = s @ sep @ join_with sep ss"

definition join_permissions :: "string list \<Rightarrow> string" where
  "join_permissions permissions = join_with '','' permissions"

definition inventory_finish :: "proc_maps_module_inventory_builder \<Rightarrow> proc_maps_module_inventory" where
  "inventory_finish b =
     \<lparr>pi_name = pb_name b, pi_path = pb_path b, pi_entry_count = pb_entry_count b,
      pi_range = \<lparr>mr_base = pb_lowest_base b, mr_end = pb_highest_end b, mr_size = pb_highest_end b - pb_lowest_base b\<rparr>,
      pi_permissions = join_permissions (pb_permissions b)\<rparr>"

definition inventory_step ::
  "proc_maps_entry \<Rightarrow> (string, proc_maps_module_inventory_builder) btree \<Rightarrow> (string, proc_maps_module_inventory_builder) btree" where
  "inventory_step entry modules =
     (case steam_target_display_name (pm_path entry) of
        None \<Rightarrow> modules
      | Some name \<Rightarrow>
          (case map_of modules (pm_path entry) of
             Some summary \<Rightarrow> bt_insert (pm_path entry)
               (summary\<lparr>pb_entry_count := pb_entry_count summary + 1,
                        pb_lowest_base := min (pb_lowest_base summary) (mr_base (pm_range entry)),
                        pb_highest_end := max (pb_highest_end summary) (mr_end (pm_range entry)),
                        pb_permissions := bts_insert (pm_permissions entry) (pb_permissions summary)\<rparr>) modules
           | None \<Rightarrow> bt_insert (pm_path entry)
               \<lparr>pb_name = name, pb_path = pm_path entry, pb_entry_count = 1,
                pb_lowest_base = mr_base (pm_range entry), pb_highest_end = mr_end (pm_range entry),
                pb_permissions = [pm_permissions entry]\<rparr> modules))"

definition summarize_proc_maps_targets :: "proc_maps_entry list \<Rightarrow> proc_maps_module_inventory list" where
  "summarize_proc_maps_targets entries = map (inventory_finish \<circ> snd) (fold inventory_step entries [])"

definition summarize_proc_maps_targets_in_text :: "nat \<Rightarrow> string \<Rightarrow> nat \<Rightarrow> proc_maps_module_inventory list" where
  "summarize_proc_maps_targets_in_text w maps max_entries =
     summarize_proc_maps_targets (find_proc_maps_targets_in_text w maps max_entries)"

text \<open>\<open>rsplit_once\<close> with a pattern: the text behind its last occurrence.\<close>

fun after_last :: "string \<Rightarrow> string \<Rightarrow> string option" where
  "after_last p [] = (if p = [] then Some [] else None)"
| "after_last p (c # cs) =
     opt_or (after_last p cs) (if starts_with (c # cs) p then Some (drop (length p) (c # cs)) else None)"

definition parse_parent_pid_from_stat :: "string \<Rightarrow> u32 option" where
  "parse_parent_pid_from_stat stat =
     opt_bind (after_last '') '' stat) (\<lambda>after_comm. opt_bind (get_at (split_whitespace after_comm) 1) parse_u32)"

section \<open>Reference definitions\<close>

definition proper_mappings :: "proc_maps_entry list \<Rightarrow> bool" where
  "proper_mappings entries \<longleftrightarrow> (\<forall>x \<in> set entries. mr_base (pm_range x) < mr_end (pm_range x))"

fun contiguous :: "nat \<Rightarrow> module_range list \<Rightarrow> bool" where
  "contiguous e [] \<longleftrightarrow> True"
| "contiguous e (r # rs) \<longleftrightarrow> mr_base r = e \<and> contiguous (mr_end r) rs"

definition chain_end :: "nat \<Rightarrow> module_range list \<Rightarrow> nat" where
  "chain_end e rs = (if rs = [] then e else mr_end (last rs))"

definition addresses :: "module_range \<Rightarrow> nat set" where
  "addresses r = {mr_base r ..< mr_end r}"

definition sample_maps :: string where
  "sample_maps = ''1000-2000 r-xp 0 8:1 7 /lib/a.so'' @ [CHR 0x0A] @ ''2000-3000 rw-p 1000 8:1 7 /lib/a.so'' @ [CHR 0x0A]
     @ ''3000-4000 rw-p 0 0:0 0'' @ [CHR 0x0A] @ ''4000-5000 rw-p 0 0:0 0'' @ [CHR 0x0A] @ ''6000-7000 rw-p 0 0:0 0''"

definition sample_entries :: "proc_maps_entry list" where
  "sample_entries = map (\<lambda>(b, p, f, s). \<lparr>pm_range = \<lparr>mr_base = b, mr_end = b + 0x1000, mr_size = 0x1000\<rparr>,
       pm_permissions = p, pm_file_offset = f, pm_path = s\<rparr>)
     [(0x1000, ''r-xp'', 0, ''/lib/a.so''), (0x2000, ''rw-p'', 0x1000, ''/lib/a.so''), (0x3000, ''rw-p'', 0, []),
      (0x4000, ''rw-p'', 0, []), (0x6000, ''rw-p'', 0, [])]"

lemma sample_maps_entries: "proc_maps_entries 64 sample_maps = sample_entries"
  by code_simp

section \<open>The anonymous mappings behind a module\<close>

lemma find_follows: "List.find (follows e) entries = Some x \<Longrightarrow> x \<in> set entries \<and> follows e x"
  by (auto simp: find_Some_iff)

text \<open>Each turn moves the end past the base of the mapping it took, so fewer mappings are left above it.\<close>

lemma bss_ranges_exact:
  assumes "proper_mappings entries"
  shows "\<exists>bss. bss_ranges entries e ranges = Some (ranges @ bss) \<and> contiguous e bss
    \<and> (\<forall>r \<in> set bss. \<exists>x \<in> set entries. pm_range x = r \<and> follows (mr_base r) x)
    \<and> (\<forall>x \<in> set entries. \<not> follows (chain_end e bss) x)"
proof (induction "length (filter (\<lambda>x. e \<le> mr_base (pm_range x)) entries)" arbitrary: e ranges rule: less_induct)
  case less
  show ?case
  proof (cases "List.find (follows e) entries")
    case None
    then have "\<forall>x \<in> set entries. \<not> follows e x" by (simp add: find_None_iff)
    with None show ?thesis by (intro exI [of _ "[]"]) (simp add: bss_ranges.simps [of entries e] chain_end_def)
  next
    case (Some x)
    then have x: "x \<in> set entries" "follows e x" using find_follows by auto
    let ?e = "mr_end (pm_range x)"
    have b: "mr_base (pm_range x) = e" "e < ?e" using x assms by (auto simp: follows_def proper_mappings_def)
    have "filter (\<lambda>y. ?e \<le> mr_base (pm_range y)) entries
        = filter (\<lambda>y. ?e \<le> mr_base (pm_range y)) (filter (\<lambda>y. e \<le> mr_base (pm_range y)) entries)"
      using b(2) by (auto intro: filter_cong)
    then have "length (filter (\<lambda>y. ?e \<le> mr_base (pm_range y)) entries) < length (filter (\<lambda>y. e \<le> mr_base (pm_range y)) entries)"
      using length_filter_less [of x "filter (\<lambda>y. e \<le> mr_base (pm_range y)) entries"] x b by simp
    from less [OF this, of "ranges @ [pm_range x]"] obtain bss where bss:
        "bss_ranges entries ?e (ranges @ [pm_range x]) = Some ((ranges @ [pm_range x]) @ bss)" "contiguous ?e bss"
        "\<forall>r \<in> set bss. \<exists>x \<in> set entries. pm_range x = r \<and> follows (mr_base r) x" "\<forall>x \<in> set entries. \<not> follows (chain_end ?e bss) x"
      by (elim exE conjE) (rule that)
    have "chain_end e (pm_range x # bss) = chain_end ?e bss" by (simp add: chain_end_def)
    with bss x b Some show ?thesis
      by (intro exI [of _ "pm_range x # bss"]) (auto simp: bss_ranges.simps [of entries e])
  qed
qed

lemma from_hex_bound: "from_hex w s = Some n \<Longrightarrow> n < 2 ^ w"
  by (auto simp: from_hex_def Let_def opt_filter_eq_Some split: if_splits)

lemma entry_bounded:
  assumes "x \<in> set (proc_maps_entries w maps)" shows "mr_end (pm_range x) < 2 ^ w"
proof -
  obtain line where "parse_proc_maps_entry w line = Some x"
    using assms by (auto simp: proc_maps_entries_def List.map_filter_def)
  then show ?thesis
    by (auto simp: parse_proc_maps_entry_def Let_def opt_bind_eq_Some dest: from_hex_bound split: if_splits prod.splits)
qed

lemma contained_iff:
  assumes "x \<in> set (proc_maps_entries w maps)"
  shows "range_is_contained_in_entry w x a len \<longleftrightarrow> 0 < len \<and> {a ..< a + len} \<subseteq> addresses (pm_range x)"
  using entry_bounded [OF assms] by (auto simp: range_is_contained_in_entry_def usize_checked_add_def addresses_def)

text \<open>The check of several ranges against one snapshot means what its caller relies on: every queried range is not
  empty and lies, with all its addresses, inside one mapping that has exactly the requested permissions.  The overflow
  check refuses nothing else, since a mapping ends within the address space.\<close>

lemma ranges_match_exact:
  "current_process_ranges_match w maps queries \<longleftrightarrow>
     list_all (\<lambda>q. 0 < rq_len q \<and> list_ex (\<lambda>x. {rq_address q ..< rq_address q + rq_len q} \<subseteq> addresses (pm_range x)
       \<and> rq_read q \<in> {None, Some (has_flag x 0 CHR ''r'')} \<and> rq_write q \<in> {None, Some (has_flag x 1 CHR ''w'')}
       \<and> rq_execute q \<in> {None, Some (has_flag x 2 CHR ''x'')}
       \<and> (if rq_file_backed q then starts_with (pm_path x) ''/'' else True)) (proc_maps_entries w maps)) queries"
  unfolding current_process_ranges_match_def Let_def list_all_iff list_ex_iff
proof (intro ball_cong refl)
  fix q
  have none: "is_none_or m (\<lambda>e. b = e) \<longleftrightarrow> m \<in> {None, Some b}" for m and b :: bool
    by (auto simp: is_none_or_def split: option.splits)
  have backed: "(\<not> rq_file_backed q \<or> b) = (if rq_file_backed q then b else True)" for b by simp
  show "(\<exists>x \<in> set (proc_maps_entries w maps). range_is_contained_in_entry w x (rq_address q) (rq_len q)
        \<and> is_none_or (rq_read q) (\<lambda>e. has_flag x 0 CHR ''r'' = e) \<and> is_none_or (rq_write q) (\<lambda>e. has_flag x 1 CHR ''w'' = e)
        \<and> is_none_or (rq_execute q) (\<lambda>e. has_flag x 2 CHR ''x'' = e) \<and> (\<not> rq_file_backed q \<or> starts_with (pm_path x) ''/''))
      = (0 < rq_len q \<and> (\<exists>x \<in> set (proc_maps_entries w maps). {rq_address q ..< rq_address q + rq_len q} \<subseteq> addresses (pm_range x)
        \<and> rq_read q \<in> {None, Some (has_flag x 0 CHR ''r'')} \<and> rq_write q \<in> {None, Some (has_flag x 1 CHR ''w'')}
        \<and> rq_execute q \<in> {None, Some (has_flag x 2 CHR ''x'')} \<and> (if rq_file_backed q then starts_with (pm_path x) ''/'' else True)))"
    unfolding none backed using contained_iff by blast
qed

section \<open>Properties\<close>

text \<open>C12: The search for the data of a module ends on every map whose mappings are not empty, and returns exactly what
  its documentation says: the readable, not executable mappings among the first entries with the module's file name,
  then the unbroken chain of private anonymous writable mappings that starts where the last of these entries ends, up to
  the first gap or named mapping.\<close>

theorem module_data_exact:
  assumes "proper_mappings (proc_maps_entries w maps)"
    and "named = take n (filter (\<lambda>x. file_name (pm_path x) = name) (proc_maps_entries w maps))"
  shows "\<exists>bss. module_data_ranges_in_text w maps name n
      = Some (map pm_range (filter (\<lambda>x. is_readable_data (pm_permissions x)) named) @ bss)
    \<and> (named = [] \<longrightarrow> bss = [])
    \<and> (named \<noteq> [] \<longrightarrow> (\<exists>e \<in> (mr_end \<circ> pm_range) ` set named. (\<forall>x \<in> set named. mr_end (pm_range x) \<le> e) \<and> contiguous e bss
        \<and> (\<forall>r \<in> set bss. \<exists>x \<in> set (proc_maps_entries w maps). pm_range x = r \<and> pm_path x = [] \<and> starts_with (pm_permissions x) ''rw'')
        \<and> (\<forall>x \<in> set (proc_maps_entries w maps). \<not> follows (chain_end e bss) x)))"
proof (cases "named = []")
  case True
  then show ?thesis using assms(2) [symmetric] by (intro exI [of _ "[]"]) (simp add: module_data_ranges_in_text_def Let_def)
next
  case False
  let ?e = "Max ((mr_end \<circ> pm_range) ` set named)" and ?data = "map pm_range (filter (\<lambda>x. is_readable_data (pm_permissions x)) named)"
  have e: "?e \<in> (mr_end \<circ> pm_range) ` set named" "\<forall>x \<in> set named. mr_end (pm_range x) \<le> ?e"
    using False by (auto intro!: Max_in Max_ge simp del: image_comp)
  obtain bss where bss: "bss_ranges (proc_maps_entries w maps) ?e ?data = Some (?data @ bss)" "contiguous ?e bss"
      "\<forall>r \<in> set bss. \<exists>x \<in> set (proc_maps_entries w maps). pm_range x = r \<and> follows (mr_base r) x"
      "\<forall>x \<in> set (proc_maps_entries w maps). \<not> follows (chain_end ?e bss) x"
    using bss_ranges_exact [OF assms(1), of ?e ?data] by (elim exE conjE) (rule that)
  have run: "module_data_ranges_in_text w maps name n = Some (?data @ bss)"
    unfolding module_data_ranges_in_text_def Let_def assms(2) [symmetric] using False bss(1) by (simp add: comp_def)
  have anon: "\<forall>r \<in> set bss. \<exists>x \<in> set (proc_maps_entries w maps). pm_range x = r \<and> pm_path x = [] \<and> starts_with (pm_permissions x) ''rw''"
    using bss(3) unfolding follows_def by blast
  show ?thesis
    by (rule exI [of _ bss], intro conjI impI, rule run, use False in simp, rule bexI [OF _ e(1)])
      (intro conjI e(2) bss(2) anon bss(4))
qed

theorem module_data_exact_witness:
  "\<exists>bss. module_data_ranges_in_text 64 sample_maps ''a.so'' 8
      = Some (\<lparr>mr_base = 0x2000, mr_end = 0x3000, mr_size = 0x1000\<rparr> # bss)
    \<and> contiguous 0x3000 bss \<and> (\<forall>x \<in> set sample_entries. \<not> follows (chain_end 0x3000 bss) x)"
proof -
  have p: "proper_mappings (proc_maps_entries 64 sample_maps)" unfolding sample_maps_entries by code_simp
  let ?n = "take 2 sample_entries"
  have nm: "?n = take 8 (filter (\<lambda>x. file_name (pm_path x) = ''a.so'') (proc_maps_entries 64 sample_maps))"
    unfolding sample_maps_entries by code_simp
  have d: "map pm_range (filter (\<lambda>x. is_readable_data (pm_permissions x)) ?n) = [\<lparr>mr_base = 0x2000, mr_end = 0x3000, mr_size = 0x1000\<rparr>]"
    by code_simp
  have e: "e = 0x3000" if "e \<in> (mr_end \<circ> pm_range) ` set ?n" "\<forall>x \<in> set ?n. mr_end (pm_range x) \<le> e" for e
    using that by (auto simp: sample_entries_def)
  have ne: "?n \<noteq> []" by (simp add: sample_entries_def)
  from module_data_exact [OF p nm, unfolded d sample_maps_entries] ne e show ?thesis by (metis append_Cons append_Nil)
qed

end
