(* ===== verification/Rpc_Queue.thy ===== *)
theory Rpc_Queue
  imports Steam_Protocol
begin

text \<open>The queue between Steam's network thread and the cloud worker (\<open>src/crates/cloud-rpc/src/queue.rs\<close>, the packets of
  \<open>protocol.rs\<close>).  What the configuration says about a request and what the adapter answers are arguments.  A channel for
  one response is a number; its messages are a field of the state, and it is connected while a request that holds its
  sender is queued or runs.  A step relation interleaves the network thread, the worker, which may also die, and the
  injection path that consumes the responses.\<close>

section \<open>Packets\<close>

record request_header =
  rh_steamid :: "u64 option"
  rh_jobid_source :: "u64 option"
  rh_target_job_name :: "string option"

text \<open>The fields that a response sets; all others have their default.\<close>

record response_header =
  rp_steamid :: "u64 option"
  rp_jobid_source :: "u64 option"
  rp_jobid_target :: "u64 option"
  rp_target_job_name :: "string option"
  rp_eresult :: "int option"

record rpc_reply =
  rr_body :: bytes
  rr_eresult :: int

definition ERESULT_FAIL :: int where "ERESULT_FAIL = 2"
definition RPC_QUEUE_CAPACITY :: nat where "RPC_QUEUE_CAPACITY = 64"
definition RPC_CHANNEL_CAPACITY :: nat where "RPC_CHANNEL_CAPACITY = RPC_QUEUE_CAPACITY * 2"
definition EMSG_SERVICE_METHOD_RESPONSE :: u32 where "EMSG_SERVICE_METHOD_RESPONSE = 147"

definition assemble_response_packet ::
  "(response_header \<Rightarrow> bytes) \<Rightarrow> request_header \<Rightarrow> bytes \<Rightarrow> int \<Rightarrow> bytes" where
  "assemble_response_packet encode_to_vec request body eresult =
     assemble_raw (or EMSG_SERVICE_METHOD_RESPONSE K_MSG_HDR_PROTO_FLAG)
       (encode_to_vec \<lparr>rp_steamid = rh_steamid request, rp_jobid_source = None, rp_jobid_target = rh_jobid_source request,
                       rp_target_job_name = rh_target_job_name request, rp_eresult = Some eresult\<rparr>) body"

definition build_response_packet ::
  "(response_header \<Rightarrow> bytes) \<Rightarrow> request_header \<Rightarrow> 'e + rpc_reply \<Rightarrow> bytes" where
  "build_response_packet encode_to_vec request result =
     (case (case result of Inr reply \<Rightarrow> (rr_body reply, rr_eresult reply) | Inl error \<Rightarrow> ([], ERESULT_FAIL)) of
        (body, eresult) \<Rightarrow> assemble_response_packet encode_to_vec request body eresult)"

definition build_failure_response_packet :: "(response_header \<Rightarrow> bytes) \<Rightarrow> request_header \<Rightarrow> bytes" where
  "build_failure_response_packet encode_to_vec request = assemble_response_packet encode_to_vec request [] ERESULT_FAIL"

definition RESPONSE_METHODS :: "string list" where
  "RESPONSE_METHODS =
     map (\<lambda>name. ''Cloud.'' @ name @ ''#1'')
       [''BeginHTTPUpload'', ''CommitHTTPUpload'', ''BeginUGCUpload'', ''CommitUGCUpload'', ''GetFileDetails'',
        ''GetSingleFileInfo'', ''ShareFile'', ''EnumerateUserFiles'', ''Delete'', ''GetAppFileChangelist'',
        ''BeginAppUploadBatch'', ''ClientBeginFileUpload'', ''ClientCommitFileUpload'', ''CompleteAppUploadBatchBlocking'',
        ''ClientFileDownload'', ''ClientDeleteFile'', ''ClientGetAppQuotaUsage'', ''SignalAppLaunchIntent'',
        ''SuspendAppSession'', ''ResumeAppSession'']"

definition method_expects_response :: "string \<Rightarrow> bool" where
  "method_expects_response method \<longleftrightarrow> method \<in> set RESPONSE_METHODS"

section \<open>State\<close>

record pending_response =
  pn_receiver :: nat
  pn_fallback :: bytes
  pn_response_generation :: u64

record completed_response =
  cr_packet :: bytes
  cr_response_generation :: u64

record queued_response =
  qr_sender :: nat
  qr_request_header :: request_header

record queued_request =
  qq_app_id :: u32
  qq_method :: string
  qq_body :: bytes
  qq_response :: "queued_response option"
  qq_context_epoch :: u64

text \<open>\<open>qs_channels\<close> are the messages in the response channels, \<open>qs_next\<close> is the next channel, \<open>qs_worker\<close> the channel to
  the worker or \<open>None\<close> when its thread is gone, \<open>qs_running\<close> the request it has taken, \<open>qs_report\<close> the channel of transfer reports.\<close>

record rpc_queue =
  qs_pending :: "pending_response list"
  qs_channels :: "nat \<Rightarrow> bytes list"
  qs_next :: nat
  qs_worker :: "queued_request list option"
  qs_running :: "queued_request option"
  qs_report :: "queued_request list"
  qs_outstanding :: nat
  qs_context_epoch :: u64

definition rpc_queue_new :: rpc_queue where
  "rpc_queue_new = \<lparr>qs_pending = [], qs_channels = (\<lambda>_. []), qs_next = 0, qs_worker = Some [], qs_running = None,
     qs_report = [], qs_outstanding = 0, qs_context_epoch = 1\<rparr>"

section \<open>Operations\<close>

definition try_reserve_response :: "rpc_queue \<Rightarrow> rpc_queue option" where
  "try_reserve_response s =
     (if qs_outstanding s < RPC_QUEUE_CAPACITY then Some (s\<lparr>qs_outstanding := qs_outstanding s + 1\<rparr>) else None)"

definition permit_drop :: "rpc_queue \<Rightarrow> rpc_queue" where
  "permit_drop s = s\<lparr>qs_outstanding := qs_outstanding s - 1\<rparr>"

definition send_packet :: "nat \<Rightarrow> bytes \<Rightarrow> rpc_queue \<Rightarrow> rpc_queue" where
  "send_packet ch packet s = s\<lparr>qs_channels := (qs_channels s)(ch := qs_channels s ch @ [packet])\<rparr>"

definition track_response :: "nat \<Rightarrow> bytes \<Rightarrow> u64 \<Rightarrow> rpc_queue \<Rightarrow> rpc_queue" where
  "track_response receiver fallback response_generation s =
     s\<lparr>qs_pending := qs_pending s
        @ [\<lparr>pn_receiver = receiver, pn_fallback = fallback, pn_response_generation = response_generation\<rparr>]\<rparr>"

text \<open>\<open>try_send\<close> on the bounded channel to the worker.\<close>

definition worker_try_send :: "queued_request \<Rightarrow> rpc_queue \<Rightarrow> rpc_queue option" where
  "worker_try_send request s =
     (case qs_worker s of
        None \<Rightarrow> None
      | Some requests \<Rightarrow>
          if length requests < RPC_CHANNEL_CAPACITY then Some (s\<lparr>qs_worker := Some (requests @ [request])\<rparr>) else None)"

definition intercept ::
  "(response_header \<Rightarrow> bytes) \<Rightarrow> bool \<Rightarrow> u32 option \<Rightarrow> string \<Rightarrow> request_header \<Rightarrow> bytes \<Rightarrow> u64 \<Rightarrow> rpc_queue \<Rightarrow> bool \<times> rpc_queue" where
  "intercept encode_to_vec transfer_report intercepted method request_header body response_generation s =
     (if transfer_report
      then (True, if length (qs_report s) < 128
                  then s\<lparr>qs_report := qs_report s @ [\<lparr>qq_app_id = 0, qq_method = method, qq_body = body,
                                                        qq_response = None, qq_context_epoch = 0\<rparr>]\<rparr>
                  else s)
      else case intercepted of
        None \<Rightarrow> (False, s)
      | Some app_id \<Rightarrow>
          let expects_response = method_expects_response method in
          if expects_response \<and> (rh_jobid_source request_header = None \<or> rh_jobid_source request_header = Some 0) then (False, s)
          else if expects_response
          then (case try_reserve_response s of
                  None \<Rightarrow> (False, s)
                | Some s \<Rightarrow>
                    let ch = qs_next s;
                        s = track_response ch (build_failure_response_packet encode_to_vec request_header) response_generation
                              (s\<lparr>qs_next := ch + 1\<rparr>);
                        request = \<lparr>qq_app_id = app_id, qq_method = method, qq_body = body,
                          qq_response = Some \<lparr>qr_sender = ch, qr_request_header = request_header\<rparr>,
                          qq_context_epoch = qs_context_epoch s\<rparr> in
                    (case worker_try_send request s of
                       Some s \<Rightarrow> (True, s)
                     | None \<Rightarrow> (True, send_packet ch (build_failure_response_packet encode_to_vec request_header) s)))
          else (case worker_try_send \<lparr>qq_app_id = app_id, qq_method = method, qq_body = body, qq_response = None,
                                     qq_context_epoch = qs_context_epoch s\<rparr> s of
                  Some s \<Rightarrow> (True, s)
                | None \<Rightarrow> (False, s)))"

definition cancel_pending_conflicts :: "rpc_queue \<Rightarrow> rpc_queue" where
  "cancel_pending_conflicts s = s\<lparr>qs_context_epoch := qs_context_epoch s + 1\<rparr>"

definition complete_request :: "(response_header \<Rightarrow> bytes) \<Rightarrow> queued_request \<Rightarrow> 'e + rpc_reply \<Rightarrow> rpc_queue \<Rightarrow> rpc_queue" where
  "complete_request encode_to_vec request result s =
     (case qq_response request of
        Some response \<Rightarrow>
          send_packet (qr_sender response) (build_response_packet encode_to_vec (qr_request_header response) result) s
      | None \<Rightarrow> s)"

text \<open>The turn of the worker's loop: it takes a request and refuses one from an older context; it answers another one
  with what the adapter returns.\<close>

definition worker_receive :: "(response_header \<Rightarrow> bytes) \<Rightarrow> rpc_queue \<Rightarrow> rpc_queue" where
  "worker_receive encode_to_vec s =
     (case qs_worker s of
        Some (request # requests) \<Rightarrow>
          let s = s\<lparr>qs_worker := Some requests\<rparr> in
          if qq_context_epoch request \<noteq> qs_context_epoch s
          then complete_request encode_to_vec request (Inl ''cloud request context changed before completion'' :: string + rpc_reply) s
          else s\<lparr>qs_running := Some request\<rparr>
      | _ \<Rightarrow> s)"

definition worker_finish :: "(response_header \<Rightarrow> bytes) \<Rightarrow> string + rpc_reply \<Rightarrow> rpc_queue \<Rightarrow> rpc_queue" where
  "worker_finish encode_to_vec result s =
     (case qs_running s of
        Some request \<Rightarrow> complete_request encode_to_vec request result (s\<lparr>qs_running := None\<rparr>)
      | None \<Rightarrow> s)"

definition holds :: "nat \<Rightarrow> queued_request \<Rightarrow> bool" where
  "holds ch request \<longleftrightarrow> map_option qr_sender (qq_response request) = Some ch"

definition queued_requests :: "rpc_queue \<Rightarrow> queued_request list" where
  "queued_requests s = (case qs_running s of Some r \<Rightarrow> [r] | None \<Rightarrow> []) @ unwrap_or [] (qs_worker s)"

definition connected :: "nat \<Rightarrow> rpc_queue \<Rightarrow> bool" where
  "connected ch s \<longleftrightarrow> list_ex (holds ch) (queued_requests s)"

section \<open>Draining\<close>

definition swap_remove :: "nat \<Rightarrow> 'a list \<Rightarrow> 'a list" where
  "swap_remove i xs = butlast (xs[i := last xs])"

function drain_loop :: "nat \<Rightarrow> completed_response list \<Rightarrow> rpc_queue \<Rightarrow> completed_response list \<times> rpc_queue" where
  "drain_loop index completed s =
     (if index < length (qs_pending s) then
        let entry = qs_pending s ! index; rest = swap_remove index (qs_pending s) in
        (case qs_channels s (pn_receiver entry) of
           packet # packets \<Rightarrow>
             drain_loop index (completed @ [\<lparr>cr_packet = packet, cr_response_generation = pn_response_generation entry\<rparr>])
               (s\<lparr>qs_pending := rest, qs_channels := (qs_channels s)(pn_receiver entry := packets)\<rparr>)
         | [] \<Rightarrow>
             if \<not> connected (pn_receiver entry) s then
               drain_loop index
                 (completed @ [\<lparr>cr_packet = pn_fallback entry, cr_response_generation = pn_response_generation entry\<rparr>])
                 (s\<lparr>qs_pending := rest\<rparr>)
             else drain_loop (index + 1) completed s)
      else (completed, s))"
  by pat_completeness auto
termination drain_loop
  by (relation "measure (\<lambda>(index, completed, s). length (qs_pending s) - index)") (auto simp: swap_remove_def)

declare drain_loop.simps [simp del]

definition drain_completed :: "rpc_queue \<Rightarrow> completed_response list \<times> rpc_queue" where
  "drain_completed s = drain_loop 0 [] s"

section \<open>Threads\<close>

text \<open>The queue with its clients: the headers and generations of the requests for which it promised a response, by their
  channel; all responses it has handed out; and how many of these still hold their permit.\<close>

record rpc_system =
  rs_queue :: rpc_queue
  rs_accepted :: "(request_header \<times> u64) list"
  rs_delivered :: "completed_response list"
  rs_held :: nat

inductive rpc_step :: "(response_header \<Rightarrow> bytes) \<Rightarrow> rpc_system \<Rightarrow> rpc_system \<Rightarrow> bool" for enc where
  intercept: "intercept enc transfer_report intercepted method header body gen (rs_queue s) = (taken, q)
    \<Longrightarrow> rpc_step enc s (s\<lparr>rs_queue := q,
          rs_accepted := rs_accepted s @ (if qs_next q = qs_next (rs_queue s) then [] else [(header, gen)])\<rparr>)"
| cancel: "rpc_step enc s (s\<lparr>rs_queue := cancel_pending_conflicts (rs_queue s)\<rparr>)"
| receive: "qs_running (rs_queue s) = None \<Longrightarrow> rpc_step enc s (s\<lparr>rs_queue := worker_receive enc (rs_queue s)\<rparr>)"
| finish: "rpc_step enc s (s\<lparr>rs_queue := worker_finish enc result (rs_queue s)\<rparr>)"
| die: "rpc_step enc s (s\<lparr>rs_queue := (rs_queue s)\<lparr>qs_worker := None, qs_running := None\<rparr>\<rparr>)"
| report: "qs_report (rs_queue s) = r # rs \<Longrightarrow> rpc_step enc s (s\<lparr>rs_queue := (rs_queue s)\<lparr>qs_report := rs\<rparr>\<rparr>)"
| drain: "drain_completed (rs_queue s) = (completed, q)
    \<Longrightarrow> rpc_step enc s (s\<lparr>rs_queue := q, rs_delivered := rs_delivered s @ completed, rs_held := rs_held s + length completed\<rparr>)"
| dispatch: "rs_held s = Suc n \<Longrightarrow> rpc_step enc s (s\<lparr>rs_queue := permit_drop (rs_queue s), rs_held := n\<rparr>)"

inductive rpc_reachable :: "(response_header \<Rightarrow> bytes) \<Rightarrow> rpc_system \<Rightarrow> bool" for enc where
  start: "rpc_reachable enc \<lparr>rs_queue = rpc_queue_new, rs_accepted = [], rs_delivered = [], rs_held = 0\<rparr>"
| step: "rpc_reachable enc s \<Longrightarrow> rpc_step enc s s' \<Longrightarrow> rpc_reachable enc s'"

end
