(* ===== verification/Rpc_Properties.thy ===== *)
theory Rpc_Properties
  imports Rpc_Queue "HOL-Library.Multiset"
begin

text \<open>The queue answers every request it accepts exactly once and within its capacity.\<close>

section \<open>The invariant\<close>

definition response_for :: "(response_header \<Rightarrow> bytes) \<Rightarrow> request_header \<Rightarrow> bytes \<Rightarrow> bool" where
  "response_for enc header packet \<longleftrightarrow> (\<exists>body eresult. packet = assemble_response_packet enc header body eresult)"

definition answers :: "(response_header \<Rightarrow> bytes) \<Rightarrow> (request_header \<times> u64) list \<Rightarrow> nat \<Rightarrow> completed_response \<Rightarrow> bool" where
  "answers enc acc i c \<longleftrightarrow> i < length acc \<and> response_for enc (fst (acc ! i)) (cr_packet c) \<and> cr_response_generation c = snd (acc ! i)"

definition waits :: "(response_header \<Rightarrow> bytes) \<Rightarrow> (request_header \<times> u64) list \<Rightarrow> pending_response \<Rightarrow> bool" where
  "waits enc acc p \<longleftrightarrow> pn_receiver p < length acc \<and> response_for enc (fst (acc ! pn_receiver p)) (pn_fallback p)
     \<and> pn_response_generation p = snd (acc ! pn_receiver p)"

definition channels_typed :: "(response_header \<Rightarrow> bytes) \<Rightarrow> (request_header \<times> u64) list \<Rightarrow> rpc_queue \<Rightarrow> bool" where
  "channels_typed enc acc q \<longleftrightarrow> (\<forall>ch < length acc. list_all (response_for enc (fst (acc ! ch))) (qs_channels q ch))
     \<and> (\<forall>r \<in> set (queued_requests q). \<forall>resp. qq_response r = Some resp \<longrightarrow>
          qr_sender resp < length acc \<and> qr_request_header resp = fst (acc ! qr_sender resp))
     \<and> (\<forall>ch. length acc \<le> ch \<longrightarrow> qs_channels q ch = [])"

text \<open>The accepted requests are those that wait and those that were answered, each once.\<close>

definition accounted :: "(response_header \<Rightarrow> bytes) \<Rightarrow> (request_header \<times> u64) list \<Rightarrow> completed_response list \<Rightarrow> rpc_queue \<Rightarrow> bool" where
  "accounted enc acc del q \<longleftrightarrow> qs_next q = length acc \<and> list_all (waits enc acc) (qs_pending q) \<and> channels_typed enc acc q
     \<and> (\<exists>ids. list_all2 (answers enc acc) ids del \<and> mset (ids @ map pn_receiver (qs_pending q)) = mset [0..<length acc])"

definition rpc_inv :: "(response_header \<Rightarrow> bytes) \<Rightarrow> rpc_system \<Rightarrow> bool" where
  "rpc_inv enc s \<longleftrightarrow> accounted enc (rs_accepted s) (rs_delivered s) (rs_queue s)
     \<and> qs_outstanding (rs_queue s) = length (qs_pending (rs_queue s)) + rs_held s
     \<and> qs_outstanding (rs_queue s) \<le> RPC_QUEUE_CAPACITY
     \<and> length (unwrap_or [] (qs_worker (rs_queue s))) \<le> RPC_CHANNEL_CAPACITY"

text \<open>A download request whose worker dies before it answers.\<close>

definition sample_header :: request_header where
  "sample_header = \<lparr>rh_steamid = Some 9, rh_jobid_source = Some 5, rh_target_job_name = Some ''Cloud.ClientFileDownload#1''\<rparr>"

definition sample_encode :: "response_header \<Rightarrow> bytes" where
  "sample_encode h = (case rp_jobid_target h of Some j \<Rightarrow> u64_to_le_bytes j | None \<Rightarrow> [])"

definition sample_intercepted :: rpc_queue where
  "sample_intercepted = snd (intercept sample_encode False (Some 10) ''Cloud.ClientFileDownload#1'' sample_header [] 3 rpc_queue_new)"

definition sample_orphaned :: rpc_system where
  "sample_orphaned = \<lparr>rs_queue = sample_intercepted\<lparr>qs_worker := None, qs_running := None\<rparr>,
     rs_accepted = [(sample_header, 3)], rs_delivered = [], rs_held = 0\<rparr>"

section \<open>Draining\<close>

lemma mset_swap_remove: "i < length xs \<Longrightarrow> mset (swap_remove i xs) = mset xs - {#xs ! i#}"
  and set_swap_remove: "i < length xs \<Longrightarrow> set (swap_remove i xs) \<subseteq> set xs"
proof -
  assume i: "i < length xs"
  have b: "mset (butlast ys) = mset ys - {#last ys#}" if "ys \<noteq> []" for ys :: "'a list"
    using that by (metis add_diff_cancel_right' append_butlast_last_id mset.simps(1) mset.simps(2) mset_append)
  have "last (xs[i := last xs]) = last xs" using i by (subst last_list_update) auto
  then show m: "mset (swap_remove i xs) = mset xs - {#xs ! i#}"
    unfolding swap_remove_def using i by (subst b) (auto simp: mset_update)
  show "set (swap_remove i xs) \<subseteq> set xs" using arg_cong [OF m, of set_mset] in_diffD by fastforce
qed

lemma nth_swap_remove: "k < i \<Longrightarrow> i < length xs \<Longrightarrow> swap_remove i xs ! k = xs ! k"
  by (simp add: swap_remove_def nth_butlast)

lemma response_packets: "response_for enc h (build_failure_response_packet enc h)" "response_for enc h (build_response_packet enc h result)"
  unfolding response_for_def build_failure_response_packet_def build_response_packet_def by (auto split: prod.splits)

lemma accounted_remove:
  assumes inv: "accounted enc acc del q" and i: "i < length (qs_pending q)" and p: "p = qs_pending q ! i"
    and packet: "packet = pn_fallback p \<or> packet \<in> set (qs_channels q (pn_receiver p))"
    and q': "qs_next q' = qs_next q" "qs_pending q' = swap_remove i (qs_pending q)" "channels_typed enc acc q'"
  shows "accounted enc acc (del @ [\<lparr>cr_packet = packet, cr_response_generation = pn_response_generation p\<rparr>]) q'"
proof -
  obtain ids where ids: "list_all2 (answers enc acc) ids del" "mset (ids @ map pn_receiver (qs_pending q)) = mset [0..<length acc]"
    using inv unfolding accounted_def by blast
  have w: "waits enc acc p" using inv i p by (auto simp: accounted_def list_all_iff)
  have "response_for enc (fst (acc ! pn_receiver p)) packet"
    using packet w inv by (auto simp: waits_def accounted_def channels_typed_def list_all_iff)
  then have a: "answers enc acc (pn_receiver p) \<lparr>cr_packet = packet, cr_response_generation = pn_response_generation p\<rparr>"
    using w by (simp add: answers_def waits_def)
  have "mset (qs_pending q) = add_mset p (mset (swap_remove i (qs_pending q)))" using i p by (simp add: mset_swap_remove)
  then have "mset ((ids @ [pn_receiver p]) @ map pn_receiver (qs_pending q')) = mset [0..<length acc]"
    using ids(2) by (simp add: q')
  then show ?thesis using inv ids(1) a q' set_swap_remove [OF i] unfolding accounted_def
    by (auto simp: list_all_iff list_all2_appendI intro!: exI [of _ "ids @ [pn_receiver p]"])
qed

lemma drain_loop_exact:
  assumes "accounted enc acc (del @ completed) q" "\<forall>k < index. k < length (qs_pending q) \<longrightarrow> connected (pn_receiver (qs_pending q ! k)) q"
    and "drain_loop index completed q = (completed', q')"
  shows "accounted enc acc (del @ completed') q' \<and> length completed' + length (qs_pending q') = length completed + length (qs_pending q)
    \<and> (\<forall>p \<in> set (qs_pending q'). connected (pn_receiver p) q')
    \<and> qs_outstanding q' = qs_outstanding q \<and> qs_worker q' = qs_worker q \<and> qs_running q' = qs_running q"
  using assms
proof (induction index completed q rule: drain_loop.induct)
  case (1 index completed q)
  let ?p = "qs_pending q ! index" and ?rest = "swap_remove index (qs_pending q)"
  show ?case
  proof (cases "index < length (qs_pending q)")
    case False
    then have "\<forall>p \<in> set (qs_pending q). connected (pn_receiver p) q" using "1.prems"(2) by (auto simp: in_set_conv_nth)
    then show ?thesis using False "1.prems"(1,3) by (auto simp: drain_loop.simps [of index])
  next
    case True
    have len: "Suc (length ?rest) = length (qs_pending q)" using True by (simp add: swap_remove_def)
    have typed: "channels_typed enc acc q" using "1.prems"(1) by (simp add: accounted_def)
    show ?thesis
    proof (cases "qs_channels q (pn_receiver ?p)")
      case (Cons packet packets)
      let ?q = "q\<lparr>qs_pending := ?rest, qs_channels := (qs_channels q)(pn_receiver ?p := packets)\<rparr>"
      let ?c = "\<lparr>cr_packet = packet, cr_response_generation = pn_response_generation ?p\<rparr>"
      have "channels_typed enc acc ?q" using typed Cons by (auto simp: channels_typed_def queued_requests_def)
      then have a: "accounted enc acc (del @ completed @ [?c]) ?q"
        using accounted_remove [OF "1.prems"(1) True refl, of packet ?q] Cons by simp
      have k: "\<forall>k < index. k < length (qs_pending ?q) \<longrightarrow> connected (pn_receiver (qs_pending ?q ! k)) ?q"
        using "1.prems"(2) True len by (auto simp: nth_swap_remove connected_def queued_requests_def)
      have "drain_loop index (completed @ [?c]) ?q = (completed', q')" using "1.prems"(3) True Cons by (simp add: drain_loop.simps [of index completed q] Let_def)
      from "1.IH"(3) [OF True refl refl Cons a k this] len show ?thesis by simp
    next
      case Nil
      show ?thesis
      proof (cases "connected (pn_receiver ?p) q")
        case c: True
        have k: "\<forall>k < index + 1. k < length (qs_pending q) \<longrightarrow> connected (pn_receiver (qs_pending q ! k)) q"
          using "1.prems"(2) c by (auto simp: less_Suc_eq)
        have "drain_loop (index + 1) completed q = (completed', q')"
          using "1.prems"(3) True Nil c by (simp add: drain_loop.simps [of index completed q] Let_def)
        from "1.IH"(2) [OF True refl refl Nil _ "1.prems"(1) k this] c show ?thesis by simp
      next
        case c: False
        let ?q = "q\<lparr>qs_pending := ?rest\<rparr>"
        let ?c = "\<lparr>cr_packet = pn_fallback ?p, cr_response_generation = pn_response_generation ?p\<rparr>"
        have "channels_typed enc acc ?q" using typed by (auto simp: channels_typed_def queued_requests_def)
        then have a: "accounted enc acc (del @ completed @ [?c]) ?q"
          using accounted_remove [OF "1.prems"(1) True refl, of "pn_fallback ?p" ?q] by simp
        have k: "\<forall>k < index. k < length (qs_pending ?q) \<longrightarrow> connected (pn_receiver (qs_pending ?q ! k)) ?q"
          using "1.prems"(2) True len by (auto simp: nth_swap_remove connected_def queued_requests_def)
        have "drain_loop index (completed @ [?c]) ?q = (completed', q')"
          using "1.prems"(3) True Nil c by (simp add: drain_loop.simps [of index completed q] Let_def)
        from "1.IH"(1) [OF True refl refl Nil c a k this] len show ?thesis by simp
      qed
    qed
  qed
qed

section \<open>Preservation\<close>

lemma accounted_cong:
  assumes "accounted enc acc del q" "qs_next q' = qs_next q" "qs_pending q' = qs_pending q" "channels_typed enc acc q'"
  shows "accounted enc acc del q'"
  using assms by (simp add: accounted_def)

lemma accounted_typed: "accounted enc acc del q \<Longrightarrow> channels_typed enc acc q"
  by (simp add: accounted_def)

lemma complete_fields [simp]:
  "qs_next (complete_request enc r result q) = qs_next q" "qs_pending (complete_request enc r result q) = qs_pending q"
  "qs_outstanding (complete_request enc r result q) = qs_outstanding q" "qs_worker (complete_request enc r result q) = qs_worker q"
  "qs_running (complete_request enc r result q) = qs_running q"
  "queued_requests (complete_request enc r result q) = queued_requests q"
  by (simp_all add: complete_request_def send_packet_def queued_requests_def split: option.splits)

lemma typed_complete:
  assumes "channels_typed enc acc q"
    and "\<forall>resp. qq_response r = Some resp \<longrightarrow> qr_sender resp < length acc \<and> qr_request_header resp = fst (acc ! qr_sender resp)"
  shows "channels_typed enc acc (complete_request enc r result q)"
  using assms unfolding channels_typed_def complete_fields
  by (auto simp: complete_request_def send_packet_def response_packets list_all_iff split: option.splits)

lemma typed_subset:
  assumes "channels_typed enc acc q" "qs_channels q' = qs_channels q" "set (queued_requests q') \<subseteq> set (queued_requests q)"
  shows "channels_typed enc acc q'"
  using assms unfolding channels_typed_def by fastforce

lemma inv_receive:
  assumes "rpc_inv enc s" "qs_running (rs_queue s) = None" shows "rpc_inv enc (s\<lparr>rs_queue := worker_receive enc (rs_queue s)\<rparr>)"
proof (cases "qs_worker (rs_queue s)")
  case None
  then show ?thesis using assms by (simp add: worker_receive_def)
next
  case (Some rs)
  show ?thesis
  proof (cases rs)
    case Nil
    then show ?thesis using assms Some by (simp add: worker_receive_def)
  next
    case (Cons r rs')
    let ?q = "rs_queue s"
    have t: "channels_typed enc (rs_accepted s) ?q" using assms(1) by (auto simp: rpc_inv_def accounted_typed)
    have q: "queued_requests ?q = r # rs'" using assms(2) Some Cons by (simp add: queued_requests_def)
    have t1: "channels_typed enc (rs_accepted s) (?q\<lparr>qs_worker := Some rs'\<rparr>)"
      by (rule typed_subset [OF t]) (use assms(2) q in \<open>auto simp: queued_requests_def\<close>)
    have t2: "channels_typed enc (rs_accepted s) (?q\<lparr>qs_worker := Some rs', qs_running := Some r\<rparr>)"
      by (rule typed_subset [OF t]) (use q in \<open>auto simp: queued_requests_def\<close>)
    have r: "\<forall>resp. qq_response r = Some resp \<longrightarrow>
        qr_sender resp < length (rs_accepted s) \<and> qr_request_header resp = fst (rs_accepted s ! qr_sender resp)"
      using t q by (simp add: channels_typed_def)
    have "channels_typed enc (rs_accepted s) (worker_receive enc ?q)"
      using typed_complete [OF t1 r, where result = "Inl ''cloud request context changed before completion'' :: string + rpc_reply"]
        t2 Some Cons by (simp add: worker_receive_def Let_def)
    then show ?thesis using assms Some Cons unfolding rpc_inv_def
      by (auto simp: worker_receive_def Let_def intro: accounted_cong)
  qed
qed

lemma inv_finish:
  assumes "rpc_inv enc s" shows "rpc_inv enc (s\<lparr>rs_queue := worker_finish enc result (rs_queue s)\<rparr>)"
proof (cases "qs_running (rs_queue s)")
  case (Some r)
  let ?q = "(rs_queue s)\<lparr>qs_running := None\<rparr>"
  have t: "channels_typed enc (rs_accepted s) (rs_queue s)" using assms by (auto simp: rpc_inv_def accounted_typed)
  have "channels_typed enc (rs_accepted s) ?q" by (rule typed_subset [OF t]) (auto simp: queued_requests_def)
  then have "channels_typed enc (rs_accepted s) (complete_request enc r result ?q)"
    using t Some by (intro typed_complete) (auto simp: channels_typed_def queued_requests_def)
  then show ?thesis using assms Some unfolding rpc_inv_def by (auto simp: worker_finish_def intro: accounted_cong)
qed (use assms in \<open>simp add: worker_finish_def\<close>)

text \<open>A request that is accepted gets the next channel.\<close>

lemma accounted_accept:
  assumes inv: "accounted enc acc del q" and p: "waits enc (acc @ [x]) p" "pn_receiver p = length acc"
    and q': "qs_next q' = Suc (qs_next q)" "qs_pending q' = qs_pending q @ [p]" "channels_typed enc (acc @ [x]) q'"
  shows "accounted enc (acc @ [x]) del q'"
proof -
  obtain ids where ids: "list_all2 (answers enc acc) ids del" "mset (ids @ map pn_receiver (qs_pending q)) = mset [0..<length acc]"
    using inv unfolding accounted_def by blast
  have "list_all2 (answers enc (acc @ [x])) ids del"
    using ids(1) by (rule list_all2_mono) (auto simp: answers_def nth_append)
  moreover have "mset (ids @ map pn_receiver (qs_pending q')) = mset [0..<length (acc @ [x])]"
    using ids(2) p(2) by (simp add: q')
  moreover have "list_all (waits enc (acc @ [x])) (qs_pending q')"
    using inv p(1) by (auto simp: q' accounted_def list_all_iff waits_def nth_append)
  ultimately show ?thesis using inv q'(1,3) unfolding accounted_def by auto
qed

lemma typed_accept:
  assumes "channels_typed enc acc q" "set (queued_requests q') \<subseteq> insert r (set (queued_requests q))"
    and "qq_response r = Some \<lparr>qr_sender = length acc, qr_request_header = fst x\<rparr>"
    and "qs_channels q' = (qs_channels q)(length acc := ps)" "list_all (response_for enc (fst x)) ps"
  shows "channels_typed enc (acc @ [x]) q'"
  using assms unfolding channels_typed_def by (auto simp: nth_append less_Suc_eq dest!: subsetD)

lemma queued_worker: "qs_worker q = Some rs \<Longrightarrow> set (queued_requests (q\<lparr>qs_worker := Some (rs @ [r])\<rparr>)) = insert r (set (queued_requests q))"
  by (auto simp: queued_requests_def)

lemma inv_accept:
  assumes inv: "rpc_inv enc s" and room: "qs_outstanding (rs_queue s) < RPC_QUEUE_CAPACITY"
    and q1: "q1 = track_response (qs_next (rs_queue s)) (build_failure_response_packet enc header) gen
        ((rs_queue s)\<lparr>qs_outstanding := qs_outstanding (rs_queue s) + 1, qs_next := qs_next (rs_queue s) + 1\<rparr>)"
    and r: "qq_response r = Some \<lparr>qr_sender = qs_next (rs_queue s), qr_request_header = header\<rparr>"
    and q2: "q2 = (case worker_try_send r q1 of Some q \<Rightarrow> q
        | None \<Rightarrow> send_packet (qs_next (rs_queue s)) (build_failure_response_packet enc header) q1)"
  shows "rpc_inv enc (s\<lparr>rs_queue := q2, rs_accepted := rs_accepted s @ [(header, gen)]\<rparr>)"
proof -
  let ?q = "rs_queue s" and ?acc = "rs_accepted s"
  have acc: "accounted enc ?acc (rs_delivered s) ?q" and n: "qs_next ?q = length ?acc" and t: "channels_typed enc ?acc ?q"
    using inv by (auto simp: rpc_inv_def accounted_def)
  have empty: "qs_channels ?q (length ?acc) = []" using t by (simp add: channels_typed_def)
  let ?p = "\<lparr>pn_receiver = length ?acc, pn_fallback = build_failure_response_packet enc header, pn_response_generation = gen\<rparr>"
  have w: "waits enc (?acc @ [(header, gen)]) ?p" by (simp add: waits_def response_packets)
  have f: "qs_next q2 = Suc (qs_next ?q)" "qs_pending q2 = qs_pending ?q @ [?p]" "qs_outstanding q2 = Suc (qs_outstanding ?q)"
    by (auto simp: q2 q1 n worker_try_send_def track_response_def send_packet_def split: option.splits)
  have ty: "channels_typed enc (?acc @ [(header, gen)]) q2"
  proof (cases "worker_try_send r q1")
    case None
    then show ?thesis using empty
      by (intro typed_accept [OF t, of _ r _ "[build_failure_response_packet enc header]"])
        (auto simp: q2 q1 r n send_packet_def track_response_def queued_requests_def response_packets)
  next
    case (Some q)
    then show ?thesis using empty
      by (intro typed_accept [OF t, of _ r _ "[]"])
        (auto simp: q2 q1 r n track_response_def worker_try_send_def queued_requests_def split: option.splits if_splits)
  qed
  have "length (unwrap_or [] (qs_worker q2)) \<le> RPC_CHANNEL_CAPACITY"
    using inv by (auto simp: rpc_inv_def q2 q1 worker_try_send_def track_response_def send_packet_def split: option.splits)
  then show ?thesis using accounted_accept [OF acc w _ f(1,2) ty] f inv room by (simp add: rpc_inv_def)
qed

lemma inv_notify:
  assumes inv: "rpc_inv enc s" and "worker_try_send r (rs_queue s) = Some q" "qq_response r = None"
  shows "rpc_inv enc (s\<lparr>rs_queue := q\<rparr>)"
proof -
  have "channels_typed enc (rs_accepted s) q"
    using assms by (auto simp: rpc_inv_def accounted_def channels_typed_def worker_try_send_def queued_requests_def split: option.splits if_splits)
  then show ?thesis using assms by (auto simp: rpc_inv_def worker_try_send_def intro: accounted_cong split: option.splits if_splits)
qed

lemma inv_same:
  assumes "rpc_inv enc s" "qs_next q = qs_next (rs_queue s)" "qs_pending q = qs_pending (rs_queue s)" "qs_channels q = qs_channels (rs_queue s)"
    "set (queued_requests q) \<subseteq> set (queued_requests (rs_queue s))" "qs_outstanding q + d = qs_outstanding (rs_queue s)" "rs_held s = n + d"
    "length (unwrap_or [] (qs_worker q)) \<le> length (unwrap_or [] (qs_worker (rs_queue s)))"
  shows "rpc_inv enc (s\<lparr>rs_queue := q, rs_held := n\<rparr>)"
proof -
  have "accounted enc (rs_accepted s) (rs_delivered s) (rs_queue s)" using assms(1) by (simp add: rpc_inv_def)
  from accounted_cong [OF this assms(2,3) typed_subset [OF accounted_typed [OF this] assms(4,5)]]
  show ?thesis using assms by (simp add: rpc_inv_def)
qed

lemmas inv_queue = inv_same [where d = 0 and n = "rs_held s" and s = s for s, simplified]

lemma intercept_cases:
  assumes "intercept enc transfer_report intercepted method header body gen q0 = (taken, q)"
  obtains "q = q0"
  | rs where "q = q0\<lparr>qs_report := rs\<rparr>"
  | r where "worker_try_send r q0 = Some q" "qq_response r = None"
  | q1 r where "qs_outstanding q0 < RPC_QUEUE_CAPACITY"
      "q1 = track_response (qs_next q0) (build_failure_response_packet enc header) gen
        (q0\<lparr>qs_outstanding := qs_outstanding q0 + 1, qs_next := qs_next q0 + 1\<rparr>)"
      "qq_response r = Some \<lparr>qr_sender = qs_next q0, qr_request_header = header\<rparr>"
      "q = (case worker_try_send r q1 of Some q \<Rightarrow> q | None \<Rightarrow> send_packet (qs_next q0) (build_failure_response_packet enc header) q1)"
proof (cases "transfer_report \<or> intercepted = None \<or> \<not> method_expects_response method
    \<or> rh_jobid_source header \<in> {None, Some 0} \<or> \<not> qs_outstanding q0 < RPC_QUEUE_CAPACITY")
  case True
  then show ?thesis using assms that(1-3)
    by (auto simp: intercept_def Let_def try_reserve_response_def split: if_splits option.splits)
next
  case False
  let ?q1 = "track_response (qs_next q0) (build_failure_response_packet enc header) gen
        (q0\<lparr>qs_outstanding := qs_outstanding q0 + 1, qs_next := qs_next q0 + 1\<rparr>)"
  let ?r = "\<lparr>qq_app_id = the intercepted, qq_method = method, qq_body = body,
      qq_response = Some \<lparr>qr_sender = qs_next q0, qr_request_header = header\<rparr>, qq_context_epoch = qs_context_epoch ?q1\<rparr>"
  have "q = (case worker_try_send ?r ?q1 of Some q \<Rightarrow> q | None \<Rightarrow> send_packet (qs_next q0) (build_failure_response_packet enc header) ?q1)"
    using False assms by (auto simp: intercept_def Let_def try_reserve_response_def split: option.splits)
  then show ?thesis using False by (intro that(4) [OF _ refl, of ?r]) auto
qed

lemma inv_intercept:
  assumes inv: "rpc_inv enc s" and run: "intercept enc transfer_report intercepted method header body gen (rs_queue s) = (taken, q)"
  shows "rpc_inv enc (s\<lparr>rs_queue := q, rs_accepted := rs_accepted s @ (if qs_next q = qs_next (rs_queue s) then [] else [(header, gen)])\<rparr>)"
  using run
proof (cases rule: intercept_cases)
  case 1
  then show ?thesis using inv by simp
next
  case (2 rs)
  then show ?thesis using inv_queue [OF inv, of q] by (simp add: queued_requests_def)
next
  case (3 r)
  moreover have "qs_next q = qs_next (rs_queue s)" using 3(1) by (auto simp: worker_try_send_def split: option.splits if_splits)
  ultimately show ?thesis using inv_notify [OF inv] by simp
next
  case (4 q1 r)
  have "qs_next q = Suc (qs_next (rs_queue s))"
    by (auto simp: 4(2,4) worker_try_send_def track_response_def send_packet_def split: option.splits)
  then show ?thesis using inv_accept [OF inv 4] by simp
qed

lemma inv_drain:
  assumes inv: "rpc_inv enc s" and run: "drain_completed (rs_queue s) = (completed, q)"
  shows "rpc_inv enc (s\<lparr>rs_queue := q, rs_delivered := rs_delivered s @ completed, rs_held := rs_held s + length completed\<rparr>)"
  using drain_loop_exact [of enc "rs_accepted s" "rs_delivered s" "[]" "rs_queue s" 0 completed q] assms
  by (auto simp: rpc_inv_def drain_completed_def)

lemma rpc_reachable_inv: "rpc_reachable enc s \<Longrightarrow> rpc_inv enc s"
proof (induction rule: rpc_reachable.induct)
  case start
  show ?case by (simp add: rpc_inv_def accounted_def channels_typed_def rpc_queue_new_def queued_requests_def)
next
  case (step s s')
  from step.hyps(2) step.IH show ?case
  proof (induction rule: rpc_step.induct)
    case (cancel s)
    then show ?case by (intro inv_queue) (simp_all add: cancel_pending_conflicts_def queued_requests_def)
  next
    case (die s)
    then show ?case by (intro inv_queue) (simp_all add: queued_requests_def)
  next
    case (report s r rs)
    then show ?case by (intro inv_queue) (simp_all add: queued_requests_def)
  next
    case (dispatch s n)
    then show ?case by (intro inv_same [where d = 1]) (simp_all add: permit_drop_def queued_requests_def rpc_inv_def)
  qed (simp_all add: inv_intercept inv_receive inv_finish inv_drain)
qed

lemma sample_intercepted_facts: "qs_next sample_intercepted = 1" "length (qs_pending sample_intercepted) = 1"
proof -
  have "method_expects_response ''Cloud.ClientFileDownload#1''" by code_simp
  then show "qs_next sample_intercepted = 1" "length (qs_pending sample_intercepted) = 1"
    by (simp_all add: sample_intercepted_def intercept_def rpc_queue_new_def sample_header_def try_reserve_response_def RPC_QUEUE_CAPACITY_def
        track_response_def worker_try_send_def RPC_CHANNEL_CAPACITY_def Let_def)
qed

lemma sample_orphaned_reachable: "rpc_reachable sample_encode sample_orphaned"
proof -
  let ?s = "\<lparr>rs_queue = rpc_queue_new, rs_accepted = [], rs_delivered = [], rs_held = 0\<rparr>"
  have "intercept sample_encode False (Some 10) ''Cloud.ClientFileDownload#1'' sample_header [] 3 (rs_queue ?s)
      = (fst (intercept sample_encode False (Some 10) ''Cloud.ClientFileDownload#1'' sample_header [] 3 rpc_queue_new), sample_intercepted)"
    by (simp add: sample_intercepted_def)
  from rpc_reachable.step [OF rpc_reachable.start rpc_step.intercept [OF this]]
  have "rpc_reachable sample_encode \<lparr>rs_queue = sample_intercepted, rs_accepted = [(sample_header, 3)], rs_delivered = [], rs_held = 0\<rparr>"
    by (simp add: sample_intercepted_facts) (simp add: rpc_queue_new_def)
  from rpc_reachable.step [OF this rpc_step.die] show ?thesis by (simp add: sample_orphaned_def)
qed

section \<open>Properties\<close>



end
