(* ===== verification/Spec2Isabelle.thy ===== *)
theory Spec2Isabelle
  imports Journal_Properties Local_Properties Stats_Properties Pattern_Properties Gc_Properties Proc_Maps Rpc_Properties
begin

text \<open>
  A model of vapor-forge, a library that runs inside the Steam client.  It gives the apps that the user controls
  a cloud of their own: saves, achievements, stats and playtime go to a backend, which may be a folder on disk.  The Rust
  crates under \<open>src/crates\<close> fall into parts that talk to each other as follows.

  \<^item> Steam's packets are framed and routed by \<open>steam-protocol\<close>.  A request for stats of a controlled app is answered
    by \<open>hooks/src/stats_merge.rs\<close> from the backend's state, by the identifiers that the app's schema declares.
  \<^item> What the client does is queued by \<open>sync-journal\<close>, a durable outbox over the structsy database, until a backend
    has taken it.
  \<^item> The folder backend, \<open>cloud-local\<close>, keeps the saves of an app as a graph of immutable manifests with their
    blobs, published by one rename, so that a file synchroniser may copy the folder at any time.
    A background worker collects manifests that no head needs; where Syncthing shares the folder, it asks Syncthing before
    and after it deletes.
  \<^item> Steam's cloud requests for a controlled app are taken off the network thread by the queue of \<open>cloud-rpc\<close>, answered by a
    worker, and their responses are handed back to the code that injects them.
  \<^item> The values that these parts exchange are those of \<open>cloud-core\<close>.
  \<^item> The functions of the client that are hooked are found by \<open>patterns\<close>: byte patterns searched in the code of an
    ELF library.

  \<^bold>\<open>Conventions.\<close>  A struct is a record whose fields carry a prefix of their own, an enum is a datatype, \<open>Result\<close> is a sum
  with the error on the left and \<open>?\<close> is \<open>rbind\<close>, \<open>uN\<close> is a word of N bits, \<open>i64\<close> is an integer with the
  saturation or the range written out, \<open>String\<close> is its UTF-8 bytes, \<open>BTreeMap\<close> is the list of its entries in key order.
  The iteration order of \<open>HashMap\<close> and the pointer width \<open>w\<close> are parameters.  An action on the file system takes a
  \<open>world\<close> and returns the error or the value with the world it leaves, so that half-done work is visible.  Where a slice or
  an overflow check can panic, the result is an option and \<open>None\<close> is the panic.  Code that is not part of the
  repository is an argument: structsy (a record of operations with the laws of locale \<open>structsy_engine\<close>), serde_json
  (locale \<open>manifest_codec\<close>), SHA-1 and SHA-256 (functions of bytes), prost (decoders and encoders), memchr
  (\<open>first_occurrence\<close>), and Syncthing behind the ureq client (a record \<open>syncthing_service\<close> with a state of its own).

  \<^bold>\<open>Theories.\<close>
  \<^item> \<open>VF_Prelude\<close>, \<open>Rust_Text\<close>, \<open>Rust_Float\<close> and \<open>Rust_Net\<close> hold the standard library: results, options, byte order, UTF-8,
    parsing and printing of numbers, slices, ordered maps, IP addresses.
  \<^item> \<open>Cloud_Core\<close> models the values of \<open>cloud-core\<close>, the device cell and the scope digests.
  \<^item> \<open>Journal_Record\<close> models \<open>sync-journal/src/record.rs\<close>, \<open>model.rs\<close> and \<open>retry.rs\<close>; \<open>Sync_Journal\<close> models every operation
    of \<open>store.rs\<close> as a function of a table over an abstract engine.  \<open>Journal_Contract\<close> states the engine and the outbox as
    locales, interprets the outbox on the four record types and the engine on a table of slots, and proves that the
    operations refine a finite map from identities to records.  \<open>Journal_Properties\<close> concludes: an acknowledged upload
    never loses a newer update, settling and deferring touch exactly the rows named at the revision read,
    batches are bounded, ordered, complete and drain, snapshots complete exactly the commit they belong to.
  \<^item> \<open>Local_Fs\<close> models the part of \<open>std::fs\<close> that the store uses as a tree, with the file helpers; \<open>Local_Store\<close> models the
    records, checks and readers of \<open>cloud-local/src/store.rs\<close>; \<open>Local_Operations\<close> its uploads, conflict resolution, sweep
    and play sessions; \<open>Local_Coordination\<close> the opening of a repository and the life of the shared work directory, as a
    step relation between threads.  \<open>Local_Fs_Laws\<close> and \<open>Local_Commit\<close> show what each step does to the
    tree and that the rename publishes exactly one manifest; \<open>Local_Staging\<close> and \<open>Local_Contents\<close> lift this to the map
    from paths to bytes (locale \<open>file_map\<close>, interpreted on the store); \<open>Local_Failure\<close> shows that an operation
    that fails before the rename is unseen, \<open>Local_Gc\<close> what a sweep keeps and that restoring undoes it.  \<open>Local_Samples\<close>
    is the repository on which \<open>Local_Properties\<close> evaluates the conclusions.
  \<^item> \<open>Syncthing\<close> models \<open>cloud-local/src/syncthing.rs\<close>, every request and every check of an answer; \<open>Syncthing_Laws\<close> compares
    its walk over a directory with the set of paths below it, and follows the requests of an arbitrary service by
    a log.  \<open>Gc_Coordinator\<close> models \<open>cloud-local/src/gc.rs\<close>: each function that holds the mutex is a function on
    \<open>coordinator_state\<close>, \<open>inspect_once\<close> composes the guard with the sweep of the repository, and \<open>gc_step\<close>
    interleaves callers, the worker and the listeners.  \<open>gc_step\<close> lets the worker receive between two inspections of a
    batch and a listener poll without looking at its registration first, so it has every run of the code and some more.
    \<open>Gc_Laws\<close> proves the invariant of all interleavings and what an inspection leaves; \<open>Gc_Properties\<close> concludes that
    collection loses neither data nor wakes, and what the guard promises.
  \<^item> \<open>Steam_Schema\<close> models the binary KeyValues parser of \<open>steam-protocol/src/lib.rs\<close> and the identifiers read from a schema,
    \<open>Steam_Protocol\<close> the framing, the routing, the logon readers and the stats token.  \<open>Steam_Properties\<close> shows that
    framing and parsing invert writing, that the parser stops within its limits and what the token distinguishes.
  \<^item> \<open>Stats_Merge\<close> models \<open>hooks/src/stats_merge.rs\<close>; its lemmas show that the wire entries stand for the state
    (\<open>entries_represent\<close>), \<open>Stats_Properties\<close> that the two request forms agree and that the token does not depend on order.
  \<^item> \<open>Pattern_Match\<close> models \<open>patterns/src/lib.rs\<close>, \<open>Pattern_Scan\<close> the ELF reader and the resolution of \<open>elf.rs\<close> and \<open>scan.rs\<close>.
    \<open>Pattern_Laws\<close> and \<open>Pattern_Properties\<close> show that the anchored search finds every match and that a resolved target
    lies inside the code.
  \<^item> \<open>Proc_Maps\<close> models \<open>memory/src/proc_maps.rs\<close> and \<open>targets.rs\<close>: the lines of \<open>/proc/self/maps\<close>, the permission queries, the
    data ranges of a module and the inventory.  It shows that the permission check means containment of all addresses
    and that the search for a module's data ends and returns what its documentation says.
  \<^item> \<open>Rpc_Queue\<close> models \<open>cloud-rpc/src/queue.rs\<close> with the response packets of \<open>protocol.rs\<close>; \<open>intercept\<close>, \<open>worker_receive\<close>,
    \<open>worker_finish\<close> and \<open>drain_completed\<close> are the operations, \<open>rpc_step\<close> interleaves them with the death of the worker.
    \<open>intercept\<close> is one step: its effects on shared state are the counter, the pending list and one send, and another
    thread between them sees a channel that is still connected.  The counter of permits never falls below zero, since
    a permit is dropped only while it is held; \<open>Rpc_Properties\<close> shows this with the account of all responses.

  \<^bold>\<open>Bounds and recursion.\<close>  No function uses fuel.  The loop over the anonymous mappings behind a module may run for ever on a text that no
  kernel writes, so it is a partial function (\<open>None\<close> for no result), and it is shown to return when no mapping is empty.  Other loops that are not structural have a measure: the bytes
  left for the schema parser (which also stops at depth 32 and 100000 entries, as the code does), the value for the
  variable-length integer, the distance to the end for the searches in code, the multiset of the sizes of the trees
  on the stack for the walk over a manifest directory.  An inspection is taken to see one state of the file system from
  its report to the end of the sweep (a manifest published meanwhile makes the comparison of the manifests present fail,
  and the sweep does nothing); the coordinator may change meanwhile.

  \<^bold>\<open>Not modelled.\<close>  The hooks themselves (\<open>hooks/src/client\<close>, \<open>ui\<close>, \<open>hook-engine\<close>, \<open>proton-inject\<close>, \<open>audit-loader\<close>,
  \<open>steam-native-abi\<close>, the rest of \<open>memory\<close>) read and write raw memory of a foreign process through unsafe code: their
  meaning is that of Steam's binaries.  The network backends (\<open>cloud-cumulus\<close>, the adapter and the HTTP client of \<open>cloud-rpc\<close>) are calls to
  services.  The directory watcher and the loopback server of \<open>cloud-local\<close> are calls to the operating system.  The Lua bindings (\<open>scripting\<close>) and the configuration (\<open>config\<close>) are driven by the mlua and toml crates.  The
  semantic validators of \<open>patterns\<close> walk instructions that the iced-x86 crate decodes.  The programs under \<open>bin\<close> are
  command-line front ends.  Tracing output, file permissions, fsync and process-wide mutexes have no counterpart
  beyond the atomicity they give.  The manifest lists each part with its reason.
\<close>

end
